theory Spec2Isabelle
  imports Main "HOL-Library.Word" "HOL-Library.Monad_Syntax"
begin

unbundle bit_operations_syntax

section \<open>Memory, byte order and wire layout\<close>

text \<open>
  \<^verbatim>\<open>iface.c\<close> overlays packed structs on raw buffers. A buffer is a list of bytes and a
  pointer into it is an offset. The layout of \<^verbatim>\<open>ndL_ip6_msg_t\<close> (packed): the Ethernet header
  \<^verbatim>\<open>ether_dhost\<close> 0..5, \<^verbatim>\<open>ether_shost\<close> 6..11, \<^verbatim>\<open>ether_type\<close> 12..13; the IPv6 header from
  14: \<^verbatim>\<open>ip6_flow\<close> 14..17, \<^verbatim>\<open>ip6_plen\<close> 18..19, \<^verbatim>\<open>ip6_nxt\<close> 20, \<^verbatim>\<open>ip6_hops\<close> 21,
  \<^verbatim>\<open>ip6_src\<close> 22..37, \<^verbatim>\<open>ip6_dst\<close> 38..53. What follows \<^verbatim>\<open>msg + 1\<close> starts at 54.
  An ICMPv6 header is \<^verbatim>\<open>icmp6_type\<close>, \<^verbatim>\<open>icmp6_code\<close>, \<^verbatim>\<open>icmp6_cksum\<close> (2 bytes) and 4 bytes
  of data; \<^verbatim>\<open>nd_neighbor_solicit\<close> and \<^verbatim>\<open>nd_neighbor_advert\<close> append the 16-byte target.
\<close>

type_synonym byte = "8 word"

type_synonym nd_addr_t = "byte list"

definition sizeof_ether_header :: nat where
  [simp]: "sizeof_ether_header = 14"

definition sizeof_ndL_ip6_msg_t :: nat where
  [simp]: "sizeof_ndL_ip6_msg_t = 54"

definition sizeof_icmp6_hdr :: nat where
  [simp]: "sizeof_icmp6_hdr = 8"

definition sizeof_nd_neighbor_solicit :: nat where
  [simp]: "sizeof_nd_neighbor_solicit = 24"

definition sizeof_nd_neighbor_advert :: nat where
  [simp]: "sizeof_nd_neighbor_advert = 24"

definition ETHERTYPE_IPV6 :: "16 word" where
  [simp]: "ETHERTYPE_IPV6 = 0x86dd"

definition IPPROTO_HOPOPTS :: byte where
  [simp]: "IPPROTO_HOPOPTS = 0"

definition IPPROTO_ICMPV6 :: byte where
  [simp]: "IPPROTO_ICMPV6 = 58"

definition ND_NEIGHBOR_SOLICIT :: byte where
  [simp]: "ND_NEIGHBOR_SOLICIT = 135"

definition ND_NEIGHBOR_ADVERT :: byte where
  [simp]: "ND_NEIGHBOR_ADVERT = 136"

definition ND_OPT_SOURCE_LINKADDR :: byte where
  [simp]: "ND_OPT_SOURCE_LINKADDR = 1"

definition ND_OPT_TARGET_LINKADDR :: byte where
  [simp]: "ND_OPT_TARGET_LINKADDR = 2"

text \<open>
  The flag constants of \<^verbatim>\<open>netinet/icmp6.h\<close> are 32-bit masks written per byte order so
  that they fall on the first wire byte of \<^verbatim>\<open>nd_na_flags_reserved\<close>; here they are masks
  of that byte.
\<close>

definition ND_NA_FLAG_ROUTER :: byte where
  [simp]: "ND_NA_FLAG_ROUTER = 0x80"

definition ND_NA_FLAG_SOLICITED :: byte where
  [simp]: "ND_NA_FLAG_SOLICITED = 0x40"

definition ND_NA_FLAG_OVERRIDE :: byte where
  [simp]: "ND_NA_FLAG_OVERRIDE = 0x20"

text \<open>\<^verbatim>\<open>htons\<close>/\<^verbatim>\<open>htonl\<close> give the memory image of the value in network order.\<close>

definition htons :: "16 word \<Rightarrow> byte list" where
  "htons x = [ucast (drop_bit 8 x), ucast x]"

definition htonl :: "32 word \<Rightarrow> byte list" where
  "htonl x = [ucast (drop_bit 24 x), ucast (drop_bit 16 x), ucast (drop_bit 8 x), ucast x]"

text \<open>\<^verbatim>\<open>ntohs(*(uint16_t * )p)\<close>: the 16-bit value of two bytes in network order.\<close>

definition ntohs :: "byte \<Rightarrow> byte \<Rightarrow> 16 word" where
  "ntohs a b = push_bit 8 (ucast a) OR ucast b"

text \<open>
  A read of \<open>n\<close> bytes at an offset. A read that leaves the buffer is undefined in C; the
  model makes it \<open>None\<close>.
\<close>

definition peek :: "byte list \<Rightarrow> nat \<Rightarrow> nat \<Rightarrow> byte list option" where
  "peek mem off n = (if off + n \<le> length mem then Some (take n (drop off mem)) else None)"

definition peek8 :: "byte list \<Rightarrow> nat \<Rightarrow> byte option" where
  "peek8 mem off = (if off < length mem then Some (mem ! off) else None)"

text \<open>\<^verbatim>\<open>memcpy(mem + off, src, length src)\<close>.\<close>

definition memcpy :: "byte list \<Rightarrow> nat \<Rightarrow> byte list \<Rightarrow> byte list" where
  "memcpy mem off src = take off mem @ src @ drop (off + length src) mem"

section \<open>Addresses\<close>

text \<open>
  Modelled from the spec: \<^verbatim>\<open>nd_addr_is_unspecified\<close> lives in \<^verbatim>\<open>addr.c\<close>, which is not
  among the sources. The spec lists it among the predicates on the 128-bit address
  (unspecified, multicast, equality); the unspecified address is \<^verbatim>\<open>::\<close>, sixteen zero bytes.
\<close>

definition nd_addr_is_unspecified :: "nd_addr_t \<Rightarrow> bool" where
  "nd_addr_is_unspecified a = (a = replicate 16 0)"

text \<open>
  Modelled from the spec: \<^verbatim>\<open>nd_addr_is_multicast\<close> lives in \<^verbatim>\<open>addr.c\<close>, which is not among
  the sources. A multicast address (\<^verbatim>\<open>ff02::1:ffXX:XXXX\<close> in the spec) starts with the byte
  \<^verbatim>\<open>ff\<close>.
\<close>

definition nd_addr_is_multicast :: "nd_addr_t \<Rightarrow> bool" where
  "nd_addr_is_multicast a = (case a of [] \<Rightarrow> False | b # _ \<Rightarrow> b = 0xff)"

text \<open>
  Modelled from the spec: \<^verbatim>\<open>nd_addr_eq\<close> lives in \<^verbatim>\<open>addr.c\<close>, which is not among the
  sources. It is the equality of two addresses.
\<close>

definition nd_addr_eq :: "nd_addr_t \<Rightarrow> nd_addr_t \<Rightarrow> bool" where
  "nd_addr_eq a b = (a = b)"

section \<open>Interfaces\<close>

text \<open>
  Modelled from the spec: \<^verbatim>\<open>nd_session_t\<close> and \<^verbatim>\<open>nd_iface_t\<close> are declared in
  \<^verbatim>\<open>session.h\<close> and \<^verbatim>\<open>iface.h\<close>, which are not among the sources. The records hold the
  fields that \<^verbatim>\<open>iface.c\<close> uses, which the spec's data model lists: for a session its target
  address \<^verbatim>\<open>real_tgt\<close>; for an interface the kernel index, the 48-bit link-layer address,
  the reference count, the saved ALLMULTI and PROMISC (\<open>- 1\<close> until recorded), the
  optional bound proxy (a pointer, \<open>None\<close> is \<^verbatim>\<open>NULL\<close>) and the attached sessions (the
  intrusive list linked by \<^verbatim>\<open>next_in_iface\<close>).
\<close>

record nd_session_t =
  real_tgt :: nd_addr_t

record 'p nd_iface_t =
  index :: nat
  lladdr :: "byte list"
  refcount :: int
  old_allmulti :: int
  old_promisc :: int
  proxy :: "'p option"
  sessions :: "nd_session_t list"

section \<open>Checksum\<close>

text \<open>
  The loop of \<^verbatim>\<open>ndL_calculate_checksum\<close>: two bytes at a time as a big-endian word, a last
  odd byte as it is, and \<^verbatim>\<open>0xffff\<close> taken off whenever the 32-bit sum passes it.
\<close>

fun ndL_calculate_checksum_loop :: "32 word \<Rightarrow> byte list \<Rightarrow> 32 word" where
  "ndL_calculate_checksum_loop csum [] = csum"
| "ndL_calculate_checksum_loop csum [a] =
     (let csum = csum + ucast a in if csum > 0xffff then csum - 0xffff else csum)"
| "ndL_calculate_checksum_loop csum (a # b # p) =
     (let csum = csum + ucast (ntohs a b) in
      ndL_calculate_checksum_loop (if csum > 0xffff then csum - 0xffff else csum) p)"

definition ndL_calculate_checksum :: "32 word \<Rightarrow> byte list \<Rightarrow> 16 word" where
  "ndL_calculate_checksum csum data = ucast (ndL_calculate_checksum_loop csum data)"

text \<open>
  \<^verbatim>\<open>ndL_calculate_icmp6_checksum(ip6_hdr, icmp6_hdr, size)\<close>: the pseudo-header (source,
  destination, 32-bit length, three zero bytes, next header 58) followed by a copy of the
  ICMPv6 header with its checksum zeroed, then the \<open>size - 8\<close> bytes after the header.
  The result is the memory image of \<^verbatim>\<open>htons(~sum)\<close>. With \<open>size < 8\<close> the C subtraction
  wraps and the read leaves every buffer.
\<close>

definition ndL_calculate_icmp6_checksum ::
  "byte list \<Rightarrow> nat \<Rightarrow> nat \<Rightarrow> nat \<Rightarrow> byte list option" where
  "ndL_calculate_icmp6_checksum mem ip6_hdr icmp6_hdr sz =
     do {
       src \<leftarrow> peek mem (ip6_hdr + 8) 16;
       dst \<leftarrow> peek mem (ip6_hdr + 24) 16;
       ih \<leftarrow> peek mem icmp6_hdr sizeof_icmp6_hdr;
       body \<leftarrow> (if sz < sizeof_icmp6_hdr then None
                else peek mem (icmp6_hdr + sizeof_icmp6_hdr) (sz - sizeof_icmp6_hdr));
       let hdr = src @ dst @ htonl (of_nat sz) @ [0, 0, 0] @ [IPPROTO_ICMPV6]
                   @ memcpy ih 2 [0, 0];
       let csum = ndL_calculate_checksum 0xffff hdr;
       let csum = ndL_calculate_checksum (ucast csum) body;
       Some (htons (NOT csum))
     }"

text \<open>
  The reference for the checksum. RFC 2460 prescribes for ICMPv6 the Internet checksum of
  RFC 1071 over the pseudo-header and the message: the data is read as 16-bit words in
  network order, a last odd byte padded with a zero byte on its right, and the words are
  added in ones-complement arithmetic, that is, modulo \<^verbatim>\<open>0xffff\<close>. \<open>rfc1071_sum\<close> is the
  sum of those words as a natural number; a message with its checksum in place verifies
  when that sum is a multiple of \<^verbatim>\<open>0xffff\<close>.
\<close>

fun rfc1071_sum :: "byte list \<Rightarrow> nat" where
  "rfc1071_sum [] = 0"
| "rfc1071_sum [a] = 256 * unat a"
| "rfc1071_sum (a # b # p) = 256 * unat a + unat b + rfc1071_sum p"

section \<open>Sending\<close>

text \<open>
  \<^verbatim>\<open>ndL_send_icmp6\<close> fills the Ethernet and IPv6 headers and the checksum of the message
  in place and hands its first \<open>size\<close> bytes to \<^verbatim>\<open>nd_io_send\<close>/\<^verbatim>\<open>nd_io_write\<close>. The result
  is the frame written; \<open>None\<close> when the message is too short for what is read.
\<close>

definition ndL_send_icmp6 ::
  "'p nd_iface_t \<Rightarrow> byte list \<Rightarrow> nat \<Rightarrow> byte list \<Rightarrow> byte list option" where
  "ndL_send_icmp6 iface msg sz hwaddr =
     (let msg = memcpy msg 12 (htons ETHERTYPE_IPV6);
          msg = memcpy msg 6 (take 6 (lladdr iface));
          msg = memcpy msg 0 (take 6 hwaddr);
          msg = memcpy msg 14 (htonl (push_bit 28 6 OR push_bit 20 0 OR 0));
          msg = memcpy msg 18 (htons (word_of_int (int sz - int sizeof_ndL_ip6_msg_t)));
          msg = msg[21 := 255];
          msg = msg[20 := IPPROTO_ICMPV6];
          icmp6_hdr = sizeof_ndL_ip6_msg_t;
          icmp6_len = (word_of_int (int sz - int sizeof_ndL_ip6_msg_t) :: 16 word)
      in case ndL_calculate_icmp6_checksum msg sizeof_ether_header icmp6_hdr (unat icmp6_len) of
           None \<Rightarrow> None
         | Some cksum \<Rightarrow> Some (take sz (memcpy msg (icmp6_hdr + 2) cksum)))"

text \<open>\<^verbatim>\<open>ndL_get_local_addr\<close> writes ten bytes of the address it is given.\<close>

definition ndL_get_local_addr :: "'p nd_iface_t \<Rightarrow> nd_addr_t \<Rightarrow> nd_addr_t" where
  "ndL_get_local_addr iface addr =
     addr[0 := 0xfe, 1 := 0x80,
          8 := lladdr iface ! 0 XOR 0x02,
          9 := lladdr iface ! 1,
          10 := lladdr iface ! 2,
          11 := 0xff,
          12 := 0xfe,
          13 := lladdr iface ! 3,
          14 := lladdr iface ! 4,
          15 := lladdr iface ! 5]"

text \<open>
  \<^verbatim>\<open>nd_iface_send_ns\<close>: the message is the packed struct (Ethernet header, IPv6 header,
  \<^verbatim>\<open>nd_neighbor_solicit\<close>, option header, 6 bytes of link-layer address) of 86 bytes, zero
  but for the designated initialisers.
\<close>

definition nd_iface_send_ns :: "'p nd_iface_t \<Rightarrow> nd_addr_t \<Rightarrow> byte list option" where
  "nd_iface_send_ns iface tgt =
     (let msg = replicate sizeof_ether_header 0
                @ replicate 8 0 @ replicate 16 0 @ replicate 16 0
                @ [ND_NEIGHBOR_SOLICIT, 0, 0, 0] @ replicate 4 0 @ take 16 tgt
                @ [ND_OPT_SOURCE_LINKADDR, 1]
                @ replicate 6 0;
          msg = memcpy msg 22 (ndL_get_local_addr iface (take 16 (drop 22 msg)));
          multicast = [0xff, 0x02, 0, 0, 0, 0, 0, 0, 0, 0, 0, 0x01, 0xff, 0, 0, 0];
          msg = memcpy msg 38 multicast;
          msg = msg[38 + 13 := tgt ! 13];
          msg = msg[38 + 14 := tgt ! 14];
          msg = msg[38 + 15 := tgt ! 15];
          msg = memcpy msg 80 (take 6 (lladdr iface));
          ll_mcast = [0x33, 0x33, 0, 0, 0, 0];
          ll_mcast = memcpy ll_mcast 2 (take 4 (drop 12 tgt))
      in ndL_send_icmp6 iface msg 86 ll_mcast)"

text \<open>
  \<^verbatim>\<open>nd_iface_send_na\<close>: the packed struct (Ethernet header, IPv6 header,
  \<^verbatim>\<open>nd_neighbor_advert\<close>, option header, 6 bytes of link-layer address) is 86 bytes;
  byte 58 is the first byte of \<^verbatim>\<open>nd_na_flags_reserved\<close>.
\<close>

definition nd_iface_send_na ::
  "'p nd_iface_t \<Rightarrow> nd_addr_t \<Rightarrow> byte list \<Rightarrow> nd_addr_t \<Rightarrow> bool \<Rightarrow> byte list option" where
  "nd_iface_send_na iface dst dst_ll tgt router =
     (let msg = replicate sizeof_ether_header 0
                @ replicate 8 0 @ take 16 tgt @ take 16 dst
                @ [ND_NEIGHBOR_ADVERT, 0, 0, 0] @ replicate 4 0 @ take 16 tgt
                @ [ND_OPT_TARGET_LINKADDR, 1]
                @ replicate 6 0;
          msg = (if nd_addr_is_multicast dst
                 then msg[58 := msg ! 58 OR ND_NA_FLAG_SOLICITED] else msg);
          msg = (if router then msg[58 := msg ! 58 OR ND_NA_FLAG_ROUTER] else msg);
          msg = memcpy msg 80 (take 6 (lladdr iface))
      in ndL_send_icmp6 iface msg 86 dst_ll)"

section \<open>Receiving\<close>

text \<open>
  What a receive function does with a message: it returns without calling anything, or it
  calls \<^verbatim>\<open>nd_proxy_handle_ns\<close> (proxy, source, destination, target, \<^verbatim>\<open>src_ll\<close> with \<open>None\<close>
  for \<^verbatim>\<open>NULL\<close>) or \<^verbatim>\<open>nd_session_handle_na\<close> (the session found). Sessions and frames
  change only inside those two callees. A result \<open>None\<close> is a read outside the buffer.
\<close>

datatype 'p rx_action =
    Return
  | Call_nd_proxy_handle_ns 'p nd_addr_t nd_addr_t nd_addr_t "byte list option"
  | Call_nd_session_handle_na nd_session_t

definition ndL_handle_ns ::
  "'p nd_iface_t \<Rightarrow> byte list \<Rightarrow> nat \<Rightarrow> nat \<Rightarrow> nat \<Rightarrow> 'p rx_action option" where
  "ndL_handle_ns iface mem ip6h ih len =
     (case proxy iface of
        None \<Rightarrow> Some Return
      | Some pr \<Rightarrow>
          if len < sizeof_nd_neighbor_solicit then Some Return
          else do {
            ip6_src \<leftarrow> peek mem (ip6h + 8) 16;
            if \<not> nd_addr_is_unspecified ip6_src then
              (if len - sizeof_nd_neighbor_solicit < 8 then Some Return
               else do {
                 nd_opt_type \<leftarrow> peek8 mem (ih + sizeof_nd_neighbor_solicit);
                 nd_opt_len \<leftarrow> peek8 mem (ih + sizeof_nd_neighbor_solicit + 1);
                 if nd_opt_len \<noteq> 1 then Some Return
                 else if nd_opt_type \<noteq> ND_OPT_SOURCE_LINKADDR then Some Return
                 else do {
                   src_ll \<leftarrow> peek mem (ih + sizeof_nd_neighbor_solicit + 2) 6;
                   ip6_dst \<leftarrow> peek mem (ip6h + 24) 16;
                   nd_ns_target \<leftarrow> peek mem (ih + 8) 16;
                   Some (Call_nd_proxy_handle_ns pr ip6_src ip6_dst nd_ns_target (Some src_ll))
                 }
               })
            else do {
              ip6_dst \<leftarrow> peek mem (ip6h + 24) 16;
              nd_ns_target \<leftarrow> peek mem (ih + 8) 16;
              Some (Call_nd_proxy_handle_ns pr ip6_src ip6_dst nd_ns_target None)
            }
          })"

text \<open>
  \<^verbatim>\<open>ndL_handle_na\<close>. The macro \<^verbatim>\<open>ND_LL_SEARCH\<close> of \<^verbatim>\<open>ndppd.h\<close> (not among the sources)
  walks the list and leaves the first element that satisfies the condition, or \<^verbatim>\<open>NULL\<close>.
\<close>

definition ndL_handle_na ::
  "'p nd_iface_t \<Rightarrow> byte list \<Rightarrow> nat \<Rightarrow> nat \<Rightarrow> 'p rx_action option" where
  "ndL_handle_na iface mem ih len =
     (if len < sizeof_nd_neighbor_advert then Some Return
      else do {
        nd_na_target \<leftarrow> peek mem (ih + 8) 16;
        case find (\<lambda>session. nd_addr_eq (real_tgt session) nd_na_target) (sessions iface) of
          None \<Rightarrow> Some Return
        | Some session \<Rightarrow> Some (Call_nd_session_handle_na session)
      })"

text \<open>
  The loop of \<^verbatim>\<open>ndL_handle_msg\<close> over the Hop-by-Hop headers, from offset \<open>i\<close> past the
  IPv6 header: it returns from the function, or leaves the loop with the new \<open>i\<close>.
  \<open>i \<le> plen\<close> holds at every iteration, so the unsigned \<open>plen - i\<close> never wraps.
\<close>

datatype hopopts = Hop_return | Hop_fault | Hop_break nat

function ndL_handle_msg_hopopts :: "byte list \<Rightarrow> nat \<Rightarrow> nat \<Rightarrow> hopopts" where
  "ndL_handle_msg_hopopts mem plen i =
     (if plen - i < 8 then Hop_return
      else if length mem < sizeof_ndL_ip6_msg_t + i + 2 then Hop_fault
      else if plen - i < 8 + unat (mem ! (sizeof_ndL_ip6_msg_t + i + 1)) * 8 then Hop_return
      else if mem ! (sizeof_ndL_ip6_msg_t + i) = IPPROTO_ICMPV6
        then Hop_break (i + (8 + 8 * unat (mem ! (sizeof_ndL_ip6_msg_t + i + 1))))
      else if mem ! (sizeof_ndL_ip6_msg_t + i) \<noteq> IPPROTO_HOPOPTS then Hop_return
      else ndL_handle_msg_hopopts mem plen (i + (8 + 8 * unat (mem ! (sizeof_ndL_ip6_msg_t + i + 1)))))"
  by pat_completeness auto
termination
  by (relation "measure (\<lambda>(mem, plen, i). plen - i)") auto

declare ndL_handle_msg_hopopts.simps [simp del]

text \<open>
  \<^verbatim>\<open>ndL_handle_msg\<close>. The ICMPv6 header pointer is
  \<^verbatim>\<open>(struct icmp6_hdr * )(msg + 1) + i\<close>: the cast binds first, so \<open>i\<close> counts headers of
  8 bytes and the header read is at byte \<open>54 + 8 * i\<close>.
\<close>

definition ndL_handle_msg :: "'p nd_iface_t \<Rightarrow> byte list \<Rightarrow> 'p rx_action option" where
  "ndL_handle_msg iface mem =
     do {
       ip6_plen \<leftarrow> peek mem 18 2;
       ip6_nxt \<leftarrow> peek8 mem 20;
       let plen = unat (ntohs (ip6_plen ! 0) (ip6_plen ! 1));
       case (if ip6_nxt = IPPROTO_HOPOPTS then ndL_handle_msg_hopopts mem plen 0
             else if ip6_nxt \<noteq> IPPROTO_ICMPV6 then Hop_return
             else Hop_break 0) of
         Hop_return \<Rightarrow> Some Return
       | Hop_fault \<Rightarrow> None
       | Hop_break i \<Rightarrow>
           if plen - i < sizeof_icmp6_hdr then Some Return
           else do {
             let ih = sizeof_ndL_ip6_msg_t + sizeof_icmp6_hdr * i;
             let ilen = plen - i;
             cksum \<leftarrow> ndL_calculate_icmp6_checksum mem sizeof_ether_header ih ilen;
             icmp6_cksum \<leftarrow> peek mem (ih + 2) 2;
             if cksum \<noteq> icmp6_cksum then Some Return
             else do {
               icmp6_type \<leftarrow> peek8 mem ih;
               if icmp6_type = ND_NEIGHBOR_SOLICIT
                 then ndL_handle_ns iface mem sizeof_ether_header ih ilen
               else if icmp6_type = ND_NEIGHBOR_ADVERT
                 then ndL_handle_na iface mem ih ilen
               else Some Return
             }
           }
     }"

section \<open>Link flags\<close>

text \<open>
  The kernel's flag word of the interface (\<^verbatim>\<open>ifr_flags\<close>) is the state the two ioctls read
  and write; \<open>get_ok\<close> and \<open>set_ok\<close> say whether \<^verbatim>\<open>SIOCGIFFLAGS\<close> and \<^verbatim>\<open>SIOCSIFFLAGS\<close>
  succeed. Each function returns its result, the interface and the kernel's flags.
\<close>

definition IFF_PROMISC :: "16 word" where
  "IFF_PROMISC = 0x100"

definition IFF_ALLMULTI :: "16 word" where
  "IFF_ALLMULTI = 0x200"

definition nd_iface_set_allmulti ::
  "bool \<Rightarrow> bool \<Rightarrow> 'p nd_iface_t \<Rightarrow> bool \<Rightarrow> 16 word \<Rightarrow> bool \<times> 'p nd_iface_t \<times> 16 word" where
  "nd_iface_set_allmulti get_ok set_ok iface on kflags =
     (if \<not> get_ok then (False, iface, kflags)
      else
        let ifr_flags = kflags;
            iface = (if old_allmulti iface < 0
                     then iface\<lparr>old_allmulti := (if ifr_flags AND IFF_ALLMULTI \<noteq> 0 then 1 else 0)\<rparr>
                     else iface)
        in if on = (ifr_flags AND IFF_ALLMULTI \<noteq> 0) then (True, iface, kflags)
           else
             let ifr_flags = (if on then ifr_flags OR IFF_ALLMULTI
                              else ifr_flags AND NOT IFF_ALLMULTI)
             in if \<not> set_ok then (False, iface, kflags) else (True, iface, ifr_flags))"

definition nd_iface_set_promisc ::
  "bool \<Rightarrow> bool \<Rightarrow> 'p nd_iface_t \<Rightarrow> bool \<Rightarrow> 16 word \<Rightarrow> bool \<times> 'p nd_iface_t \<times> 16 word" where
  "nd_iface_set_promisc get_ok set_ok iface on kflags =
     (if \<not> get_ok then (False, iface, kflags)
      else
        let ifr_flags = kflags;
            iface = (if old_promisc iface < 0
                     then iface\<lparr>old_promisc := (if ifr_flags AND IFF_PROMISC \<noteq> 0 then 1 else 0)\<rparr>
                     else iface)
        in if on = (ifr_flags AND IFF_PROMISC \<noteq> 0) then (True, iface, kflags)
           else
             let ifr_flags = (if on then ifr_flags OR IFF_PROMISC
                              else ifr_flags AND NOT IFF_PROMISC)
             in if \<not> set_ok then (False, iface, kflags) else (True, iface, ifr_flags))"

text \<open>
  \<^verbatim>\<open>nd_iface_close\<close>: \<open>no_restore\<close> is the global \<^verbatim>\<open>nd_iface_no_restore_flags\<close>; the two
  pairs of booleans are the outcomes of the ioctls of the two restoring calls. The last
  component says whether the interface was released (moved to the free list).
\<close>

definition nd_iface_close ::
  "bool \<Rightarrow> bool \<times> bool \<Rightarrow> bool \<times> bool \<Rightarrow> 'p nd_iface_t \<Rightarrow> 16 word
     \<Rightarrow> 'p nd_iface_t \<times> 16 word \<times> bool" where
  "nd_iface_close no_restore promisc_ok allmulti_ok iface kflags =
     (let iface = iface\<lparr>refcount := refcount iface - 1\<rparr> in
      if refcount iface > 0 then (iface, kflags, False)
      else if no_restore then (iface, kflags, True)
      else
        let (iface, kflags) =
              (if old_promisc iface \<ge> 0
               then snd (nd_iface_set_promisc (fst promisc_ok) (snd promisc_ok) iface
                           (old_promisc iface \<noteq> 0) kflags)
               else (iface, kflags));
            (iface, kflags) =
              (if old_allmulti iface \<ge> 0
               then snd (nd_iface_set_allmulti (fst allmulti_ok) (snd allmulti_ok) iface
                           (old_allmulti iface \<noteq> 0) kflags)
               else (iface, kflags))
        in (iface, kflags, True))"

text \<open>A call of one of the two setters, with the outcomes of its ioctls.\<close>

datatype set_call = Set_allmulti bool bool bool | Set_promisc bool bool bool

fun run_set_call :: "set_call \<Rightarrow> 'p nd_iface_t \<times> 16 word \<Rightarrow> 'p nd_iface_t \<times> 16 word" where
  "run_set_call (Set_allmulti on get_ok set_ok) (iface, kflags) =
     snd (nd_iface_set_allmulti get_ok set_ok iface on kflags)"
| "run_set_call (Set_promisc on get_ok set_ok) (iface, kflags) =
     snd (nd_iface_set_promisc get_ok set_ok iface on kflags)"

definition run_set_calls ::
  "set_call list \<Rightarrow> 'p nd_iface_t \<times> 16 word \<Rightarrow> 'p nd_iface_t \<times> 16 word" where
  "run_set_calls calls st = foldl (\<lambda>st c. run_set_call c st) st calls"

text \<open>
  The invariant of the saved flags, relative to the flag word \<open>k0\<close> the kernel held when
  the interface was opened: the setters touch no bit but \<^verbatim>\<open>IFF_PROMISC\<close> (bit 8) and
  \<^verbatim>\<open>IFF_ALLMULTI\<close> (bit 9); while a saved value is the sentinel the kernel's bit is still
  the original one, and a saved value that is set is the original bit.
\<close>

definition saved_flags_inv :: "16 word \<Rightarrow> 'p nd_iface_t \<times> 16 word \<Rightarrow> bool" where
  "saved_flags_inv k0 st =
     (case st of (iface, kflags) \<Rightarrow>
        (\<forall>n. n = 8 \<or> n = 9 \<or> bit kflags n = bit k0 n)
        \<and> (if old_promisc iface < 0 then bit kflags 8 = bit k0 8
            else old_promisc iface = (if bit k0 8 then 1 else 0))
        \<and> (if old_allmulti iface < 0 then bit kflags 9 = bit k0 9
            else old_allmulti iface = (if bit k0 9 then 1 else 0)))"

section \<open>Facts about memory and the checksum\<close>

lemma length_memcpy [simp]:
  "off + length src \<le> length mem \<Longrightarrow> length (memcpy mem off src) = length mem"
  by (simp add: memcpy_def)

lemma htons_length [simp]: "length (htons x) = 2"
  by (simp add: htons_def)

lemma htonl_length [simp]: "length (htonl x) = 4"
  by (simp add: htonl_def)

lemma htons_ETHERTYPE_IPV6: "htons ETHERTYPE_IPV6 = [0x86, 0xdd]"
  by (simp add: htons_def)

lemma htonl_ip6_flow: "htonl (push_bit 28 6 OR push_bit 20 0 OR 0) = [0x60, 0, 0, 0]"
  by (simp add: htonl_def)

lemma drop_two_nth:
  "Suc n < length xs \<Longrightarrow> drop n xs = xs ! n # xs ! Suc n # drop (Suc (Suc n)) xs"
  by (simp add: Cons_nth_drop_Suc Suc_lessD)

lemma send_headers:
  assumes "length msg = sz" "22 \<le> sz" "length ll = 6" "length hw = 6" "length pl = 2" "length et = 2"
  shows "(memcpy (memcpy (memcpy (memcpy (memcpy msg 12 et) 6 ll) 0 hw) 14 [a,b,c,d]) 18 pl)[21 := h, 20 := n]
     = hw @ ll @ et @ [a,b,c,d] @ pl @ [n, h] @ drop 22 msg"
proof -
  have d20: "drop 20 msg = msg ! 20 # msg ! 21 # drop 22 msg"
    using drop_two_nth [of 20 msg] assms by simp
  have 1: "memcpy msg 12 et = take 12 msg @ et @ drop 14 msg"
    using assms by (simp add: memcpy_def)
  have 2: "memcpy (take 12 msg @ et @ drop 14 msg) 6 ll = take 6 msg @ ll @ et @ drop 14 msg"
    using assms by (simp add: memcpy_def)
  have 3: "memcpy (take 6 msg @ ll @ et @ drop 14 msg) 0 hw = hw @ ll @ et @ drop 14 msg"
    using assms by (simp add: memcpy_def)
  have 4: "memcpy (hw @ ll @ et @ drop 14 msg) 14 [a,b,c,d] = hw @ ll @ et @ [a,b,c,d] @ drop 18 msg"
    using assms by (simp add: memcpy_def)
  have 5: "memcpy (hw @ ll @ et @ [a,b,c,d] @ drop 18 msg) 18 pl = hw @ ll @ et @ [a,b,c,d] @ pl @ drop 20 msg"
    using assms by (simp add: memcpy_def)
  have 6: "(hw @ ll @ et @ [a,b,c,d] @ pl @ drop 20 msg)[21 := h, 20 := n]
        = hw @ ll @ et @ [a,b,c,d] @ pl @ [n, h] @ drop 22 msg"
    using assms by (simp add: d20 list_update_append)
  show ?thesis
    by (simp only: 1 2 3 4 5 6)
qed


lemma nth_memcpy:
  "off + length src \<le> length mem \<Longrightarrow>
   memcpy mem off src ! k =
     (if k < off then mem ! k else if k < off + length src then src ! (k - off) else mem ! k)"
  by (auto simp: memcpy_def nth_append)

lemma peek_cong_nth:
  assumes "length mem' = length mem"
    and "\<And>k. off \<le> k \<Longrightarrow> k < off + n \<Longrightarrow> k < length mem \<Longrightarrow> mem' ! k = mem ! k"
  shows "peek mem' off n = peek mem off n"
proof (cases "off + n \<le> length mem")
  case True
  have "take n (drop off mem') = take n (drop off mem)"
    using assms True by (intro nth_equalityI) auto
  with True assms(1) show ?thesis by (simp add: peek_def)
next
  case False
  with assms(1) show ?thesis by (simp add: peek_def)
qed

lemma peek_memcpy_other:
  "off + length src \<le> length mem \<Longrightarrow> o' + n \<le> off \<or> off + length src \<le> o' \<Longrightarrow>
   peek (memcpy mem off src) o' n = peek mem o' n"
  by (rule peek_cong_nth) (auto simp: nth_memcpy)

lemma icmp6_checksum_Some:
  assumes "ip6 + 40 \<le> length mem" "ih + sz \<le> length mem" "8 \<le> sz"
  shows "\<exists>c0 c1. ndL_calculate_icmp6_checksum mem ip6 ih sz = Some [c0, c1]"
  using assms by (simp add: ndL_calculate_icmp6_checksum_def peek_def htons_def Let_def)

lemma icmp6_checksum_memcpy_cksum:
  assumes ck: "length ck = 2" and ih: "ih + 8 \<le> length mem" and ip6: "ip6 + 40 \<le> ih"
  shows "ndL_calculate_icmp6_checksum (memcpy mem (ih + 2) ck) ip6 ih sz
         = ndL_calculate_icmp6_checksum mem ip6 ih sz"
proof -
  define m where "m = memcpy mem (ih + 2) ck"
  have fit: "ih + 2 + length ck \<le> length mem"
    using ck ih by simp
  have src: "peek m (ip6 + 8) 16 = peek mem (ip6 + 8) 16"
    unfolding m_def using fit ip6 by (intro peek_memcpy_other) auto
  have dst: "peek m (ip6 + 24) 16 = peek mem (ip6 + 24) 16"
    unfolding m_def using fit ip6 by (intro peek_memcpy_other) auto
  have body: "peek m (ih + 8) n = peek mem (ih + 8) n" for n
    unfolding m_def using fit ck by (intro peek_memcpy_other) auto
  have len: "length m = length mem"
    unfolding m_def using fit by simp
  have hdr: "peek m ih 8 = Some (take 8 (drop ih m))" "peek mem ih 8 = Some (take 8 (drop ih mem))"
    using ih len by (simp_all add: peek_def)
  have zeroed: "memcpy (take 8 (drop ih m)) 2 [0, 0] = memcpy (take 8 (drop ih mem)) 2 [0, 0]"
    unfolding m_def using fit ih ck by (intro nth_equalityI) (auto simp: nth_memcpy)
  have "ndL_calculate_icmp6_checksum m ip6 ih sz = ndL_calculate_icmp6_checksum mem ip6 ih sz"
    by (simp add: ndL_calculate_icmp6_checksum_def src dst body hdr zeroed)
  then show ?thesis
    by (simp only: m_def)
qed

lemma ndL_send_icmp6_frame:
  assumes len: "length msg = sz" and lo: "62 \<le> sz" and hi: "sz < 65590"
    and ll: "length (lladdr iface) = 6" and hw: "length hwaddr = 6"
  shows "\<exists>c0 c1.
           ndL_send_icmp6 iface msg sz hwaddr =
             Some (hwaddr @ lladdr iface @ [0x86, 0xdd, 0x60, 0, 0, 0] @ htons (of_nat (sz - 54))
                   @ [58, 255] @ take 34 (drop 22 msg) @ [c0, c1] @ drop 58 msg)
         \<and> ndL_calculate_icmp6_checksum
               (hwaddr @ lladdr iface @ [0x86, 0xdd, 0x60, 0, 0, 0] @ htons (of_nat (sz - 54))
                @ [58, 255] @ take 34 (drop 22 msg) @ [c0, c1] @ drop 58 msg) 14 54 (sz - 54)
             = Some [c0, c1]"
proof -
  define pl :: "16 word" where "pl = of_nat (sz - 54)"
  define m where "m = hwaddr @ lladdr iface @ [0x86, 0xdd] @ [0x60, 0, 0, 0] @ htons pl
                       @ [58, 255] @ drop 22 msg"
  have pl_int: "(word_of_int (int sz - int 54) :: 16 word) = pl"
    using lo by (simp add: pl_def of_nat_diff)
  have pl_unat: "unat pl = sz - 54"
    using hi by (simp add: pl_def unat_of_nat)
  have hdrs: "(memcpy (memcpy (memcpy (memcpy (memcpy msg 12 [0x86, 0xdd]) 6 (lladdr iface)) 0 hwaddr)
                  14 [0x60, 0, 0, 0]) 18 (htons pl))[21 := 255, 20 := 58] = m"
    unfolding m_def using len lo ll hw by (intro send_headers [where sz = sz]) simp_all
  have m_len: "length m = sz"
    using len lo ll hw by (simp add: m_def)
  have "\<exists>c0 c1. ndL_calculate_icmp6_checksum m 14 54 (sz - 54) = Some [c0, c1]"
    using m_len lo by (intro icmp6_checksum_Some) simp_all
  then obtain c0 c1 where ck: "ndL_calculate_icmp6_checksum m 14 54 (sz - 54) = Some [c0, c1]"
    by blast
  have fit: "54 + 8 \<le> length m"
    using m_len lo by simp
  have stored: "memcpy m (54 + 2) [c0, c1]
                = hwaddr @ lladdr iface @ [0x86, 0xdd, 0x60, 0, 0, 0] @ htons pl
                   @ [58, 255] @ take 34 (drop 22 msg) @ [c0, c1] @ drop 58 msg"
    using len lo ll hw by (simp add: memcpy_def m_def)
  have len': "length (memcpy m (54 + 2) [c0, c1]) = sz"
    using m_len lo by simp
  have again: "ndL_calculate_icmp6_checksum (memcpy m (54 + 2) [c0, c1]) 14 54 (sz - 54) = Some [c0, c1]"
    using icmp6_checksum_memcpy_cksum [of "[c0, c1]" 54 m 14 "sz - 54"] fit ck by simp
  have tk: "take 6 (lladdr iface) = lladdr iface" "take 6 hwaddr = hwaddr"
    using ll hw by simp_all
  have "ndL_send_icmp6 iface msg sz hwaddr = Some (take sz (memcpy m (54 + 2) [c0, c1]))"
    by (simp only: ndL_send_icmp6_def Let_def pl_int pl_unat htons_ETHERTYPE_IPV6 tk
        htonl_ip6_flow sizeof_ndL_ip6_msg_t_def sizeof_ether_header_def IPPROTO_ICMPV6_def
        hdrs ck option.case)
  then show ?thesis
    using again len' unfolding stored pl_def by auto
qed

lemma ntohs_htons: "ntohs (htons x ! 0) (htons x ! Suc 0) = x"
  unfolding ntohs_def htons_def
  by (rule bit_word_eqI) (auto simp: bit_simps)

lemma list6:
  "length xs = 6 \<Longrightarrow> \<exists>a0 a1 a2 a3 a4 a5. xs = [a0, a1, a2, a3, a4, a5]"
  by (auto simp: eval_nat_numeral length_Suc_conv)

lemma list16:
  "length xs = 16 \<Longrightarrow>
   \<exists>a0 a1 a2 a3 a4 a5 a6 a7 a8 a9 a10 a11 a12 a13 a14 a15.
     xs = [a0, a1, a2, a3, a4, a5, a6, a7, a8, a9, a10, a11, a12, a13, a14, a15]"
  by (auto simp: eval_nat_numeral length_Suc_conv)

lemma replicates:
  "replicate 4 x = [x, x, x, x]"
  "replicate 6 x = [x, x, x, x, x, x]"
  "replicate 8 x = [x, x, x, x, x, x, x, x]"
  "replicate 14 x = [x, x, x, x, x, x, x, x, x, x, x, x, x, x]"
  "replicate 16 x = [x, x, x, x, x, x, x, x, x, x, x, x, x, x, x, x]"
  by (simp_all add: eval_nat_numeral)

lemma ns_msg:
  assumes tgt_def: "tgt = [t0, t1, t2, t3, t4, t5, t6, t7, t8, t9, t10, t11, t12, t13, t14, t15]"
    and ll: "lladdr iface = [m0, m1, m2, m3, m4, m5]"
  shows "nd_iface_send_ns iface tgt =
         ndL_send_icmp6 iface
          ([0, 0, 0, 0, 0, 0, 0, 0, 0, 0, 0, 0, 0, 0, 0, 0, 0, 0, 0, 0, 0, 0,
            0xfe, 0x80, 0, 0, 0, 0, 0, 0, m0 XOR 2, m1, m2, 0xff, 0xfe, m3, m4, m5,
            0xff, 2, 0, 0, 0, 0, 0, 0, 0, 0, 0, 1, 0xff, t13, t14, t15,
            135, 0, 0, 0, 0, 0, 0, 0] @ tgt @ [1, 1, m0, m1, m2, m3, m4, m5])
          86 [0x33, 0x33, t12, t13, t14, t15]"
  by (simp add: nd_iface_send_ns_def tgt_def ll memcpy_def ndL_get_local_addr_def replicates)

lemma na_msg:
  assumes tgt_def: "tgt = [t0, t1, t2, t3, t4, t5, t6, t7, t8, t9, t10, t11, t12, t13, t14, t15]"
    and dst_def: "dst = [d0, d1, d2, d3, d4, d5, d6, d7, d8, d9, d10, d11, d12, d13, d14, d15]"
    and ll: "lladdr iface = [m0, m1, m2, m3, m4, m5]"
  shows "nd_iface_send_na iface dst dst_ll tgt router =
         ndL_send_icmp6 iface
          ([0, 0, 0, 0, 0, 0, 0, 0, 0, 0, 0, 0, 0, 0, 0, 0, 0, 0, 0, 0, 0, 0] @ tgt @ dst
           @ [136, 0, 0, 0,
              (if d0 = 0xff then 0x40 else 0) OR (if router then 0x80 else 0), 0, 0, 0]
           @ tgt @ [2, 1, m0, m1, m2, m3, m4, m5])
          86 dst_ll"
  by (simp add: nd_iface_send_na_def tgt_def dst_def ll memcpy_def nd_addr_is_multicast_def replicates)

lemma htons_32: "htons (word_of_nat (86 - 54)) = [0, 32]"
  by (simp add: htons_def)

section \<open>The frames of the two senders\<close>

lemma nd_iface_send_ns_frame:
  assumes tgt: "length tgt = 16" and ll: "length (lladdr iface) = 6"
  shows "\<exists>c0 c1. nd_iface_send_ns iface tgt =
           Some ([0x33, 0x33, tgt ! 12, tgt ! 13, tgt ! 14, tgt ! 15] @ lladdr iface
                 @ [0x86, 0xdd, 0x60, 0, 0, 0, 0, 32, 58, 255]
                 @ [0xfe, 0x80, 0, 0, 0, 0, 0, 0,
                    lladdr iface ! 0 XOR 0x02, lladdr iface ! 1, lladdr iface ! 2, 0xff,
                    0xfe, lladdr iface ! 3, lladdr iface ! 4, lladdr iface ! 5]
                 @ [0xff, 0x02, 0, 0, 0, 0, 0, 0, 0, 0, 0, 0x01, 0xff, tgt ! 13, tgt ! 14, tgt ! 15]
                 @ [135, 0, c0, c1, 0, 0, 0, 0] @ tgt @ [1, 1] @ lladdr iface)"
proof -
  obtain t0 t1 t2 t3 t4 t5 t6 t7 t8 t9 t10 t11 t12 t13 t14 t15
    where t: "tgt = [t0, t1, t2, t3, t4, t5, t6, t7, t8, t9, t10, t11, t12, t13, t14, t15]"
    using list16 [OF tgt] by blast
  obtain m0 m1 m2 m3 m4 m5 where m: "lladdr iface = [m0, m1, m2, m3, m4, m5]"
    using list6 [OF ll] by blast
  let ?msg = "[0, 0, 0, 0, 0, 0, 0, 0, 0, 0, 0, 0, 0, 0, 0, 0, 0, 0, 0, 0, 0, 0,
            0xfe, 0x80, 0, 0, 0, 0, 0, 0, m0 XOR 2, m1, m2, 0xff, 0xfe, m3, m4, m5,
            0xff, 2, 0, 0, 0, 0, 0, 0, 0, 0, 0, 1, 0xff, t13, t14, t15,
            135, 0, 0, 0, 0, 0, 0, 0] @ tgt @ [1, 1, m0, m1, m2, m3, m4, m5]"
  have len: "length ?msg = 86"
    by (simp add: t)
  obtain c0 c1 where
    "ndL_send_icmp6 iface ?msg 86 [0x33, 0x33, t12, t13, t14, t15] =
       Some ([0x33, 0x33, t12, t13, t14, t15] @ lladdr iface @ [0x86, 0xdd, 0x60, 0, 0, 0]
             @ htons (of_nat (86 - 54)) @ [58, 255] @ take 34 (drop 22 ?msg) @ [c0, c1]
             @ drop 58 ?msg)"
    using ndL_send_icmp6_frame [OF len _ _ ll, of "[0x33, 0x33, t12, t13, t14, t15]"] by auto
  then show ?thesis
    unfolding ns_msg [OF t m] htons_32 by (simp add: t m)
qed


lemma nd_iface_send_na_frame:
  assumes tgt: "length tgt = 16" and dst: "length dst = 16"
    and ll: "length (lladdr iface) = 6" and dl: "length dst_ll = 6"
  shows "\<exists>c0 c1. nd_iface_send_na iface dst dst_ll tgt router =
           Some (dst_ll @ lladdr iface
                 @ [0x86, 0xdd, 0x60, 0, 0, 0, 0, 32, 58, 255]
                 @ tgt @ dst
                 @ [136, 0, c0, c1,
                    (if nd_addr_is_multicast dst then ND_NA_FLAG_SOLICITED else 0)
                      OR (if router then ND_NA_FLAG_ROUTER else 0), 0, 0, 0]
                 @ tgt @ [2, 1] @ lladdr iface)"
proof -
  obtain t0 t1 t2 t3 t4 t5 t6 t7 t8 t9 t10 t11 t12 t13 t14 t15
    where t: "tgt = [t0, t1, t2, t3, t4, t5, t6, t7, t8, t9, t10, t11, t12, t13, t14, t15]"
    using list16 [OF tgt] by blast
  obtain d0 d1 d2 d3 d4 d5 d6 d7 d8 d9 d10 d11 d12 d13 d14 d15
    where d: "dst = [d0, d1, d2, d3, d4, d5, d6, d7, d8, d9, d10, d11, d12, d13, d14, d15]"
    using list16 [OF dst] by blast
  obtain m0 m1 m2 m3 m4 m5 where m: "lladdr iface = [m0, m1, m2, m3, m4, m5]"
    using list6 [OF ll] by blast
  let ?msg = "[0, 0, 0, 0, 0, 0, 0, 0, 0, 0, 0, 0, 0, 0, 0, 0, 0, 0, 0, 0, 0, 0] @ tgt @ dst
           @ [136, 0, 0, 0,
              (if d0 = 0xff then 0x40 else 0) OR (if router then 0x80 else 0), 0, 0, 0]
           @ tgt @ [2, 1, m0, m1, m2, m3, m4, m5]"
  have len: "length ?msg = 86"
    by (simp add: t d)
  obtain c0 c1 where
    "ndL_send_icmp6 iface ?msg 86 dst_ll =
       Some (dst_ll @ lladdr iface @ [0x86, 0xdd, 0x60, 0, 0, 0]
             @ htons (of_nat (86 - 54)) @ [58, 255] @ take 34 (drop 22 ?msg) @ [c0, c1]
             @ drop 58 ?msg)"
    using ndL_send_icmp6_frame [OF len _ _ ll dl] by auto
  then show ?thesis
    unfolding na_msg [OF t d m] htons_32 by (simp add: t d m nd_addr_is_multicast_def)
qed

lemma nd_iface_send_ns_destinations:
  assumes "length tgt = 16" and "length (lladdr iface) = 6"
  shows "\<exists>frame. nd_iface_send_ns iface tgt = Some frame
           \<and> peek frame 38 16 =
               Some [0xff, 0x02, 0, 0, 0, 0, 0, 0, 0, 0, 0, 0x01, 0xff, tgt ! 13, tgt ! 14, tgt ! 15]
           \<and> peek frame 0 6 = Some [0x33, 0x33, tgt ! 12, tgt ! 13, tgt ! 14, tgt ! 15]"
proof -
  obtain m0 m1 m2 m3 m4 m5 where m: "lladdr iface = [m0, m1, m2, m3, m4, m5]"
    using list6 [OF assms(2)] by blast
  from nd_iface_send_ns_frame [OF assms] show ?thesis
    by (auto simp: peek_def m assms(1))
qed

section \<open>Neighbor Solicitations sent\<close>

text \<open>
  C8. For every interface with link-layer address \<open>m0:m1:m2:m3:m4:m5\<close>, the IPv6 source
  address (bytes 22..37 of the frame) of a Neighbor Solicitation emitted by
  \<^verbatim>\<open>nd_iface_send_ns\<close> is the modified EUI-64 link-local address: bytes 0-1 are \<^verbatim>\<open>fe80\<close>,
  bytes 2-7 are zero, and bytes 8-15 are the MAC with \<^verbatim>\<open>ff:fe\<close> inserted in the middle and
  the universal/local bit of its first byte flipped.
\<close>

theorem nd_iface_send_ns_source_is_eui64_link_local:
  assumes "length tgt = 16" and "length (lladdr iface) = 6"
  shows "\<exists>frame. nd_iface_send_ns iface tgt = Some frame
           \<and> peek frame 22 16 =
               Some [0xfe, 0x80, 0, 0, 0, 0, 0, 0,
                     lladdr iface ! 0 XOR 0x02, lladdr iface ! 1, lladdr iface ! 2, 0xff,
                     0xfe, lladdr iface ! 3, lladdr iface ! 4, lladdr iface ! 5]"
proof -
  obtain m0 m1 m2 m3 m4 m5 where m: "lladdr iface = [m0, m1, m2, m3, m4, m5]"
    using list6 [OF assms(2)] by blast
  from nd_iface_send_ns_frame [OF assms] show ?thesis
    by (auto simp: peek_def m assms(1))
qed


theorem nd_iface_send_ns_source_is_eui64_link_local_witness:
  "length ([0x20, 0x01, 0x0d, 0xb8, 0, 0, 0, 0, 0, 0, 0, 0, 0, 0, 0, 0x01] :: byte list) = 16
   \<and> length (lladdr \<lparr>index = 2, lladdr = [0x02, 0x11, 0x22, 0x33, 0x44, 0x55], refcount = 1,
         old_allmulti = - 1, old_promisc = - 1, proxy = (None :: nat option), sessions = []\<rparr>) = 6
   \<and> (\<exists>frame. nd_iface_send_ns \<lparr>index = 2, lladdr = [0x02, 0x11, 0x22, 0x33, 0x44, 0x55], refcount = 1,
         old_allmulti = - 1, old_promisc = - 1, proxy = (None :: nat option), sessions = []\<rparr> [0x20, 0x01, 0x0d, 0xb8, 0, 0, 0, 0, 0, 0, 0, 0, 0, 0, 0, 0x01] = Some frame
          \<and> peek frame 22 16 =
              Some [0xfe, 0x80, 0, 0, 0, 0, 0, 0, 0x00, 0x11, 0x22, 0xff, 0xfe, 0x33, 0x44, 0x55])"
  using nd_iface_send_ns_source_is_eui64_link_local
    [of "[0x20, 0x01, 0x0d, 0xb8, 0, 0, 0, 0, 0, 0, 0, 0, 0, 0, 0, 0x01]" "\<lparr>index = 2, lladdr = [0x02, 0x11, 0x22, 0x33, 0x44, 0x55], refcount = 1,
         old_allmulti = - 1, old_promisc = - 1, proxy = (None :: nat option), sessions = []\<rparr>"]
  by simp

text \<open>
  C2. The Neighbor Solicitation for the target \<^verbatim>\<open>2001:db8::1\<close> has the IPv6 destination
  \<^verbatim>\<open>ff02::1:ff00:1\<close>, built from the low 24 bits of the target, but the Ethernet
  destination \<^verbatim>\<open>33:33:00:00:00:01\<close>: \<^verbatim>\<open>ll_mcast[2..5]\<close> is a copy of the low 32 bits of the
  target (\<^verbatim>\<open>s6_addr32[3]\<close>), so its third byte is byte 12 of the target and not \<^verbatim>\<open>ff\<close>.
\<close>

theorem nd_iface_send_ns_ether_dst_takes_low_32_bits:
  "\<exists>frame. nd_iface_send_ns \<lparr>index = 2, lladdr = [0x02, 0x11, 0x22, 0x33, 0x44, 0x55], refcount = 1,
         old_allmulti = - 1, old_promisc = - 1, proxy = (None :: nat option), sessions = []\<rparr> [0x20, 0x01, 0x0d, 0xb8, 0, 0, 0, 0, 0, 0, 0, 0, 0, 0, 0, 0x01] = Some frame
     \<and> peek frame 38 16 = Some [0xff, 0x02, 0, 0, 0, 0, 0, 0, 0, 0, 0, 0x01, 0xff, 0, 0, 0x01]
     \<and> peek frame 0 6 = Some [0x33, 0x33, 0x00, 0, 0, 0x01]"
  using nd_iface_send_ns_destinations [of "[0x20, 0x01, 0x0d, 0xb8, 0, 0, 0, 0, 0, 0, 0, 0, 0, 0, 0, 0x01]" "\<lparr>index = 2, lladdr = [0x02, 0x11, 0x22, 0x33, 0x44, 0x55], refcount = 1,
         old_allmulti = - 1, old_promisc = - 1, proxy = (None :: nat option), sessions = []\<rparr>"]
  by simp

section \<open>Neighbor Advertisements sent\<close>

lemma nd_iface_send_na_flags_byte:
  assumes "length tgt = 16" and "length dst = 16"
    and "length (lladdr iface) = 6" and "length dst_ll = 6"
  shows "\<exists>frame. nd_iface_send_na iface dst dst_ll tgt router = Some frame
           \<and> peek frame 58 4 =
               Some [(if nd_addr_is_multicast dst then ND_NA_FLAG_SOLICITED else 0)
                       OR (if router then ND_NA_FLAG_ROUTER else 0), 0, 0, 0]"
proof -
  obtain m0 m1 m2 m3 m4 m5 where m: "lladdr iface = [m0, m1, m2, m3, m4, m5]"
    using list6 [OF assms(3)] by blast
  obtain h0 h1 h2 h3 h4 h5 where h: "dst_ll = [h0, h1, h2, h3, h4, h5]"
    using list6 [OF assms(4)] by blast
  from nd_iface_send_na_frame [OF assms, of router] show ?thesis
    by (auto simp: peek_def m h assms(1,2))
qed

text \<open>
  C1, as the code has it. For every Neighbor Advertisement emitted by \<^verbatim>\<open>nd_iface_send_na\<close>,
  the R (router, \<^verbatim>\<open>0x80\<close>) bit of \<^verbatim>\<open>nd_na_flags_reserved\<close> (byte 58 of the frame) is set iff
  the \<^verbatim>\<open>router\<close> argument is true; the O (override, \<^verbatim>\<open>0x20\<close>) bit is never set, no bit other
  than R and S is set, and the three reserved bytes are zero.
\<close>

theorem nd_iface_send_na_flags:
  assumes "length tgt = 16" and "length dst = 16"
    and "length (lladdr iface) = 6" and "length dst_ll = 6"
  shows "\<exists>frame. nd_iface_send_na iface dst dst_ll tgt router = Some frame
           \<and> (frame ! 58 AND ND_NA_FLAG_ROUTER \<noteq> 0) = router
           \<and> frame ! 58 AND ND_NA_FLAG_OVERRIDE = 0
           \<and> frame ! 58 AND NOT (ND_NA_FLAG_ROUTER OR ND_NA_FLAG_SOLICITED) = 0
           \<and> peek frame 59 3 = Some [0, 0, 0]"
proof -
  obtain frame where f: "nd_iface_send_na iface dst dst_ll tgt router = Some frame"
    and fl: "peek frame 58 4 =
               Some [(if nd_addr_is_multicast dst then ND_NA_FLAG_SOLICITED else 0)
                       OR (if router then ND_NA_FLAG_ROUTER else 0), 0, 0, 0]"
    using nd_iface_send_na_flags_byte [OF assms] by blast
  from fl have len: "62 \<le> length frame"
    and bytes: "take 4 (drop 58 frame) =
               [(if nd_addr_is_multicast dst then ND_NA_FLAG_SOLICITED else 0)
                       OR (if router then ND_NA_FLAG_ROUTER else 0), 0, 0, 0]"
    by (simp_all add: peek_def split: if_splits)
  from len have "take 4 (drop 58 frame) = [frame ! 58, frame ! 59, frame ! 60, frame ! 61]"
    by (intro nth_equalityI) (auto simp: less_Suc_eq numeral_eq_Suc)
  with bytes have b: "frame ! 58 = (if nd_addr_is_multicast dst then ND_NA_FLAG_SOLICITED else 0)
                       OR (if router then ND_NA_FLAG_ROUTER else 0)"
    "frame ! 59 = 0" "frame ! 60 = 0" "frame ! 61 = 0"
    by simp_all
  from len have "take 3 (drop 59 frame) = [frame ! 59, frame ! 60, frame ! 61]"
    by (intro nth_equalityI) (auto simp: less_Suc_eq numeral_eq_Suc)
  with b len have "peek frame 59 3 = Some [0, 0, 0]"
    by (simp add: peek_def)
  with f b(1) show ?thesis
    by auto
qed

theorem nd_iface_send_na_flags_witness:
  "length ([0x20, 0x01, 0x0d, 0xb8, 0, 0, 0, 0, 0, 0, 0, 0, 0, 0, 0, 0x01] :: byte list) = 16 \<and> length ([0xff, 0x02, 0, 0, 0, 0, 0, 0, 0, 0, 0, 0, 0, 0, 0, 0x01] :: byte list) = 16
   \<and> length (lladdr \<lparr>index = 2, lladdr = [0x02, 0x11, 0x22, 0x33, 0x44, 0x55], refcount = 1,
         old_allmulti = - 1, old_promisc = - 1, proxy = (None :: nat option), sessions = []\<rparr>) = 6
   \<and> length ([0xaa, 0xbb, 0xcc, 0xdd, 0xee, 0x01] :: byte list) = 6
   \<and> (\<exists>frame. nd_iface_send_na \<lparr>index = 2, lladdr = [0x02, 0x11, 0x22, 0x33, 0x44, 0x55], refcount = 1,
         old_allmulti = - 1, old_promisc = - 1, proxy = (None :: nat option), sessions = []\<rparr> [0xff, 0x02, 0, 0, 0, 0, 0, 0, 0, 0, 0, 0, 0, 0, 0, 0x01] [0xaa, 0xbb, 0xcc, 0xdd, 0xee, 0x01] [0x20, 0x01, 0x0d, 0xb8, 0, 0, 0, 0, 0, 0, 0, 0, 0, 0, 0, 0x01] True = Some frame
          \<and> frame ! 58 AND ND_NA_FLAG_ROUTER \<noteq> 0
          \<and> frame ! 58 AND ND_NA_FLAG_OVERRIDE = 0
          \<and> frame ! 58 AND NOT (ND_NA_FLAG_ROUTER OR ND_NA_FLAG_SOLICITED) = 0
          \<and> peek frame 59 3 = Some [0, 0, 0])"
  using nd_iface_send_na_flags
    [of "[0x20, 0x01, 0x0d, 0xb8, 0, 0, 0, 0, 0, 0, 0, 0, 0, 0, 0, 0x01]" "[0xff, 0x02, 0, 0, 0, 0, 0, 0, 0, 0, 0, 0, 0, 0, 0, 0x01]" "\<lparr>index = 2, lladdr = [0x02, 0x11, 0x22, 0x33, 0x44, 0x55], refcount = 1,
         old_allmulti = - 1, old_promisc = - 1, proxy = (None :: nat option), sessions = []\<rparr>" "[0xaa, 0xbb, 0xcc, 0xdd, 0xee, 0x01]" True]
  by simp

text \<open>
  C1 as stated fails: the reply to the solicitor \<^verbatim>\<open>2001:db8::2\<close> for the target
  \<^verbatim>\<open>2001:db8::1\<close> is unicast, and its flag byte has neither the O bit nor the S bit.
\<close>

theorem nd_iface_send_na_unicast_reply_has_no_flag:
  "\<not> nd_addr_is_multicast [0x20, 0x01, 0x0d, 0xb8, 0, 0, 0, 0, 0, 0, 0, 0, 0, 0, 0, 0x02]
   \<and> nd_iface_send_na \<lparr>index = 2, lladdr = [0x02, 0x11, 0x22, 0x33, 0x44, 0x55], refcount = 1,
         old_allmulti = - 1, old_promisc = - 1, proxy = (None :: nat option), sessions = []\<rparr> [0x20, 0x01, 0x0d, 0xb8, 0, 0, 0, 0, 0, 0, 0, 0, 0, 0, 0, 0x02] [0xaa, 0xbb, 0xcc, 0xdd, 0xee, 0x01] [0x20, 0x01, 0x0d, 0xb8, 0, 0, 0, 0, 0, 0, 0, 0, 0, 0, 0, 0x01] False \<noteq> None
   \<and> the (nd_iface_send_na \<lparr>index = 2, lladdr = [0x02, 0x11, 0x22, 0x33, 0x44, 0x55], refcount = 1,
         old_allmulti = - 1, old_promisc = - 1, proxy = (None :: nat option), sessions = []\<rparr> [0x20, 0x01, 0x0d, 0xb8, 0, 0, 0, 0, 0, 0, 0, 0, 0, 0, 0, 0x02] [0xaa, 0xbb, 0xcc, 0xdd, 0xee, 0x01] [0x20, 0x01, 0x0d, 0xb8, 0, 0, 0, 0, 0, 0, 0, 0, 0, 0, 0, 0x01] False) ! 58 AND ND_NA_FLAG_OVERRIDE = 0
   \<and> the (nd_iface_send_na \<lparr>index = 2, lladdr = [0x02, 0x11, 0x22, 0x33, 0x44, 0x55], refcount = 1,
         old_allmulti = - 1, old_promisc = - 1, proxy = (None :: nat option), sessions = []\<rparr> [0x20, 0x01, 0x0d, 0xb8, 0, 0, 0, 0, 0, 0, 0, 0, 0, 0, 0, 0x02] [0xaa, 0xbb, 0xcc, 0xdd, 0xee, 0x01] [0x20, 0x01, 0x0d, 0xb8, 0, 0, 0, 0, 0, 0, 0, 0, 0, 0, 0, 0x01] False) ! 58 AND ND_NA_FLAG_SOLICITED = 0"
  by code_simp

section \<open>Every frame sent\<close>

lemma ndL_send_icmp6_fields:
  assumes len: "length msg = sz" and lo: "62 \<le> sz" and hi: "sz < 65590"
    and ll: "length (lladdr iface) = 6" and hw: "length hwaddr = 6"
  shows "\<exists>frame c0 c1.
           ndL_send_icmp6 iface msg sz hwaddr = Some frame
         \<and> length frame = sz
         \<and> peek frame 0 6 = Some hwaddr
         \<and> peek frame 6 6 = Some (lladdr iface)
         \<and> peek frame 12 2 = Some [0x86, 0xdd]
         \<and> peek frame 14 4 = Some [0x60, 0, 0, 0]
         \<and> peek frame 18 2 = Some (htons (of_nat (sz - 54)))
         \<and> frame ! 20 = 58
         \<and> frame ! 21 = 255
         \<and> frame ! 54 = msg ! 54
         \<and> peek frame 56 2 = Some [c0, c1]
         \<and> ndL_calculate_icmp6_checksum frame 14 54 (sz - 54) = Some [c0, c1]"
proof -
  obtain m0 m1 m2 m3 m4 m5 where m: "lladdr iface = [m0, m1, m2, m3, m4, m5]"
    using list6 [OF ll] by blast
  obtain h0 h1 h2 h3 h4 h5 where h: "hwaddr = [h0, h1, h2, h3, h4, h5]"
    using list6 [OF hw] by blast
  define mid where "mid = take 34 (drop 22 msg)"
  have mid_len: "length mid = 34"
    using len lo by (simp add: mid_def)
  have mid32: "mid ! 32 = msg ! 54"
    using len lo by (simp add: mid_def)
  obtain p0 p1 where p: "htons (word_of_nat (sz - 54)) = [p0, p1]"
    by (simp add: htons_def)
  define frame where
    "frame c0 c1 = hwaddr @ lladdr iface @ [0x86, 0xdd, 0x60, 0, 0, 0] @ htons (of_nat (sz - 54))
               @ [58, 255] @ mid @ [c0, c1] @ drop 58 msg" for c0 c1
  obtain c0 c1 where snd: "ndL_send_icmp6 iface msg sz hwaddr = Some (frame c0 c1)"
    and ck: "ndL_calculate_icmp6_checksum (frame c0 c1) 14 54 (sz - 54) = Some [c0, c1]"
    using ndL_send_icmp6_frame [OF len lo hi ll hw] unfolding frame_def mid_def by blast
  have fr: "frame c0 c1 = [h0, h1, h2, h3, h4, h5, m0, m1, m2, m3, m4, m5, 0x86, 0xdd, 0x60, 0, 0, 0,
                     p0, p1, 58, 255] @ mid @ [c0, c1] @ drop 58 msg"
    by (simp add: frame_def m h p)
  have "length (frame c0 c1) = sz"
    using len lo by (simp add: fr mid_len)
  moreover have "peek (frame c0 c1) 0 6 = Some hwaddr" "peek (frame c0 c1) 6 6 = Some (lladdr iface)"
    "peek (frame c0 c1) 12 2 = Some [0x86, 0xdd]" "peek (frame c0 c1) 14 4 = Some [0x60, 0, 0, 0]"
    "peek (frame c0 c1) 18 2 = Some (htons (of_nat (sz - 54)))"
    by (simp_all add: fr peek_def m h p)
  moreover have "frame c0 c1 ! 20 = 58" "frame c0 c1 ! 21 = 255"
    by (simp_all add: fr)
  moreover have "frame c0 c1 ! 54 = msg ! 54"
    by (simp add: fr nth_append mid_len mid32)
  moreover have "peek (frame c0 c1) 56 2 = Some [c0, c1]"
    by (simp add: fr peek_def mid_len)
  ultimately show ?thesis
    using snd ck by blast
qed


lemma peek_nth:
  "peek mem off n = Some xs \<Longrightarrow> k < n \<Longrightarrow> mem ! (off + k) = xs ! k"
  by (auto simp: peek_def split: if_splits)

lemma unat_plen:
  assumes "54 \<le> sz" "sz < 65590"
  shows "unat (word_of_nat (sz - 54) :: 16 word) = sz - 54"
proof -
  have "unat (word_of_nat (sz - 54) :: 16 word) = (sz - 54) mod 2 ^ LENGTH(16)"
    by (rule unat_of_nat)
  also have "\<dots> = sz - 54"
    using assms by simp
  finally show ?thesis .
qed

text \<open>
  C7. Every frame passed through \<^verbatim>\<open>ndL_send_icmp6\<close> (a message of at least the two headers
  and an ICMPv6 header, short enough for the 16 bits of \<^verbatim>\<open>ip6_plen\<close>) is sent with
  \<^verbatim>\<open>ip6_flow\<close> encoding version 6, traffic class 0 and flow label 0 (bytes \<^verbatim>\<open>60 00 00 00\<close>),
  \<^verbatim>\<open>ip6_plen\<close> equal to the frame length minus the Ethernet and IPv6 header sizes,
  \<^verbatim>\<open>ip6_nxt\<close> equal to ICMPv6, \<^verbatim>\<open>ip6_hops\<close> equal to 255, and the ICMPv6 checksum field
  holding the checksum of the frame, whatever the caller placed in those fields.
\<close>

theorem ndL_send_icmp6_fills_headers:
  assumes "length msg = sz" and "62 \<le> sz" and "sz < 65590"
    and "length (lladdr iface) = 6" and "length hwaddr = 6"
  shows "\<exists>frame. ndL_send_icmp6 iface msg sz hwaddr = Some frame
           \<and> length frame = sz
           \<and> peek frame 14 4 = Some [0x60, 0, 0, 0]
           \<and> unat (ntohs (frame ! 18) (frame ! 19)) = sz - sizeof_ndL_ip6_msg_t
           \<and> frame ! 20 = IPPROTO_ICMPV6
           \<and> frame ! 21 = 255
           \<and> peek frame 56 2 \<noteq> None
           \<and> peek frame 56 2 =
               ndL_calculate_icmp6_checksum frame sizeof_ether_header sizeof_ndL_ip6_msg_t
                 (sz - sizeof_ndL_ip6_msg_t)"
proof -
  obtain frame c0 c1 where f: "ndL_send_icmp6 iface msg sz hwaddr = Some frame"
    "length frame = sz" "peek frame 14 4 = Some [0x60, 0, 0, 0]"
    "peek frame 18 2 = Some (htons (of_nat (sz - 54)))"
    "frame ! 20 = 58" "frame ! 21 = 255" "peek frame 56 2 = Some [c0, c1]"
    "ndL_calculate_icmp6_checksum frame 14 54 (sz - 54) = Some [c0, c1]"
    using ndL_send_icmp6_fields [OF assms] by blast
  have "frame ! 18 = htons (of_nat (sz - 54)) ! 0"
    "frame ! 19 = htons (of_nat (sz - 54)) ! Suc 0"
    using peek_nth [OF f(4), of 0] peek_nth [OF f(4), of 1] by simp_all
  then have "ntohs (frame ! 18) (frame ! 19) = of_nat (sz - 54)"
    by (simp only: ntohs_htons)
  then have "unat (ntohs (frame ! 18) (frame ! 19)) = sz - 54"
    using assms(2,3) by (simp only: unat_plen)
  with f show ?thesis
    by simp
qed

theorem ndL_send_icmp6_fills_headers_witness:
  "length (lladdr \<lparr>index = 2, lladdr = [0x02, 0x11, 0x22, 0x33, 0x44, 0x55], refcount = 1,
         old_allmulti = - 1, old_promisc = - 1, proxy = (None :: nat option), sessions = []\<rparr>) = 6
   \<and> length ([0xaa, 0xbb, 0xcc, 0xdd, 0xee, 0x01] :: byte list) = 6
   \<and> (\<exists>frame. ndL_send_icmp6 \<lparr>index = 2, lladdr = [0x02, 0x11, 0x22, 0x33, 0x44, 0x55], refcount = 1,
         old_allmulti = - 1, old_promisc = - 1, proxy = (None :: nat option), sessions = []\<rparr> (replicate 62 0xaa) 62 [0xaa, 0xbb, 0xcc, 0xdd, 0xee, 0x01] = Some frame
          \<and> length frame = 62
          \<and> peek frame 14 4 = Some [0x60, 0, 0, 0]
          \<and> unat (ntohs (frame ! 18) (frame ! 19)) = 8
          \<and> frame ! 20 = IPPROTO_ICMPV6
          \<and> frame ! 21 = 255
          \<and> peek frame 56 2 \<noteq> None
          \<and> peek frame 56 2 = ndL_calculate_icmp6_checksum frame 14 54 8)"
  using ndL_send_icmp6_fills_headers
    [of "replicate 62 0xaa" 62 "\<lparr>index = 2, lladdr = [0x02, 0x11, 0x22, 0x33, 0x44, 0x55], refcount = 1,
         old_allmulti = - 1, old_promisc = - 1, proxy = (None :: nat option), sessions = []\<rparr>" "[0xaa, 0xbb, 0xcc, 0xdd, 0xee, 0x01]"]
  by simp

lemma ndL_send_icmp6_loopback:
  assumes "length msg = sz" and "62 \<le> sz" and "sz < 65590"
    and "length (lladdr iface) = 6" and "length hwaddr = 6"
  shows "\<exists>frame. ndL_send_icmp6 iface msg sz hwaddr = Some frame
           \<and> frame ! 54 = msg ! 54
           \<and> peek frame 56 2 \<noteq> None
           \<and> ndL_calculate_icmp6_checksum frame sizeof_ether_header sizeof_ndL_ip6_msg_t
                 (sz - sizeof_ndL_ip6_msg_t) = peek frame 56 2
           \<and> ndL_handle_msg rcv frame =
               (if frame ! 54 = ND_NEIGHBOR_SOLICIT
                  then ndL_handle_ns rcv frame sizeof_ether_header sizeof_ndL_ip6_msg_t
                         (sz - sizeof_ndL_ip6_msg_t)
                else if frame ! 54 = ND_NEIGHBOR_ADVERT
                  then ndL_handle_na rcv frame sizeof_ndL_ip6_msg_t (sz - sizeof_ndL_ip6_msg_t)
                else Some Return)"
proof -
  obtain frame c0 c1 where f: "ndL_send_icmp6 iface msg sz hwaddr = Some frame"
    and len: "length frame = sz"
    and plen: "peek frame 18 2 = Some (htons (of_nat (sz - 54)))"
    and nxt: "frame ! 20 = 58"
    and ty: "frame ! 54 = msg ! 54"
    and stored: "peek frame 56 2 = Some [c0, c1]"
    and ck: "ndL_calculate_icmp6_checksum frame 14 54 (sz - 54) = Some [c0, c1]"
    using ndL_send_icmp6_fields [OF assms] by blast
  have ge: "\<not> sz - 54 < 8"
    using assms(2) by arith
  have nxt8: "peek8 frame 20 = Some 58"
    using len assms(2) nxt by (simp add: peek8_def)
  have ty8: "peek8 frame 54 = Some (frame ! 54)"
    using len assms(2) by (simp add: peek8_def)
  have pl: "unat (ntohs (htons (of_nat (sz - 54)) ! 0) (htons (of_nat (sz - 54)) ! Suc 0)) = sz - 54"
    using assms(2,3) by (simp only: ntohs_htons unat_plen)
  have "ndL_handle_msg rcv frame =
               (if frame ! 54 = ND_NEIGHBOR_SOLICIT
                  then ndL_handle_ns rcv frame sizeof_ether_header sizeof_ndL_ip6_msg_t
                         (sz - sizeof_ndL_ip6_msg_t)
                else if frame ! 54 = ND_NEIGHBOR_ADVERT
                  then ndL_handle_na rcv frame sizeof_ndL_ip6_msg_t (sz - sizeof_ndL_ip6_msg_t)
                else Some Return)"
    using ge by (simp add: ndL_handle_msg_def Let_def plen nxt8 pl ck stored ty8 del: of_nat_diff)
  with f stored ck ty show ?thesis
    by simp
qed

lemma nd_iface_send_ns_loopback:
  assumes tgt: "length tgt = 16" and ll: "length (lladdr iface) = 6"
  shows "\<exists>frame. nd_iface_send_ns iface tgt = Some frame
           \<and> peek frame 56 2 \<noteq> None
           \<and> ndL_calculate_icmp6_checksum frame sizeof_ether_header sizeof_ndL_ip6_msg_t 32
               = peek frame 56 2
           \<and> ndL_handle_msg rcv frame
               = ndL_handle_ns rcv frame sizeof_ether_header sizeof_ndL_ip6_msg_t 32"
proof -
  obtain t0 t1 t2 t3 t4 t5 t6 t7 t8 t9 t10 t11 t12 t13 t14 t15
    where t: "tgt = [t0, t1, t2, t3, t4, t5, t6, t7, t8, t9, t10, t11, t12, t13, t14, t15]"
    using list16 [OF tgt] by blast
  obtain m0 m1 m2 m3 m4 m5 where m: "lladdr iface = [m0, m1, m2, m3, m4, m5]"
    using list6 [OF ll] by blast
  define msg where "msg = [0, 0, 0, 0, 0, 0, 0, 0, 0, 0, 0, 0, 0, 0, 0, 0, 0, 0, 0, 0, 0, 0,
            0xfe, 0x80, 0, 0, 0, 0, 0, 0, m0 XOR 2, m1, m2, 0xff, 0xfe, m3, m4, m5,
            0xff, 2, 0, 0, 0, 0, 0, 0, 0, 0, 0, 1, 0xff, t13, t14, t15,
            135, 0, 0, 0, 0, 0, 0, 0] @ tgt @ [1, 1, m0, m1, m2, m3, m4, m5]"
  have len: "length msg = 86" and ty: "msg ! 54 = 135"
    by (simp_all add: msg_def t)
  have snd: "nd_iface_send_ns iface tgt = ndL_send_icmp6 iface msg 86 [0x33, 0x33, t12, t13, t14, t15]"
    unfolding msg_def by (rule ns_msg [OF t m])
  from ndL_send_icmp6_loopback [OF len _ _ ll, of "[0x33, 0x33, t12, t13, t14, t15]" rcv] ty
  show ?thesis
    unfolding snd by auto
qed

lemma nd_iface_send_na_loopback:
  assumes tgt: "length tgt = 16" and dst: "length dst = 16"
    and ll: "length (lladdr iface) = 6" and dl: "length dst_ll = 6"
  shows "\<exists>frame. nd_iface_send_na iface dst dst_ll tgt router = Some frame
           \<and> peek frame 56 2 \<noteq> None
           \<and> ndL_calculate_icmp6_checksum frame sizeof_ether_header sizeof_ndL_ip6_msg_t 32
               = peek frame 56 2
           \<and> ndL_handle_msg rcv frame = ndL_handle_na rcv frame sizeof_ndL_ip6_msg_t 32"
proof -
  obtain t0 t1 t2 t3 t4 t5 t6 t7 t8 t9 t10 t11 t12 t13 t14 t15
    where t: "tgt = [t0, t1, t2, t3, t4, t5, t6, t7, t8, t9, t10, t11, t12, t13, t14, t15]"
    using list16 [OF tgt] by blast
  obtain d0 d1 d2 d3 d4 d5 d6 d7 d8 d9 d10 d11 d12 d13 d14 d15
    where d: "dst = [d0, d1, d2, d3, d4, d5, d6, d7, d8, d9, d10, d11, d12, d13, d14, d15]"
    using list16 [OF dst] by blast
  obtain m0 m1 m2 m3 m4 m5 where m: "lladdr iface = [m0, m1, m2, m3, m4, m5]"
    using list6 [OF ll] by blast
  define msg where "msg = [0, 0, 0, 0, 0, 0, 0, 0, 0, 0, 0, 0, 0, 0, 0, 0, 0, 0, 0, 0, 0, 0] @ tgt @ dst
           @ [136, 0, 0, 0,
              (if d0 = 0xff then 0x40 else 0) OR (if router then 0x80 else 0), 0, 0, 0]
           @ tgt @ [2, 1, m0, m1, m2, m3, m4, m5]"
  have len: "length msg = 86" and ty: "msg ! 54 = 136"
    by (simp_all add: msg_def t d)
  have snd: "nd_iface_send_na iface dst dst_ll tgt router = ndL_send_icmp6 iface msg 86 dst_ll"
    unfolding msg_def by (rule na_msg [OF t d m])
  from ndL_send_icmp6_loopback [OF len _ _ ll dl, of rcv] ty
  show ?thesis
    unfolding snd by auto
qed

text \<open>
  C4. For every frame emitted via \<^verbatim>\<open>ndL_send_icmp6\<close> (a message of at least the two headers
  and an ICMPv6 header, short enough for the 16 bits of \<^verbatim>\<open>ip6_plen\<close>), hence for every
  Neighbor Solicitation from \<^verbatim>\<open>nd_iface_send_ns\<close> and every Neighbor Advertisement from
  \<^verbatim>\<open>nd_iface_send_na\<close>, the ICMPv6 checksum stored in the frame equals the checksum that
  the receive side recomputes over the pseudo-header, and the frame fed back through
  \<^verbatim>\<open>ndL_handle_msg\<close> (on any interface) passes the checksum comparison: it reaches the
  dispatch on the ICMPv6 type, and so the NS or the NA handler.
\<close>

theorem emitted_frames_pass_receive_checksum:
  "(length msg = sz \<and> 62 \<le> sz \<and> sz < 65590 \<and> length (lladdr iface) = 6 \<and> length hwaddr = 6
      \<longrightarrow> (\<exists>frame. ndL_send_icmp6 iface msg sz hwaddr = Some frame
             \<and> frame ! 54 = msg ! 54
             \<and> peek frame 56 2 \<noteq> None
             \<and> ndL_calculate_icmp6_checksum frame sizeof_ether_header sizeof_ndL_ip6_msg_t
                   (sz - sizeof_ndL_ip6_msg_t) = peek frame 56 2
             \<and> ndL_handle_msg rcv frame =
                 (if frame ! 54 = ND_NEIGHBOR_SOLICIT
                    then ndL_handle_ns rcv frame sizeof_ether_header sizeof_ndL_ip6_msg_t
                           (sz - sizeof_ndL_ip6_msg_t)
                  else if frame ! 54 = ND_NEIGHBOR_ADVERT
                    then ndL_handle_na rcv frame sizeof_ndL_ip6_msg_t (sz - sizeof_ndL_ip6_msg_t)
                  else Some Return)))
   \<and> (length tgt = 16 \<and> length (lladdr iface) = 6
      \<longrightarrow> (\<exists>frame. nd_iface_send_ns iface tgt = Some frame
             \<and> peek frame 56 2 \<noteq> None
             \<and> ndL_calculate_icmp6_checksum frame sizeof_ether_header sizeof_ndL_ip6_msg_t 32
                 = peek frame 56 2
             \<and> ndL_handle_msg rcv frame
                 = ndL_handle_ns rcv frame sizeof_ether_header sizeof_ndL_ip6_msg_t 32))
   \<and> (length tgt = 16 \<and> length dst = 16 \<and> length (lladdr iface) = 6 \<and> length dst_ll = 6
      \<longrightarrow> (\<exists>frame. nd_iface_send_na iface dst dst_ll tgt router = Some frame
             \<and> peek frame 56 2 \<noteq> None
             \<and> ndL_calculate_icmp6_checksum frame sizeof_ether_header sizeof_ndL_ip6_msg_t 32
                 = peek frame 56 2
             \<and> ndL_handle_msg rcv frame = ndL_handle_na rcv frame sizeof_ndL_ip6_msg_t 32))"
  using ndL_send_icmp6_loopback [of msg sz iface hwaddr rcv]
    nd_iface_send_ns_loopback [of tgt iface rcv]
    nd_iface_send_na_loopback [of tgt dst iface dst_ll router rcv]
  by (intro conjI impI) blast+

theorem emitted_frames_pass_receive_checksum_witness:
  "(\<exists>frame. ndL_send_icmp6 \<lparr>index = 2, lladdr = [0x02, 0x11, 0x22, 0x33, 0x44, 0x55], refcount = 1,
         old_allmulti = - 1, old_promisc = - 1, proxy = (None :: nat option), sessions = []\<rparr> (replicate 54 0 @ [136] @ replicate 23 0) 78 [0xaa, 0xbb, 0xcc, 0xdd, 0xee, 0x01] = Some frame
      \<and> peek frame 56 2 \<noteq> None
      \<and> ndL_calculate_icmp6_checksum frame 14 54 24 = peek frame 56 2
      \<and> ndL_handle_msg \<lparr>index = 2, lladdr = [0x02, 0x11, 0x22, 0x33, 0x44, 0x55], refcount = 1,
         old_allmulti = - 1, old_promisc = - 1, proxy = (None :: nat option), sessions = []\<rparr> frame = ndL_handle_na \<lparr>index = 2, lladdr = [0x02, 0x11, 0x22, 0x33, 0x44, 0x55], refcount = 1,
         old_allmulti = - 1, old_promisc = - 1, proxy = (None :: nat option), sessions = []\<rparr> frame 54 24)
   \<and> (\<exists>frame. nd_iface_send_ns \<lparr>index = 2, lladdr = [0x02, 0x11, 0x22, 0x33, 0x44, 0x55], refcount = 1,
         old_allmulti = - 1, old_promisc = - 1, proxy = (None :: nat option), sessions = []\<rparr> [0x20, 0x01, 0x0d, 0xb8, 0, 0, 0, 0, 0, 0, 0, 0, 0, 0, 0, 0x01] = Some frame
      \<and> peek frame 56 2 \<noteq> None
      \<and> ndL_calculate_icmp6_checksum frame 14 54 32 = peek frame 56 2
      \<and> ndL_handle_msg \<lparr>index = 2, lladdr = [0x02, 0x11, 0x22, 0x33, 0x44, 0x55], refcount = 1,
         old_allmulti = - 1, old_promisc = - 1, proxy = (None :: nat option), sessions = []\<rparr> frame = ndL_handle_ns \<lparr>index = 2, lladdr = [0x02, 0x11, 0x22, 0x33, 0x44, 0x55], refcount = 1,
         old_allmulti = - 1, old_promisc = - 1, proxy = (None :: nat option), sessions = []\<rparr> frame 14 54 32)
   \<and> (\<exists>frame. nd_iface_send_na \<lparr>index = 2, lladdr = [0x02, 0x11, 0x22, 0x33, 0x44, 0x55], refcount = 1,
         old_allmulti = - 1, old_promisc = - 1, proxy = (None :: nat option), sessions = []\<rparr> [0x20, 0x01, 0x0d, 0xb8, 0, 0, 0, 0, 0, 0, 0, 0, 0, 0, 0, 0x02] [0xaa, 0xbb, 0xcc, 0xdd, 0xee, 0x01] [0x20, 0x01, 0x0d, 0xb8, 0, 0, 0, 0, 0, 0, 0, 0, 0, 0, 0, 0x01] False = Some frame
      \<and> peek frame 56 2 \<noteq> None
      \<and> ndL_calculate_icmp6_checksum frame 14 54 32 = peek frame 56 2
      \<and> ndL_handle_msg \<lparr>index = 2, lladdr = [0x02, 0x11, 0x22, 0x33, 0x44, 0x55], refcount = 1,
         old_allmulti = - 1, old_promisc = - 1, proxy = (None :: nat option), sessions = []\<rparr> frame = ndL_handle_na \<lparr>index = 2, lladdr = [0x02, 0x11, 0x22, 0x33, 0x44, 0x55], refcount = 1,
         old_allmulti = - 1, old_promisc = - 1, proxy = (None :: nat option), sessions = []\<rparr> frame 54 32)"
proof -
  note inst = emitted_frames_pass_receive_checksum
    [of "replicate 54 0 @ [136] @ replicate 23 0" 78 "\<lparr>index = 2, lladdr = [0x02, 0x11, 0x22, 0x33, 0x44, 0x55], refcount = 1,
         old_allmulti = - 1, old_promisc = - 1, proxy = (None :: nat option), sessions = []\<rparr>" "[0xaa, 0xbb, 0xcc, 0xdd, 0xee, 0x01]" "\<lparr>index = 2, lladdr = [0x02, 0x11, 0x22, 0x33, 0x44, 0x55], refcount = 1,
         old_allmulti = - 1, old_promisc = - 1, proxy = (None :: nat option), sessions = []\<rparr>" "[0x20, 0x01, 0x0d, 0xb8, 0, 0, 0, 0, 0, 0, 0, 0, 0, 0, 0, 0x01]" "[0x20, 0x01, 0x0d, 0xb8, 0, 0, 0, 0, 0, 0, 0, 0, 0, 0, 0, 0x02]" "[0xaa, 0xbb, 0xcc, 0xdd, 0xee, 0x01]" False]
  have general: "\<exists>frame. ndL_send_icmp6 \<lparr>index = 2, lladdr = [0x02, 0x11, 0x22, 0x33, 0x44, 0x55], refcount = 1,
         old_allmulti = - 1, old_promisc = - 1, proxy = (None :: nat option), sessions = []\<rparr> (replicate 54 0 @ [136] @ replicate 23 0) 78 [0xaa, 0xbb, 0xcc, 0xdd, 0xee, 0x01] = Some frame
      \<and> peek frame 56 2 \<noteq> None
      \<and> ndL_calculate_icmp6_checksum frame 14 54 24 = peek frame 56 2
      \<and> ndL_handle_msg \<lparr>index = 2, lladdr = [0x02, 0x11, 0x22, 0x33, 0x44, 0x55], refcount = 1,
         old_allmulti = - 1, old_promisc = - 1, proxy = (None :: nat option), sessions = []\<rparr> frame = ndL_handle_na \<lparr>index = 2, lladdr = [0x02, 0x11, 0x22, 0x33, 0x44, 0x55], refcount = 1,
         old_allmulti = - 1, old_promisc = - 1, proxy = (None :: nat option), sessions = []\<rparr> frame 54 24"
    using inst [THEN conjunct1] by (auto simp: nth_append)
  have ns: "\<exists>frame. nd_iface_send_ns \<lparr>index = 2, lladdr = [0x02, 0x11, 0x22, 0x33, 0x44, 0x55], refcount = 1,
         old_allmulti = - 1, old_promisc = - 1, proxy = (None :: nat option), sessions = []\<rparr> [0x20, 0x01, 0x0d, 0xb8, 0, 0, 0, 0, 0, 0, 0, 0, 0, 0, 0, 0x01] = Some frame
      \<and> peek frame 56 2 \<noteq> None
      \<and> ndL_calculate_icmp6_checksum frame 14 54 32 = peek frame 56 2
      \<and> ndL_handle_msg \<lparr>index = 2, lladdr = [0x02, 0x11, 0x22, 0x33, 0x44, 0x55], refcount = 1,
         old_allmulti = - 1, old_promisc = - 1, proxy = (None :: nat option), sessions = []\<rparr> frame = ndL_handle_ns \<lparr>index = 2, lladdr = [0x02, 0x11, 0x22, 0x33, 0x44, 0x55], refcount = 1,
         old_allmulti = - 1, old_promisc = - 1, proxy = (None :: nat option), sessions = []\<rparr> frame 14 54 32"
    using inst [THEN conjunct2, THEN conjunct1] by simp
  have na: "\<exists>frame. nd_iface_send_na \<lparr>index = 2, lladdr = [0x02, 0x11, 0x22, 0x33, 0x44, 0x55], refcount = 1,
         old_allmulti = - 1, old_promisc = - 1, proxy = (None :: nat option), sessions = []\<rparr> [0x20, 0x01, 0x0d, 0xb8, 0, 0, 0, 0, 0, 0, 0, 0, 0, 0, 0, 0x02] [0xaa, 0xbb, 0xcc, 0xdd, 0xee, 0x01] [0x20, 0x01, 0x0d, 0xb8, 0, 0, 0, 0, 0, 0, 0, 0, 0, 0, 0, 0x01] False = Some frame
      \<and> peek frame 56 2 \<noteq> None
      \<and> ndL_calculate_icmp6_checksum frame 14 54 32 = peek frame 56 2
      \<and> ndL_handle_msg \<lparr>index = 2, lladdr = [0x02, 0x11, 0x22, 0x33, 0x44, 0x55], refcount = 1,
         old_allmulti = - 1, old_promisc = - 1, proxy = (None :: nat option), sessions = []\<rparr> frame = ndL_handle_na \<lparr>index = 2, lladdr = [0x02, 0x11, 0x22, 0x33, 0x44, 0x55], refcount = 1,
         old_allmulti = - 1, old_promisc = - 1, proxy = (None :: nat option), sessions = []\<rparr> frame 54 32"
    using inst [THEN conjunct2, THEN conjunct2] by simp
  from general ns na show ?thesis
    by (intro conjI)
qed

section \<open>Frames received\<close>

lemma ndL_handle_na_no_proxy_call:
  "ndL_handle_na iface mem ih len \<noteq> Some (Call_nd_proxy_handle_ns pr src dst tgt src_ll)"
  by (auto simp: ndL_handle_na_def split: bind_splits option.splits if_splits)

text \<open>Where \<^verbatim>\<open>ndL_handle_msg\<close> looks for the ICMPv6 header.\<close>

lemma ndL_handle_msg_dispatch:
  assumes run: "ndL_handle_msg iface mem = Some act" and act: "act \<noteq> Return"
  obtains i where
    "mem ! 20 = IPPROTO_ICMPV6 \<and> i = 0
     \<or> mem ! 20 = IPPROTO_HOPOPTS
       \<and> ndL_handle_msg_hopopts mem (unat (ntohs (mem ! 18) (mem ! 19))) 0 = Hop_break i"
    "ndL_calculate_icmp6_checksum mem sizeof_ether_header
       (sizeof_ndL_ip6_msg_t + sizeof_icmp6_hdr * i) (unat (ntohs (mem ! 18) (mem ! 19)) - i)
     = peek mem (sizeof_ndL_ip6_msg_t + sizeof_icmp6_hdr * i + 2) 2"
    "peek mem (sizeof_ndL_ip6_msg_t + sizeof_icmp6_hdr * i + 2) 2 \<noteq> None"
    "mem ! (sizeof_ndL_ip6_msg_t + sizeof_icmp6_hdr * i) = ND_NEIGHBOR_SOLICIT
       \<and> ndL_handle_ns iface mem sizeof_ether_header (sizeof_ndL_ip6_msg_t + sizeof_icmp6_hdr * i)
            (unat (ntohs (mem ! 18) (mem ! 19)) - i) = Some act
     \<or> mem ! (sizeof_ndL_ip6_msg_t + sizeof_icmp6_hdr * i) = ND_NEIGHBOR_ADVERT
       \<and> ndL_handle_na iface mem (sizeof_ndL_ip6_msg_t + sizeof_icmp6_hdr * i)
            (unat (ntohs (mem ! 18) (mem ! 19)) - i) = Some act"
proof -
  from run obtain ip6_plen ip6_nxt where pl: "peek mem 18 2 = Some ip6_plen"
    and nx: "peek8 mem 20 = Some ip6_nxt"
    by (cases "peek mem 18 2"; cases "peek8 mem 20") (simp_all add: ndL_handle_msg_def)
  define plen where "plen = unat (ntohs (ip6_plen ! 0) (ip6_plen ! 1))"
  define hop where "hop = (if ip6_nxt = IPPROTO_HOPOPTS then ndL_handle_msg_hopopts mem plen 0
             else if ip6_nxt \<noteq> IPPROTO_ICMPV6 then Hop_return
             else Hop_break 0)"
  define rest where "rest i =
           (if plen - i < sizeof_icmp6_hdr then Some Return
            else do {
              cksum \<leftarrow> ndL_calculate_icmp6_checksum mem sizeof_ether_header
                         (sizeof_ndL_ip6_msg_t + sizeof_icmp6_hdr * i) (plen - i);
              icmp6_cksum \<leftarrow> peek mem (sizeof_ndL_ip6_msg_t + sizeof_icmp6_hdr * i + 2) 2;
              if cksum \<noteq> icmp6_cksum then Some Return
              else do {
                icmp6_type \<leftarrow> peek8 mem (sizeof_ndL_ip6_msg_t + sizeof_icmp6_hdr * i);
                if icmp6_type = ND_NEIGHBOR_SOLICIT
                  then ndL_handle_ns iface mem sizeof_ether_header
                         (sizeof_ndL_ip6_msg_t + sizeof_icmp6_hdr * i) (plen - i)
                else if icmp6_type = ND_NEIGHBOR_ADVERT
                  then ndL_handle_na iface mem (sizeof_ndL_ip6_msg_t + sizeof_icmp6_hdr * i) (plen - i)
                else Some Return
              }
            })" for i
  have plen_mem: "plen = unat (ntohs (mem ! 18) (mem ! 19))"
    using peek_nth [OF pl, of 0] peek_nth [OF pl, of 1] by (simp add: plen_def)
  have nxt_mem: "ip6_nxt = mem ! 20"
    using nx by (simp add: peek8_def split: if_splits)
  have unfolded: "ndL_handle_msg iface mem =
      (case hop of Hop_return \<Rightarrow> Some Return | Hop_fault \<Rightarrow> None | Hop_break i \<Rightarrow> rest i)"
    unfolding ndL_handle_msg_def pl nx Let_def Option.bind.simps hop_def rest_def plen_def
    by (rule refl)
  from run act unfolded obtain i where hop: "hop = Hop_break i" and rest: "rest i = Some act"
    by (cases hop) simp_all
  from hop have located: "mem ! 20 = IPPROTO_ICMPV6 \<and> i = 0
     \<or> mem ! 20 = IPPROTO_HOPOPTS \<and> ndL_handle_msg_hopopts mem plen 0 = Hop_break i"
    unfolding hop_def nxt_mem by (simp split: if_splits)
  from rest act have big: "\<not> plen - i < sizeof_icmp6_hdr"
    unfolding rest_def by (auto split: if_splits)
  with rest obtain cksum icmp6_cksum where
    ck: "ndL_calculate_icmp6_checksum mem sizeof_ether_header
           (sizeof_ndL_ip6_msg_t + sizeof_icmp6_hdr * i) (plen - i) = Some cksum"
    and st: "peek mem (sizeof_ndL_ip6_msg_t + sizeof_icmp6_hdr * i + 2) 2 = Some icmp6_cksum"
    and tail: "(if cksum \<noteq> icmp6_cksum then Some Return
              else do {
                icmp6_type \<leftarrow> peek8 mem (sizeof_ndL_ip6_msg_t + sizeof_icmp6_hdr * i);
                if icmp6_type = ND_NEIGHBOR_SOLICIT
                  then ndL_handle_ns iface mem sizeof_ether_header
                         (sizeof_ndL_ip6_msg_t + sizeof_icmp6_hdr * i) (plen - i)
                else if icmp6_type = ND_NEIGHBOR_ADVERT
                  then ndL_handle_na iface mem (sizeof_ndL_ip6_msg_t + sizeof_icmp6_hdr * i) (plen - i)
                else Some Return
              }) = Some act"
    unfolding rest_def by (simp only: if_False bind_eq_Some_conv) blast
  from tail act have same: "cksum = icmp6_cksum"
    by (auto split: if_splits)
  with tail obtain icmp6_type where
    ty: "peek8 mem (sizeof_ndL_ip6_msg_t + sizeof_icmp6_hdr * i) = Some icmp6_type"
    and disp: "(if icmp6_type = ND_NEIGHBOR_SOLICIT
                  then ndL_handle_ns iface mem sizeof_ether_header
                         (sizeof_ndL_ip6_msg_t + sizeof_icmp6_hdr * i) (plen - i)
                else if icmp6_type = ND_NEIGHBOR_ADVERT
                  then ndL_handle_na iface mem (sizeof_ndL_ip6_msg_t + sizeof_icmp6_hdr * i) (plen - i)
                else Some Return) = Some act"
    by (simp only: simp_thms if_False bind_eq_Some_conv) blast
  from ty have ty': "icmp6_type = mem ! (sizeof_ndL_ip6_msg_t + sizeof_icmp6_hdr * i)"
    by (simp add: peek8_def split: if_splits)
  from disp act have
    "icmp6_type = ND_NEIGHBOR_SOLICIT
       \<and> ndL_handle_ns iface mem sizeof_ether_header (sizeof_ndL_ip6_msg_t + sizeof_icmp6_hdr * i)
            (plen - i) = Some act
     \<or> icmp6_type = ND_NEIGHBOR_ADVERT
       \<and> ndL_handle_na iface mem (sizeof_ndL_ip6_msg_t + sizeof_icmp6_hdr * i)
            (plen - i) = Some act"
    by (auto split: if_splits)
  with located ck st same show ?thesis
    unfolding ty' plen_mem by (intro that [of i]) simp_all
qed

text \<open>
  C10. For every incoming Neighbor Solicitation, however well-formed, received on an
  interface that has no bound proxy, \<^verbatim>\<open>ndL_handle_ns\<close> returns without calling
  \<^verbatim>\<open>nd_proxy_handle_ns\<close>, and so does \<^verbatim>\<open>ndL_handle_msg\<close> for the whole frame: no session
  is created or refreshed and no frame is emitted.
\<close>

theorem ndL_handle_ns_without_proxy:
  assumes "proxy iface = None"
  shows "ndL_handle_ns iface mem ip6h ih len = Some Return
         \<and> ndL_handle_msg iface mem \<noteq> Some (Call_nd_proxy_handle_ns pr src dst tgt src_ll)"
proof -
  have ns: "ndL_handle_ns iface mem' ip6h' ih' len' = Some Return" for mem' ip6h' ih' len'
    using assms by (simp add: ndL_handle_ns_def)
  have "ndL_handle_msg iface mem \<noteq> Some (Call_nd_proxy_handle_ns pr src dst tgt src_ll)"
  proof
    assume "ndL_handle_msg iface mem = Some (Call_nd_proxy_handle_ns pr src dst tgt src_ll)"
    then show False
      by (rule ndL_handle_msg_dispatch) (auto simp: ns ndL_handle_na_no_proxy_call)
  qed
  with ns show ?thesis
    by simp
qed

theorem ndL_handle_ns_without_proxy_witness:
  "proxy \<lparr>index = 2, lladdr = [0x02, 0x11, 0x22, 0x33, 0x44, 0x55], refcount = 1,
         old_allmulti = - 1, old_promisc = - 1, proxy = (None :: nat option), sessions = []\<rparr> = None
   \<and> ndL_handle_ns \<lparr>index = 2, lladdr = [0x02, 0x11, 0x22, 0x33, 0x44, 0x55], refcount = 1,
         old_allmulti = - 1, old_promisc = - 1, proxy = (None :: nat option), sessions = []\<rparr>
       [0x33, 0x33, 0xff, 0x00, 0x00, 0x01, 0xaa, 0xbb, 0xcc, 0xdd, 0xee, 0x01, 0x86, 0xdd, 0x60, 0x00,
      0x00, 0x00, 0x00, 0x20, 0x3a, 0xff, 0x20, 0x01, 0x0d, 0xb8, 0x00, 0x00, 0x00, 0x00, 0x00, 0x00,
      0x00, 0x00, 0x00, 0x00, 0x00, 0x02, 0xff, 0x02, 0x00, 0x00, 0x00, 0x00, 0x00, 0x00, 0x00, 0x00,
      0x00, 0x01, 0xff, 0x00, 0x00, 0x01, 0x87, 0x00, 0xb8, 0x8d, 0x00, 0x00, 0x00, 0x00, 0x20, 0x01,
      0x0d, 0xb8, 0x00, 0x00, 0x00, 0x00, 0x00, 0x00, 0x00, 0x00, 0x00, 0x00, 0x00, 0x01, 0x01, 0x01,
      0xaa, 0xbb, 0xcc, 0xdd, 0xee, 0x01] 14 54 32 = Some Return
   \<and> ndL_handle_msg \<lparr>index = 2, lladdr = [0x02, 0x11, 0x22, 0x33, 0x44, 0x55], refcount = 1,
         old_allmulti = - 1, old_promisc = - 1, proxy = (None :: nat option), sessions = []\<rparr>
       [0x33, 0x33, 0xff, 0x00, 0x00, 0x01, 0xaa, 0xbb, 0xcc, 0xdd, 0xee, 0x01, 0x86, 0xdd, 0x60, 0x00,
      0x00, 0x00, 0x00, 0x20, 0x3a, 0xff, 0x20, 0x01, 0x0d, 0xb8, 0x00, 0x00, 0x00, 0x00, 0x00, 0x00,
      0x00, 0x00, 0x00, 0x00, 0x00, 0x02, 0xff, 0x02, 0x00, 0x00, 0x00, 0x00, 0x00, 0x00, 0x00, 0x00,
      0x00, 0x01, 0xff, 0x00, 0x00, 0x01, 0x87, 0x00, 0xb8, 0x8d, 0x00, 0x00, 0x00, 0x00, 0x20, 0x01,
      0x0d, 0xb8, 0x00, 0x00, 0x00, 0x00, 0x00, 0x00, 0x00, 0x00, 0x00, 0x00, 0x00, 0x01, 0x01, 0x01,
      0xaa, 0xbb, 0xcc, 0xdd, 0xee, 0x01]
       \<noteq> Some (Call_nd_proxy_handle_ns 7 [0x20, 0x01, 0x0d, 0xb8, 0, 0, 0, 0, 0, 0, 0, 0, 0, 0, 0, 0x02] [0xff, 0x02, 0, 0, 0, 0, 0, 0, 0, 0, 0, 0x01, 0xff, 0, 0, 0x01] [0x20, 0x01, 0x0d, 0xb8, 0, 0, 0, 0, 0, 0, 0, 0, 0, 0, 0, 0x01] (Some [0xaa, 0xbb, 0xcc, 0xdd, 0xee, 0x01]))"
  using ndL_handle_ns_without_proxy
    [of "\<lparr>index = 2, lladdr = [0x02, 0x11, 0x22, 0x33, 0x44, 0x55], refcount = 1,
         old_allmulti = - 1, old_promisc = - 1, proxy = (None :: nat option), sessions = []\<rparr>"
        "[0x33, 0x33, 0xff, 0x00, 0x00, 0x01, 0xaa, 0xbb, 0xcc, 0xdd, 0xee, 0x01, 0x86, 0xdd, 0x60, 0x00,
      0x00, 0x00, 0x00, 0x20, 0x3a, 0xff, 0x20, 0x01, 0x0d, 0xb8, 0x00, 0x00, 0x00, 0x00, 0x00, 0x00,
      0x00, 0x00, 0x00, 0x00, 0x00, 0x02, 0xff, 0x02, 0x00, 0x00, 0x00, 0x00, 0x00, 0x00, 0x00, 0x00,
      0x00, 0x01, 0xff, 0x00, 0x00, 0x01, 0x87, 0x00, 0xb8, 0x8d, 0x00, 0x00, 0x00, 0x00, 0x20, 0x01,
      0x0d, 0xb8, 0x00, 0x00, 0x00, 0x00, 0x00, 0x00, 0x00, 0x00, 0x00, 0x00, 0x00, 0x01, 0x01, 0x01,
      0xaa, 0xbb, 0xcc, 0xdd, 0xee, 0x01]" 14 54 32 7
        "[0x20, 0x01, 0x0d, 0xb8, 0, 0, 0, 0, 0, 0, 0, 0, 0, 0, 0, 0x02]" "[0xff, 0x02, 0, 0, 0, 0, 0, 0, 0, 0, 0, 0x01, 0xff, 0, 0, 0x01]" "[0x20, 0x01, 0x0d, 0xb8, 0, 0, 0, 0, 0, 0, 0, 0, 0, 0, 0, 0x01]" "Some [0xaa, 0xbb, 0xcc, 0xdd, 0xee, 0x01]"]
  by simp

text \<open>
  C3. A received frame whose ICMPv6 checksum does not verify, and which is nevertheless
  handed to the NS handler. The frame has 94 bytes: one Hop-by-Hop header of 8 bytes (next
  header ICMPv6) and a Neighbor Solicitation at byte \<open>54 + 8\<close> whose stored checksum
  \<^verbatim>\<open>b88c\<close> differs from the checksum \<^verbatim>\<open>b88d\<close> that \<^verbatim>\<open>ndL_calculate_icmp6_checksum\<close> computes
  for it. It lies in the receive buffer of 1024 bytes, which \<^verbatim>\<open>ndL_io_handler\<close> reuses from
  frame to frame; bytes 118 to 149 hold what an earlier, longer frame left there. The
  chain is traversed with \<open>i = 8\<close>, and \<^verbatim>\<open>ndL_handle_msg\<close> takes the ICMPv6 header at byte
  \<open>54 + 8 * 8\<close>, in the stale bytes, whose checksum matches: it calls \<^verbatim>\<open>nd_proxy_handle_ns\<close>
  with the stale target and link-layer address.
\<close>

theorem ndL_handle_msg_dispatches_frame_with_bad_checksum:
  "(let buf = [0x33, 0x33, 0xff, 0x00, 0x00, 0x01, 0xaa, 0xbb, 0xcc, 0xdd, 0xee, 0x01, 0x86, 0xdd, 0x60, 0x00,
      0x00, 0x00, 0x00, 0x28, 0x00, 0xff, 0x20, 0x01, 0x0d, 0xb8, 0x00, 0x00, 0x00, 0x00, 0x00, 0x00,
      0x00, 0x00, 0x00, 0x00, 0x00, 0x02, 0xff, 0x02, 0x00, 0x00, 0x00, 0x00, 0x00, 0x00, 0x00, 0x00,
      0x00, 0x01, 0xff, 0x00, 0x00, 0x01, 0x3a, 0x00, 0x01, 0x04, 0x00, 0x00, 0x00, 0x00, 0x87, 0x00,
      0xb8, 0x8c, 0x00, 0x00, 0x00, 0x00, 0x20, 0x01, 0x0d, 0xb8, 0x00, 0x00, 0x00, 0x00, 0x00, 0x00,
      0x00, 0x00, 0x00, 0x00, 0x00, 0x01, 0x01, 0x01, 0xaa, 0xbb, 0xcc, 0xdd, 0xee, 0x01]
      @ replicate 24 0
      @ [0x87, 0x00, 0x4e, 0x5e, 0x00, 0x00, 0x00, 0x00, 0x20, 0x01, 0x0d, 0xb8, 0x00, 0x00, 0x00, 0x00,
      0x00, 0x00, 0x00, 0x00, 0x00, 0x00, 0x00, 0x99, 0x01, 0x01, 0x02, 0x66, 0x66, 0x66, 0x66, 0x66]
      @ replicate 874 0 in
    length buf = 1024
    \<and> unat (ntohs (buf ! 18) (buf ! 19)) = 94 - sizeof_ndL_ip6_msg_t
    \<and> buf ! 20 = IPPROTO_HOPOPTS
    \<and> ndL_handle_msg_hopopts buf 40 0 = Hop_break 8
    \<and> buf ! (54 + 8) = ND_NEIGHBOR_SOLICIT
    \<and> ndL_calculate_icmp6_checksum buf 14 (54 + 8) 32 = Some [0xb8, 0x8d]
    \<and> peek buf (54 + 8 + 2) 2 = Some [0xb8, 0x8c]
    \<and> ndL_handle_msg \<lparr>index = 2, lladdr = [0x02, 0x11, 0x22, 0x33, 0x44, 0x55], refcount = 1,
         old_allmulti = - 1, old_promisc = - 1, proxy = Some (7 :: nat), sessions = []\<rparr> buf
        = Some (Call_nd_proxy_handle_ns 7 [0x20, 0x01, 0x0d, 0xb8, 0, 0, 0, 0, 0, 0, 0, 0, 0, 0, 0, 0x02] [0xff, 0x02, 0, 0, 0, 0, 0, 0, 0, 0, 0, 0x01, 0xff, 0, 0, 0x01] [0x20, 0x01, 0x0d, 0xb8, 0, 0, 0, 0, 0, 0, 0, 0, 0, 0, 0, 0x99] (Some [0x02, 0x66, 0x66, 0x66, 0x66, 0x66])))"
  by code_simp

lemma ndL_handle_ns_call_only_if:
  assumes src: "peek mem (ip6h + 8) 16 = Some ip6_src"
    and call: "ndL_handle_ns iface mem ip6h ih len = Some (Call_nd_proxy_handle_ns pr s d t src_ll)"
  shows "proxy iface = Some pr \<and> s = ip6_src \<and> sizeof_nd_neighbor_solicit \<le> len
         \<and> (if nd_addr_is_unspecified ip6_src then src_ll = None
             else sizeof_nd_neighbor_solicit + 8 \<le> len
                \<and> peek8 mem (ih + sizeof_nd_neighbor_solicit) = Some ND_OPT_SOURCE_LINKADDR
                \<and> peek8 mem (ih + sizeof_nd_neighbor_solicit + 1) = Some 1
                \<and> src_ll = peek mem (ih + sizeof_nd_neighbor_solicit + 2) 6
                \<and> src_ll \<noteq> None)"
proof -
  from call obtain pr' where pr: "proxy iface = Some pr'"
    by (cases "proxy iface") (simp_all add: ndL_handle_ns_def)
  from call pr have len: "\<not> len < sizeof_nd_neighbor_solicit"
    by (auto simp: ndL_handle_ns_def split: if_splits)
  show ?thesis
  proof (cases "nd_addr_is_unspecified ip6_src")
    case True
    with call pr len src show ?thesis
      by (auto simp: ndL_handle_ns_def split: bind_splits)
  next
    case False
    with call pr len src have big: "\<not> len - sizeof_nd_neighbor_solicit < 8"
      by (auto simp: ndL_handle_ns_def split: if_splits)
    with call pr len src False obtain nd_opt_type nd_opt_len where
      ty: "peek8 mem (ih + sizeof_nd_neighbor_solicit) = Some nd_opt_type"
      and ln: "peek8 mem (ih + sizeof_nd_neighbor_solicit + 1) = Some nd_opt_len"
      by (auto simp: ndL_handle_ns_def split: bind_splits)
    with call pr len src False big have "nd_opt_len = 1" "nd_opt_type = ND_OPT_SOURCE_LINKADDR"
      by (auto simp: ndL_handle_ns_def split: if_splits)
    with call pr len src False big ty ln show ?thesis
      by (auto simp: ndL_handle_ns_def split: bind_splits) metis
  qed
qed

lemma ndL_handle_ns_in_bounds:
  assumes src: "peek mem (ip6h + 8) 16 = Some ip6_src"
    and pr: "proxy iface = Some pr"
    and fits: "ip6h + 40 \<le> length mem" "ih + len \<le> length mem"
    and len: "sizeof_nd_neighbor_solicit \<le> len"
  shows "ndL_handle_ns iface mem ip6h ih len =
           Some (if nd_addr_is_unspecified ip6_src
                 then Call_nd_proxy_handle_ns pr ip6_src (take 16 (drop (ip6h + 24) mem))
                        (take 16 (drop (ih + 8) mem)) None
                 else if sizeof_nd_neighbor_solicit + 8 \<le> len
                         \<and> mem ! (ih + sizeof_nd_neighbor_solicit) = ND_OPT_SOURCE_LINKADDR
                         \<and> mem ! (ih + sizeof_nd_neighbor_solicit + 1) = 1
                 then Call_nd_proxy_handle_ns pr ip6_src (take 16 (drop (ip6h + 24) mem))
                        (take 16 (drop (ih + 8) mem))
                        (Some (take 6 (drop (ih + sizeof_nd_neighbor_solicit + 2) mem)))
                 else Return)"
proof -
  from fits len have dst: "peek mem (ip6h + 24) 16 = Some (take 16 (drop (ip6h + 24) mem))"
    and tgt: "peek mem (ih + 8) 16 = Some (take 16 (drop (ih + 8) mem))"
    by (simp_all add: peek_def)
  show ?thesis
  proof (cases "nd_addr_is_unspecified ip6_src")
    case True
    with len show ?thesis
      by (simp add: ndL_handle_ns_def pr src dst tgt)
  next
    case False
    show ?thesis
    proof (cases "sizeof_nd_neighbor_solicit + 8 \<le> len")
      case big: True
      with fits have opt: "peek8 mem (ih + sizeof_nd_neighbor_solicit)
                             = Some (mem ! (ih + sizeof_nd_neighbor_solicit))"
        "peek8 mem (ih + sizeof_nd_neighbor_solicit + 1)
           = Some (mem ! (ih + sizeof_nd_neighbor_solicit + 1))"
        and ll: "peek mem (ih + sizeof_nd_neighbor_solicit + 2) 6
                   = Some (take 6 (drop (ih + sizeof_nd_neighbor_solicit + 2) mem))"
        by (simp_all add: peek_def peek8_def)
      from big have "\<not> len - sizeof_nd_neighbor_solicit < 8"
        by simp
      with len False big opt ll show ?thesis
        by (simp add: ndL_handle_ns_def pr src dst tgt)
    next
      case small: False
      then have "len - sizeof_nd_neighbor_solicit < 8"
        by simp
      with len False small show ?thesis
        by (simp add: ndL_handle_ns_def pr src)
    qed
  qed
qed

text \<open>
  C5, as the code has it. For every incoming Neighbor Solicitation whose IPv6 source
  address is not unspecified, \<^verbatim>\<open>ndL_handle_ns\<close> calls \<^verbatim>\<open>nd_proxy_handle_ns\<close> only if the
  24 bytes of the NS are followed by at least 8 more bytes that start with an option header
  of type 1 (Source Link-Layer Address) and length 1; \<^verbatim>\<open>src_ll\<close> then points at the 6 bytes
  after that header, and whatever follows the first option is not examined. Otherwise the
  frame is dropped. For an NS with unspecified source the options are not read and
  \<^verbatim>\<open>src_ll\<close> is passed as \<^verbatim>\<open>NULL\<close>. With the message inside the buffer, a bound proxy and at
  least 24 bytes these are the only outcomes.
\<close>

theorem ndL_handle_ns_first_option:
  assumes src: "peek mem (ip6h + 8) 16 = Some ip6_src"
  shows "(ndL_handle_ns iface mem ip6h ih len = Some (Call_nd_proxy_handle_ns pr s d t src_ll)
            \<longrightarrow> proxy iface = Some pr \<and> s = ip6_src
                \<and> sizeof_nd_neighbor_solicit \<le> len
                \<and> (if nd_addr_is_unspecified ip6_src then src_ll = None
                    else sizeof_nd_neighbor_solicit + 8 \<le> len
                       \<and> peek8 mem (ih + sizeof_nd_neighbor_solicit) = Some ND_OPT_SOURCE_LINKADDR
                       \<and> peek8 mem (ih + sizeof_nd_neighbor_solicit + 1) = Some 1
                       \<and> src_ll = peek mem (ih + sizeof_nd_neighbor_solicit + 2) 6
                       \<and> src_ll \<noteq> None))
       \<and> (proxy iface = Some pr \<and> ip6h + 40 \<le> length mem \<and> ih + len \<le> length mem
            \<and> sizeof_nd_neighbor_solicit \<le> len
            \<longrightarrow> ndL_handle_ns iface mem ip6h ih len =
                 Some (if nd_addr_is_unspecified ip6_src
                       then Call_nd_proxy_handle_ns pr ip6_src (take 16 (drop (ip6h + 24) mem))
                              (take 16 (drop (ih + 8) mem)) None
                       else if sizeof_nd_neighbor_solicit + 8 \<le> len
                               \<and> mem ! (ih + sizeof_nd_neighbor_solicit) = ND_OPT_SOURCE_LINKADDR
                               \<and> mem ! (ih + sizeof_nd_neighbor_solicit + 1) = 1
                       then Call_nd_proxy_handle_ns pr ip6_src (take 16 (drop (ip6h + 24) mem))
                              (take 16 (drop (ih + 8) mem))
                              (Some (take 6 (drop (ih + sizeof_nd_neighbor_solicit + 2) mem)))
                       else Return))"
proof (rule conjI; rule impI)
  assume "ndL_handle_ns iface mem ip6h ih len = Some (Call_nd_proxy_handle_ns pr s d t src_ll)"
  then show "proxy iface = Some pr \<and> s = ip6_src
                \<and> sizeof_nd_neighbor_solicit \<le> len
                \<and> (if nd_addr_is_unspecified ip6_src then src_ll = None
                    else sizeof_nd_neighbor_solicit + 8 \<le> len
                       \<and> peek8 mem (ih + sizeof_nd_neighbor_solicit) = Some ND_OPT_SOURCE_LINKADDR
                       \<and> peek8 mem (ih + sizeof_nd_neighbor_solicit + 1) = Some 1
                       \<and> src_ll = peek mem (ih + sizeof_nd_neighbor_solicit + 2) 6
                       \<and> src_ll \<noteq> None)"
    by (rule ndL_handle_ns_call_only_if [OF src])
next
  assume "proxy iface = Some pr \<and> ip6h + 40 \<le> length mem \<and> ih + len \<le> length mem
            \<and> sizeof_nd_neighbor_solicit \<le> len"
  then have "proxy iface = Some pr" "ip6h + 40 \<le> length mem" "ih + len \<le> length mem"
    "sizeof_nd_neighbor_solicit \<le> len"
    by blast+
  then show "ndL_handle_ns iface mem ip6h ih len =
                 Some (if nd_addr_is_unspecified ip6_src
                       then Call_nd_proxy_handle_ns pr ip6_src (take 16 (drop (ip6h + 24) mem))
                              (take 16 (drop (ih + 8) mem)) None
                       else if sizeof_nd_neighbor_solicit + 8 \<le> len
                               \<and> mem ! (ih + sizeof_nd_neighbor_solicit) = ND_OPT_SOURCE_LINKADDR
                               \<and> mem ! (ih + sizeof_nd_neighbor_solicit + 1) = 1
                       then Call_nd_proxy_handle_ns pr ip6_src (take 16 (drop (ip6h + 24) mem))
                              (take 16 (drop (ih + 8) mem))
                              (Some (take 6 (drop (ih + sizeof_nd_neighbor_solicit + 2) mem)))
                       else Return)"
    by (rule ndL_handle_ns_in_bounds [OF src])
qed

theorem ndL_handle_ns_first_option_witness:
  "peek [0x33, 0x33, 0xff, 0x00, 0x00, 0x01, 0xaa, 0xbb, 0xcc, 0xdd, 0xee, 0x01, 0x86, 0xdd, 0x60, 0x00,
      0x00, 0x00, 0x00, 0x28, 0x3a, 0xff, 0x20, 0x01, 0x0d, 0xb8, 0x00, 0x00, 0x00, 0x00, 0x00, 0x00,
      0x00, 0x00, 0x00, 0x00, 0x00, 0x02, 0xff, 0x02, 0x00, 0x00, 0x00, 0x00, 0x00, 0x00, 0x00, 0x00,
      0x00, 0x01, 0xff, 0x00, 0x00, 0x01, 0x87, 0x00, 0x51, 0xe8, 0x00, 0x00, 0x00, 0x00, 0x20, 0x01,
      0x0d, 0xb8, 0x00, 0x00, 0x00, 0x00, 0x00, 0x00, 0x00, 0x00, 0x00, 0x00, 0x00, 0x01, 0x01, 0x01,
      0xaa, 0xbb, 0xcc, 0xdd, 0xee, 0x01, 0x01, 0x01, 0xaa, 0xbb, 0xcc, 0xdd, 0xee, 0x02] (14 + 8) 16
     = Some [0x20, 0x01, 0x0d, 0xb8, 0, 0, 0, 0, 0, 0, 0, 0, 0, 0, 0, 0x02]
   \<and> ndL_handle_ns \<lparr>index = 2, lladdr = [0x02, 0x11, 0x22, 0x33, 0x44, 0x55], refcount = 1,
         old_allmulti = - 1, old_promisc = - 1, proxy = Some (7 :: nat), sessions = []\<rparr>
         [0x33, 0x33, 0xff, 0x00, 0x00, 0x01, 0xaa, 0xbb, 0xcc, 0xdd, 0xee, 0x01, 0x86, 0xdd, 0x60, 0x00,
      0x00, 0x00, 0x00, 0x28, 0x3a, 0xff, 0x20, 0x01, 0x0d, 0xb8, 0x00, 0x00, 0x00, 0x00, 0x00, 0x00,
      0x00, 0x00, 0x00, 0x00, 0x00, 0x02, 0xff, 0x02, 0x00, 0x00, 0x00, 0x00, 0x00, 0x00, 0x00, 0x00,
      0x00, 0x01, 0xff, 0x00, 0x00, 0x01, 0x87, 0x00, 0x51, 0xe8, 0x00, 0x00, 0x00, 0x00, 0x20, 0x01,
      0x0d, 0xb8, 0x00, 0x00, 0x00, 0x00, 0x00, 0x00, 0x00, 0x00, 0x00, 0x00, 0x00, 0x01, 0x01, 0x01,
      0xaa, 0xbb, 0xcc, 0xdd, 0xee, 0x01, 0x01, 0x01, 0xaa, 0xbb, 0xcc, 0xdd, 0xee, 0x02] 14 54 40
       = Some (Call_nd_proxy_handle_ns 7 [0x20, 0x01, 0x0d, 0xb8, 0, 0, 0, 0, 0, 0, 0, 0, 0, 0, 0, 0x02] [0xff, 0x02, 0, 0, 0, 0, 0, 0, 0, 0, 0, 0x01, 0xff, 0, 0, 0x01] [0x20, 0x01, 0x0d, 0xb8, 0, 0, 0, 0, 0, 0, 0, 0, 0, 0, 0, 0x01] (Some [0xaa, 0xbb, 0xcc, 0xdd, 0xee, 0x01]))
   \<and> \<not> nd_addr_is_unspecified [0x20, 0x01, 0x0d, 0xb8, 0, 0, 0, 0, 0, 0, 0, 0, 0, 0, 0, 0x02]
   \<and> peek8 [0x33, 0x33, 0xff, 0x00, 0x00, 0x01, 0xaa, 0xbb, 0xcc, 0xdd, 0xee, 0x01, 0x86, 0xdd, 0x60, 0x00,
      0x00, 0x00, 0x00, 0x28, 0x3a, 0xff, 0x20, 0x01, 0x0d, 0xb8, 0x00, 0x00, 0x00, 0x00, 0x00, 0x00,
      0x00, 0x00, 0x00, 0x00, 0x00, 0x02, 0xff, 0x02, 0x00, 0x00, 0x00, 0x00, 0x00, 0x00, 0x00, 0x00,
      0x00, 0x01, 0xff, 0x00, 0x00, 0x01, 0x87, 0x00, 0x51, 0xe8, 0x00, 0x00, 0x00, 0x00, 0x20, 0x01,
      0x0d, 0xb8, 0x00, 0x00, 0x00, 0x00, 0x00, 0x00, 0x00, 0x00, 0x00, 0x00, 0x00, 0x01, 0x01, 0x01,
      0xaa, 0xbb, 0xcc, 0xdd, 0xee, 0x01, 0x01, 0x01, 0xaa, 0xbb, 0xcc, 0xdd, 0xee, 0x02] (54 + 24) = Some ND_OPT_SOURCE_LINKADDR
   \<and> peek8 [0x33, 0x33, 0xff, 0x00, 0x00, 0x01, 0xaa, 0xbb, 0xcc, 0xdd, 0xee, 0x01, 0x86, 0xdd, 0x60, 0x00,
      0x00, 0x00, 0x00, 0x28, 0x3a, 0xff, 0x20, 0x01, 0x0d, 0xb8, 0x00, 0x00, 0x00, 0x00, 0x00, 0x00,
      0x00, 0x00, 0x00, 0x00, 0x00, 0x02, 0xff, 0x02, 0x00, 0x00, 0x00, 0x00, 0x00, 0x00, 0x00, 0x00,
      0x00, 0x01, 0xff, 0x00, 0x00, 0x01, 0x87, 0x00, 0x51, 0xe8, 0x00, 0x00, 0x00, 0x00, 0x20, 0x01,
      0x0d, 0xb8, 0x00, 0x00, 0x00, 0x00, 0x00, 0x00, 0x00, 0x00, 0x00, 0x00, 0x00, 0x01, 0x01, 0x01,
      0xaa, 0xbb, 0xcc, 0xdd, 0xee, 0x01, 0x01, 0x01, 0xaa, 0xbb, 0xcc, 0xdd, 0xee, 0x02] (54 + 24 + 1) = Some 1
   \<and> peek [0x33, 0x33, 0xff, 0x00, 0x00, 0x01, 0xaa, 0xbb, 0xcc, 0xdd, 0xee, 0x01, 0x86, 0xdd, 0x60, 0x00,
      0x00, 0x00, 0x00, 0x28, 0x3a, 0xff, 0x20, 0x01, 0x0d, 0xb8, 0x00, 0x00, 0x00, 0x00, 0x00, 0x00,
      0x00, 0x00, 0x00, 0x00, 0x00, 0x02, 0xff, 0x02, 0x00, 0x00, 0x00, 0x00, 0x00, 0x00, 0x00, 0x00,
      0x00, 0x01, 0xff, 0x00, 0x00, 0x01, 0x87, 0x00, 0x51, 0xe8, 0x00, 0x00, 0x00, 0x00, 0x20, 0x01,
      0x0d, 0xb8, 0x00, 0x00, 0x00, 0x00, 0x00, 0x00, 0x00, 0x00, 0x00, 0x00, 0x00, 0x01, 0x01, 0x01,
      0xaa, 0xbb, 0xcc, 0xdd, 0xee, 0x01, 0x01, 0x01, 0xaa, 0xbb, 0xcc, 0xdd, 0xee, 0x02] (54 + 24 + 2) 6 = Some [0xaa, 0xbb, 0xcc, 0xdd, 0xee, 0x01]"
proof -
  have src: "peek [0x33, 0x33, 0xff, 0x00, 0x00, 0x01, 0xaa, 0xbb, 0xcc, 0xdd, 0xee, 0x01, 0x86, 0xdd, 0x60, 0x00,
      0x00, 0x00, 0x00, 0x28, 0x3a, 0xff, 0x20, 0x01, 0x0d, 0xb8, 0x00, 0x00, 0x00, 0x00, 0x00, 0x00,
      0x00, 0x00, 0x00, 0x00, 0x00, 0x02, 0xff, 0x02, 0x00, 0x00, 0x00, 0x00, 0x00, 0x00, 0x00, 0x00,
      0x00, 0x01, 0xff, 0x00, 0x00, 0x01, 0x87, 0x00, 0x51, 0xe8, 0x00, 0x00, 0x00, 0x00, 0x20, 0x01,
      0x0d, 0xb8, 0x00, 0x00, 0x00, 0x00, 0x00, 0x00, 0x00, 0x00, 0x00, 0x00, 0x00, 0x01, 0x01, 0x01,
      0xaa, 0xbb, 0xcc, 0xdd, 0xee, 0x01, 0x01, 0x01, 0xaa, 0xbb, 0xcc, 0xdd, 0xee, 0x02] (14 + 8) 16
     = Some [0x20, 0x01, 0x0d, 0xb8, 0, 0, 0, 0, 0, 0, 0, 0, 0, 0, 0, 0x02]"
    by code_simp
  have call: "ndL_handle_ns \<lparr>index = 2, lladdr = [0x02, 0x11, 0x22, 0x33, 0x44, 0x55], refcount = 1,
         old_allmulti = - 1, old_promisc = - 1, proxy = Some (7 :: nat), sessions = []\<rparr>
         [0x33, 0x33, 0xff, 0x00, 0x00, 0x01, 0xaa, 0xbb, 0xcc, 0xdd, 0xee, 0x01, 0x86, 0xdd, 0x60, 0x00,
      0x00, 0x00, 0x00, 0x28, 0x3a, 0xff, 0x20, 0x01, 0x0d, 0xb8, 0x00, 0x00, 0x00, 0x00, 0x00, 0x00,
      0x00, 0x00, 0x00, 0x00, 0x00, 0x02, 0xff, 0x02, 0x00, 0x00, 0x00, 0x00, 0x00, 0x00, 0x00, 0x00,
      0x00, 0x01, 0xff, 0x00, 0x00, 0x01, 0x87, 0x00, 0x51, 0xe8, 0x00, 0x00, 0x00, 0x00, 0x20, 0x01,
      0x0d, 0xb8, 0x00, 0x00, 0x00, 0x00, 0x00, 0x00, 0x00, 0x00, 0x00, 0x00, 0x00, 0x01, 0x01, 0x01,
      0xaa, 0xbb, 0xcc, 0xdd, 0xee, 0x01, 0x01, 0x01, 0xaa, 0xbb, 0xcc, 0xdd, 0xee, 0x02] 14 54 40
       = Some (Call_nd_proxy_handle_ns 7 [0x20, 0x01, 0x0d, 0xb8, 0, 0, 0, 0, 0, 0, 0, 0, 0, 0, 0, 0x02] [0xff, 0x02, 0, 0, 0, 0, 0, 0, 0, 0, 0, 0x01, 0xff, 0, 0, 0x01] [0x20, 0x01, 0x0d, 0xb8, 0, 0, 0, 0, 0, 0, 0, 0, 0, 0, 0, 0x01] (Some [0xaa, 0xbb, 0xcc, 0xdd, 0xee, 0x01]))"
    by code_simp
  have specified: "\<not> nd_addr_is_unspecified [0x20, 0x01, 0x0d, 0xb8, 0, 0, 0, 0, 0, 0, 0, 0, 0, 0, 0, 0x02]"
    by code_simp
  note only_if = ndL_handle_ns_first_option [OF src, THEN conjunct1, rule_format, OF call]
  from only_if specified src call show ?thesis
    by simp
qed

text \<open>
  C5 as stated fails: a Neighbor Solicitation from \<^verbatim>\<open>2001:db8::2\<close> with a correct checksum
  and two Source Link-Layer Address options (16 bytes of options) is forwarded to the
  proxy.
\<close>

theorem ndL_handle_msg_forwards_two_options:
  "ndL_handle_msg \<lparr>index = 2, lladdr = [0x02, 0x11, 0x22, 0x33, 0x44, 0x55], refcount = 1,
         old_allmulti = - 1, old_promisc = - 1, proxy = Some (7 :: nat), sessions = []\<rparr>
     [0x33, 0x33, 0xff, 0x00, 0x00, 0x01, 0xaa, 0xbb, 0xcc, 0xdd, 0xee, 0x01, 0x86, 0xdd, 0x60, 0x00,
      0x00, 0x00, 0x00, 0x28, 0x3a, 0xff, 0x20, 0x01, 0x0d, 0xb8, 0x00, 0x00, 0x00, 0x00, 0x00, 0x00,
      0x00, 0x00, 0x00, 0x00, 0x00, 0x02, 0xff, 0x02, 0x00, 0x00, 0x00, 0x00, 0x00, 0x00, 0x00, 0x00,
      0x00, 0x01, 0xff, 0x00, 0x00, 0x01, 0x87, 0x00, 0x51, 0xe8, 0x00, 0x00, 0x00, 0x00, 0x20, 0x01,
      0x0d, 0xb8, 0x00, 0x00, 0x00, 0x00, 0x00, 0x00, 0x00, 0x00, 0x00, 0x00, 0x00, 0x01, 0x01, 0x01,
      0xaa, 0xbb, 0xcc, 0xdd, 0xee, 0x01, 0x01, 0x01, 0xaa, 0xbb, 0xcc, 0xdd, 0xee, 0x02]
   = Some (Call_nd_proxy_handle_ns 7 [0x20, 0x01, 0x0d, 0xb8, 0, 0, 0, 0, 0, 0, 0, 0, 0, 0, 0, 0x02] [0xff, 0x02, 0, 0, 0, 0, 0, 0, 0, 0, 0, 0x01, 0xff, 0, 0, 0x01] [0x20, 0x01, 0x0d, 0xb8, 0, 0, 0, 0, 0, 0, 0, 0, 0, 0, 0, 0x01] (Some [0xaa, 0xbb, 0xcc, 0xdd, 0xee, 0x01]))"
  by code_simp

text \<open>
  C6. A frame with one Hop-by-Hop header of 8 bytes (next header ICMPv6) followed by a
  Neighbor Solicitation, in a receive buffer of 1024 bytes: the chain is traversed with
  \<open>i = 8\<close>, and the ICMPv6 header right after it, at byte \<open>54 + 8\<close>, has a checksum that
  verifies and would be dispatched to the proxy. \<^verbatim>\<open>ndL_handle_msg\<close> reads the header at
  byte \<open>54 + 8 * 8\<close> instead, finds no matching checksum there, and returns.
\<close>

theorem ndL_handle_msg_reads_icmp6_header_at_8i:
  "(let buf = [0x33, 0x33, 0xff, 0x00, 0x00, 0x01, 0xaa, 0xbb, 0xcc, 0xdd, 0xee, 0x01, 0x86, 0xdd, 0x60, 0x00,
      0x00, 0x00, 0x00, 0x28, 0x00, 0xff, 0x20, 0x01, 0x0d, 0xb8, 0x00, 0x00, 0x00, 0x00, 0x00, 0x00,
      0x00, 0x00, 0x00, 0x00, 0x00, 0x02, 0xff, 0x02, 0x00, 0x00, 0x00, 0x00, 0x00, 0x00, 0x00, 0x00,
      0x00, 0x01, 0xff, 0x00, 0x00, 0x01, 0x3a, 0x00, 0x01, 0x04, 0x00, 0x00, 0x00, 0x00, 0x87, 0x00,
      0xb8, 0x8d, 0x00, 0x00, 0x00, 0x00, 0x20, 0x01, 0x0d, 0xb8, 0x00, 0x00, 0x00, 0x00, 0x00, 0x00,
      0x00, 0x00, 0x00, 0x00, 0x00, 0x01, 0x01, 0x01, 0xaa, 0xbb, 0xcc, 0xdd, 0xee, 0x01] @ replicate 930 0 in
    ndL_handle_msg_hopopts buf 40 0 = Hop_break 8
    \<and> ndL_calculate_icmp6_checksum buf 14 (54 + 8) 32 = peek buf (54 + 8 + 2) 2
    \<and> peek buf (54 + 8 + 2) 2 = Some [0xb8, 0x8d]
    \<and> buf ! (54 + 8) = ND_NEIGHBOR_SOLICIT
    \<and> ndL_handle_ns \<lparr>index = 2, lladdr = [0x02, 0x11, 0x22, 0x33, 0x44, 0x55], refcount = 1,
         old_allmulti = - 1, old_promisc = - 1, proxy = Some (7 :: nat), sessions = []\<rparr> buf 14 (54 + 8) 32
        = Some (Call_nd_proxy_handle_ns 7 [0x20, 0x01, 0x0d, 0xb8, 0, 0, 0, 0, 0, 0, 0, 0, 0, 0, 0, 0x02] [0xff, 0x02, 0, 0, 0, 0, 0, 0, 0, 0, 0, 0x01, 0xff, 0, 0, 0x01] [0x20, 0x01, 0x0d, 0xb8, 0, 0, 0, 0, 0, 0, 0, 0, 0, 0, 0, 0x01] (Some [0xaa, 0xbb, 0xcc, 0xdd, 0xee, 0x01]))
    \<and> ndL_calculate_icmp6_checksum buf 14 (54 + 8 * 8) 32 \<noteq> peek buf (54 + 8 * 8 + 2) 2
    \<and> ndL_handle_msg \<lparr>index = 2, lladdr = [0x02, 0x11, 0x22, 0x33, 0x44, 0x55], refcount = 1,
         old_allmulti = - 1, old_promisc = - 1, proxy = Some (7 :: nat), sessions = []\<rparr> buf = Some Return)"
  by code_simp

section \<open>Saving and restoring the link flags\<close>

lemma word_nonzero_bit: "(\<exists>n. bit w n) \<longleftrightarrow> w \<noteq> 0" for w :: "16 word"
proof
  assume "\<exists>n. bit w n"
  then show "w \<noteq> 0"
    by auto
next
  assume "w \<noteq> 0"
  then show "\<exists>n. bit w n"
    by (auto simp: bit_eq_iff [where ?'a = "16 word"])
qed

lemma bit_IFF_PROMISC: "bit IFF_PROMISC n \<longleftrightarrow> n = 8"
proof -
  have e: "IFF_PROMISC = 2 ^ 8"
    by (simp add: IFF_PROMISC_def)
  show ?thesis
    unfolding e bit_exp_iff by auto
qed

lemma bit_IFF_ALLMULTI: "bit IFF_ALLMULTI n \<longleftrightarrow> n = 9"
proof -
  have e: "IFF_ALLMULTI = 2 ^ 9"
    by (simp add: IFF_ALLMULTI_def)
  show ?thesis
    unfolding e bit_exp_iff by auto
qed

lemma and_IFF_PROMISC: "(k AND IFF_PROMISC \<noteq> 0) = bit k 8" for k :: "16 word"
proof -
  have "bit (k AND IFF_PROMISC) n \<longleftrightarrow> bit k n \<and> n = 8" for n
    by (simp add: bit_and_iff bit_IFF_PROMISC)
  then have "(\<exists>n. bit (k AND IFF_PROMISC) n) \<longleftrightarrow> bit k 8"
    by auto
  then show ?thesis
    by (simp add: word_nonzero_bit)
qed

lemma and_IFF_ALLMULTI: "(k AND IFF_ALLMULTI \<noteq> 0) = bit k 9" for k :: "16 word"
proof -
  have "bit (k AND IFF_ALLMULTI) n \<longleftrightarrow> bit k n \<and> n = 9" for n
    by (simp add: bit_and_iff bit_IFF_ALLMULTI)
  then have "(\<exists>n. bit (k AND IFF_ALLMULTI) n) \<longleftrightarrow> bit k 9"
    by auto
  then show ?thesis
    by (simp add: word_nonzero_bit)
qed

lemma bit_set_flags:
  fixes k :: "16 word"
  shows "bit (k OR IFF_PROMISC) n = (bit k n \<or> n = 8)"
    and "bit (k AND NOT IFF_PROMISC) n = (bit k n \<and> n \<noteq> 8)"
    and "bit (k OR IFF_ALLMULTI) n = (bit k n \<or> n = 9)"
    and "bit (k AND NOT IFF_ALLMULTI) n = (bit k n \<and> n \<noteq> 9)"
  by (auto simp: bit_or_iff bit_and_iff bit_not_iff bit_IFF_PROMISC bit_IFF_ALLMULTI
      dest: bit_imp_le_length)

lemma nd_iface_set_allmulti_effect:
  assumes "nd_iface_set_allmulti get_ok set_ok iface on k = (r, iface', k')"
  shows "old_promisc iface' = old_promisc iface"
    and "refcount iface' = refcount iface"
    and "n \<noteq> 9 \<Longrightarrow> bit k' n = bit k n"
    and "old_allmulti iface' =
           (if get_ok \<and> old_allmulti iface < 0 then (if bit k 9 then 1 else 0)
            else old_allmulti iface)"
    and "\<not> get_ok \<Longrightarrow> k' = k"
    and "get_ok \<Longrightarrow> set_ok \<Longrightarrow> bit k' 9 = on"
  using assms
  by (auto simp: nd_iface_set_allmulti_def Let_def and_IFF_ALLMULTI bit_set_flags
      split: if_splits)

lemma nd_iface_set_promisc_effect:
  assumes "nd_iface_set_promisc get_ok set_ok iface on k = (r, iface', k')"
  shows "old_allmulti iface' = old_allmulti iface"
    and "refcount iface' = refcount iface"
    and "n \<noteq> 8 \<Longrightarrow> bit k' n = bit k n"
    and "old_promisc iface' =
           (if get_ok \<and> old_promisc iface < 0 then (if bit k 8 then 1 else 0)
            else old_promisc iface)"
    and "\<not> get_ok \<Longrightarrow> k' = k"
    and "get_ok \<Longrightarrow> set_ok \<Longrightarrow> bit k' 8 = on"
  using assms
  by (auto simp: nd_iface_set_promisc_def Let_def and_IFF_PROMISC bit_set_flags
      split: if_splits)


lemma saved_flags_invI:
  assumes "\<And>n. n \<noteq> 8 \<Longrightarrow> n \<noteq> 9 \<Longrightarrow> bit k n = bit k0 n"
    and "old_promisc iface < 0 \<Longrightarrow> bit k 8 = bit k0 8"
    and "0 \<le> old_promisc iface \<Longrightarrow> old_promisc iface = (if bit k0 8 then 1 else 0)"
    and "old_allmulti iface < 0 \<Longrightarrow> bit k 9 = bit k0 9"
    and "0 \<le> old_allmulti iface \<Longrightarrow> old_allmulti iface = (if bit k0 9 then 1 else 0)"
  shows "saved_flags_inv k0 (iface, k)"
  unfolding saved_flags_inv_def prod.case
  using assms by (intro conjI allI) (simp_all, blast)

lemma saved_flags_invD:
  assumes "saved_flags_inv k0 (iface, k)"
  shows "n \<noteq> 8 \<Longrightarrow> n \<noteq> 9 \<Longrightarrow> bit k n = bit k0 n"
    and "old_promisc iface < 0 \<Longrightarrow> bit k 8 = bit k0 8"
    and "0 \<le> old_promisc iface \<Longrightarrow> old_promisc iface = (if bit k0 8 then 1 else 0)"
    and "old_allmulti iface < 0 \<Longrightarrow> bit k 9 = bit k0 9"
    and "0 \<le> old_allmulti iface \<Longrightarrow> old_allmulti iface = (if bit k0 9 then 1 else 0)"
  using assms unfolding saved_flags_inv_def prod.case
  by (simp_all, blast)


lemma saved_flags_inv_set_allmulti:
  assumes inv: "saved_flags_inv k0 (iface, k)"
    and run: "nd_iface_set_allmulti get_ok set_ok iface on k = (r, iface', k')"
  shows "saved_flags_inv k0 (iface', k')"
proof (rule saved_flags_invI)
  note eff = nd_iface_set_allmulti_effect [OF run]
  note old = saved_flags_invD [OF inv]
  show "bit k' n = bit k0 n" if "n \<noteq> 8" "n \<noteq> 9" for n
    using that eff(3) [of n] old(1) [of n] by simp
  show "bit k' 8 = bit k0 8" if "old_promisc iface' < 0"
    using that eff(1) eff(3) [of 8] old(2) by simp
  show "old_promisc iface' = (if bit k0 8 then 1 else 0)" if "0 \<le> old_promisc iface'"
    using that eff(1) old(3) by simp
  show "bit k' 9 = bit k0 9" if neg: "old_allmulti iface' < 0"
  proof (cases "get_ok \<and> old_allmulti iface < 0")
    case True
    with eff(4) neg show ?thesis
      by (simp split: if_splits)
  next
    case False
    with eff(4) neg have "old_allmulti iface < 0" "\<not> get_ok"
      by auto
    with eff(5) old(4) show ?thesis
      by simp
  qed
  show "old_allmulti iface' = (if bit k0 9 then 1 else 0)" if pos: "0 \<le> old_allmulti iface'"
  proof (cases "get_ok \<and> old_allmulti iface < 0")
    case True
    with eff(4) old(4) show ?thesis
      by simp
  next
    case False
    with eff(4) pos old(5) show ?thesis
      by auto
  qed
qed

lemma saved_flags_inv_set_promisc:
  assumes inv: "saved_flags_inv k0 (iface, k)"
    and run: "nd_iface_set_promisc get_ok set_ok iface on k = (r, iface', k')"
  shows "saved_flags_inv k0 (iface', k')"
proof (rule saved_flags_invI)
  note eff = nd_iface_set_promisc_effect [OF run]
  note old = saved_flags_invD [OF inv]
  show "bit k' n = bit k0 n" if "n \<noteq> 8" "n \<noteq> 9" for n
    using that eff(3) [of n] old(1) [of n] by simp
  show "bit k' 9 = bit k0 9" if "old_allmulti iface' < 0"
    using that eff(1) eff(3) [of 9] old(4) by simp
  show "old_allmulti iface' = (if bit k0 9 then 1 else 0)" if "0 \<le> old_allmulti iface'"
    using that eff(1) old(5) by simp
  show "bit k' 8 = bit k0 8" if neg: "old_promisc iface' < 0"
  proof (cases "get_ok \<and> old_promisc iface < 0")
    case True
    with eff(4) neg show ?thesis
      by (simp split: if_splits)
  next
    case False
    with eff(4) neg have "old_promisc iface < 0" "\<not> get_ok"
      by auto
    with eff(5) old(2) show ?thesis
      by simp
  qed
  show "old_promisc iface' = (if bit k0 8 then 1 else 0)" if pos: "0 \<le> old_promisc iface'"
  proof (cases "get_ok \<and> old_promisc iface < 0")
    case True
    with eff(4) old(2) show ?thesis
      by simp
  next
    case False
    with eff(4) pos old(3) show ?thesis
      by auto
  qed
qed

lemma saved_flags_inv_step:
  assumes "saved_flags_inv k0 st"
  shows "saved_flags_inv k0 (run_set_call c st)
         \<and> refcount (fst (run_set_call c st)) = refcount (fst st)"
proof (cases st)
  case (Pair iface k)
  show ?thesis
  proof (cases c)
    case (Set_allmulti on get_ok set_ok)
    obtain r iface' k' where run: "nd_iface_set_allmulti get_ok set_ok iface on k = (r, iface', k')"
      by (cases "nd_iface_set_allmulti get_ok set_ok iface on k") auto
    from saved_flags_inv_set_allmulti [OF _ run] assms Pair
    have "saved_flags_inv k0 (iface', k')"
      by simp
    with Pair Set_allmulti run nd_iface_set_allmulti_effect(2) [OF run] show ?thesis
      by simp
  next
    case (Set_promisc on get_ok set_ok)
    obtain r iface' k' where run: "nd_iface_set_promisc get_ok set_ok iface on k = (r, iface', k')"
      by (cases "nd_iface_set_promisc get_ok set_ok iface on k") auto
    from saved_flags_inv_set_promisc [OF _ run] assms Pair
    have "saved_flags_inv k0 (iface', k')"
      by simp
    with Pair Set_promisc run nd_iface_set_promisc_effect(2) [OF run] show ?thesis
      by simp
  qed
qed

lemma saved_flags_inv_run:
  assumes "saved_flags_inv k0 st"
  shows "saved_flags_inv k0 (run_set_calls calls st)
         \<and> refcount (fst (run_set_calls calls st)) = refcount (fst st)"
  using assms
proof (induction calls arbitrary: st)
  case Nil
  then show ?case
    by (simp add: run_set_calls_def)
next
  case (Cons c calls)
  from saved_flags_inv_step [OF Cons.prems, of c]
  have step: "saved_flags_inv k0 (run_set_call c st)"
    "refcount (fst (run_set_call c st)) = refcount (fst st)"
    by simp_all
  from Cons.IH [OF step(1)] step(2) show ?case
    by (simp add: run_set_calls_def)
qed


lemma nd_iface_close_restores:
  assumes inv: "saved_flags_inv k0 (iface, k)" and last: "refcount iface = 1"
  shows "\<exists>iface'. nd_iface_close False (True, True) (True, True) iface k = (iface', k0, True)"
proof -
  define i0 where "i0 = iface\<lparr>refcount := refcount iface - 1\<rparr>"
  have inv0: "saved_flags_inv k0 (i0, k)"
    using inv by (simp add: saved_flags_inv_def i0_def)
  define st1 where "st1 = (if 0 \<le> old_promisc i0
               then snd (nd_iface_set_promisc True True i0 (old_promisc i0 \<noteq> 0) k)
               else (i0, k))"
  obtain i1 k1 where st1: "st1 = (i1, k1)"
    by (cases st1)
  have inv1: "saved_flags_inv k0 (i1, k1)" and b8: "bit k1 8 = bit k0 8"
  proof -
    show "saved_flags_inv k0 (i1, k1)"
    proof (cases "0 \<le> old_promisc i0")
      case True
      obtain r where "nd_iface_set_promisc True True i0 (old_promisc i0 \<noteq> 0) k = (r, i1, k1)"
        using st1 True by (cases "nd_iface_set_promisc True True i0 (old_promisc i0 \<noteq> 0) k")
          (simp add: st1_def)
      then show ?thesis
        by (rule saved_flags_inv_set_promisc [OF inv0])
    next
      case False
      with st1 inv0 show ?thesis
        by (simp add: st1_def)
    qed
    show "bit k1 8 = bit k0 8"
    proof (cases "0 \<le> old_promisc i0")
      case True
      obtain r where run: "nd_iface_set_promisc True True i0 (old_promisc i0 \<noteq> 0) k = (r, i1, k1)"
        using st1 True by (cases "nd_iface_set_promisc True True i0 (old_promisc i0 \<noteq> 0) k")
          (simp add: st1_def)
      from nd_iface_set_promisc_effect(6) [OF run] have "bit k1 8 = (old_promisc i0 \<noteq> 0)"
        by simp
      with saved_flags_invD(3) [OF inv0 True] show ?thesis
        by (simp split: if_splits)
    next
      case False
      with st1 have "k1 = k" "old_promisc i0 < 0"
        by (simp_all add: st1_def)
      with saved_flags_invD(2) [OF inv0] show ?thesis
        by simp
    qed
  qed
  define st2 where "st2 = (if 0 \<le> old_allmulti i1
               then snd (nd_iface_set_allmulti True True i1 (old_allmulti i1 \<noteq> 0) k1)
               else (i1, k1))"
  obtain i2 k2 where st2: "st2 = (i2, k2)"
    by (cases st2)
  have b9: "bit k2 9 = bit k0 9" and rest: "n \<noteq> 9 \<Longrightarrow> bit k2 n = bit k1 n" for n
  proof -
    show "bit k2 9 = bit k0 9"
    proof (cases "0 \<le> old_allmulti i1")
      case True
      obtain r where run: "nd_iface_set_allmulti True True i1 (old_allmulti i1 \<noteq> 0) k1 = (r, i2, k2)"
        using st2 True by (cases "nd_iface_set_allmulti True True i1 (old_allmulti i1 \<noteq> 0) k1")
          (simp add: st2_def)
      from nd_iface_set_allmulti_effect(6) [OF run] have "bit k2 9 = (old_allmulti i1 \<noteq> 0)"
        by simp
      with saved_flags_invD(5) [OF inv1 True] show ?thesis
        by (simp split: if_splits)
    next
      case False
      with st2 have "k2 = k1" "old_allmulti i1 < 0"
        by (simp_all add: st2_def)
      with saved_flags_invD(4) [OF inv1] show ?thesis
        by simp
    qed
    show "bit k2 n = bit k1 n" if "n \<noteq> 9"
    proof (cases "0 \<le> old_allmulti i1")
      case True
      obtain r where run: "nd_iface_set_allmulti True True i1 (old_allmulti i1 \<noteq> 0) k1 = (r, i2, k2)"
        using st2 True by (cases "nd_iface_set_allmulti True True i1 (old_allmulti i1 \<noteq> 0) k1")
          (simp add: st2_def)
      from nd_iface_set_allmulti_effect(3) [OF run that] show ?thesis .
    next
      case False
      with st2 show ?thesis
        by (simp add: st2_def)
    qed
  qed
  have "bit k2 n = bit k0 n" for n
  proof (cases "n = 9")
    case True
    with b9 show ?thesis
      by simp
  next
    case n9: False
    show ?thesis
    proof (cases "n = 8")
      case True
      with rest [of 8] b8 show ?thesis
        by simp
    next
      case False
      with n9 rest [of n] saved_flags_invD(1) [OF inv1, of n] show ?thesis
        by simp
    qed
  qed
  then have k2: "k2 = k0"
    by (simp add: bit_eq_iff [where ?'a = "16 word"])
  have rc: "\<not> refcount i0 > 0"
    using last by (simp add: i0_def)
  have "nd_iface_close False (True, True) (True, True) iface k =
          (case st1 of (iface, kflags) \<Rightarrow>
             (case (if 0 \<le> old_allmulti iface
                    then snd (nd_iface_set_allmulti True True iface (old_allmulti iface \<noteq> 0) kflags)
                    else (iface, kflags)) of
                (iface, kflags) \<Rightarrow> (iface, kflags, True)))"
    unfolding nd_iface_close_def Let_def fst_conv snd_conv i0_def [symmetric] st1_def [symmetric]
    using rc by (simp only: if_False)
  also have "\<dots> = (case st2 of (iface, kflags) \<Rightarrow> (iface, kflags, True))"
    unfolding st1 prod.case st2_def ..
  also have "\<dots> = (i2, k2, True)"
    unfolding st2 by simp
  finally show ?thesis
    using k2 by blast
qed

text \<open>
  C9. \<^verbatim>\<open>nd_iface_set_allmulti\<close> and \<^verbatim>\<open>nd_iface_set_promisc\<close> record the kernel's current flag
  only while the saved value is still the sentinel: a saved value that is set is never
  overwritten, and a sentinel is replaced, once the flags have been read, by the flag the
  kernel holds then. So after any sequence of set calls on a freshly opened interface,
  whatever the outcomes of their ioctls, each saved value is still the sentinel or is the
  flag the kernel held at the start, and \<^verbatim>\<open>nd_iface_close\<close> on the last reference, with
  the no-restore override inactive and its own ioctls succeeding, leaves the kernel's flag
  word as it was at the start, \<^verbatim>\<open>IFF_ALLMULTI\<close> and \<^verbatim>\<open>IFF_PROMISC\<close> included, and releases
  the interface.
\<close>

theorem saved_flags_restored_on_last_close:
  assumes fresh: "old_allmulti iface = - 1" "old_promisc iface = - 1"
    and run: "run_set_calls calls (iface, kflags) = (iface', kflags')"
    and last: "refcount iface' = 1"
  shows "(0 \<le> old_allmulti i \<longrightarrow>
            old_allmulti (fst (snd (nd_iface_set_allmulti get_ok set_ok i on k))) = old_allmulti i)
       \<and> (0 \<le> old_promisc i \<longrightarrow>
            old_promisc (fst (snd (nd_iface_set_promisc get_ok set_ok i on k))) = old_promisc i)
       \<and> (old_allmulti i < 0 \<and> get_ok \<longrightarrow>
            old_allmulti (fst (snd (nd_iface_set_allmulti get_ok set_ok i on k)))
              = (if k AND IFF_ALLMULTI \<noteq> 0 then 1 else 0))
       \<and> (old_promisc i < 0 \<and> get_ok \<longrightarrow>
            old_promisc (fst (snd (nd_iface_set_promisc get_ok set_ok i on k)))
              = (if k AND IFF_PROMISC \<noteq> 0 then 1 else 0))
       \<and> (old_allmulti iface' < 0
            \<or> old_allmulti iface' = (if kflags AND IFF_ALLMULTI \<noteq> 0 then 1 else 0))
       \<and> (old_promisc iface' < 0
            \<or> old_promisc iface' = (if kflags AND IFF_PROMISC \<noteq> 0 then 1 else 0))
       \<and> (\<exists>iface''. nd_iface_close False (True, True) (True, True) iface' kflags'
                        = (iface'', kflags, True))"
proof -
  obtain ra ia ka where a: "nd_iface_set_allmulti get_ok set_ok i on k = (ra, ia, ka)"
    by (cases "nd_iface_set_allmulti get_ok set_ok i on k") auto
  obtain rp ip kp where p: "nd_iface_set_promisc get_ok set_ok i on k = (rp, ip, kp)"
    by (cases "nd_iface_set_promisc get_ok set_ok i on k") auto
  have once: "0 \<le> old_allmulti i \<longrightarrow>
            old_allmulti (fst (snd (nd_iface_set_allmulti get_ok set_ok i on k))) = old_allmulti i"
    "0 \<le> old_promisc i \<longrightarrow>
            old_promisc (fst (snd (nd_iface_set_promisc get_ok set_ok i on k))) = old_promisc i"
    "old_allmulti i < 0 \<and> get_ok \<longrightarrow>
            old_allmulti (fst (snd (nd_iface_set_allmulti get_ok set_ok i on k)))
              = (if k AND IFF_ALLMULTI \<noteq> 0 then 1 else 0)"
    "old_promisc i < 0 \<and> get_ok \<longrightarrow>
            old_promisc (fst (snd (nd_iface_set_promisc get_ok set_ok i on k)))
              = (if k AND IFF_PROMISC \<noteq> 0 then 1 else 0)"
  proof -
    have ia: "fst (snd (nd_iface_set_allmulti get_ok set_ok i on k)) = ia"
      and ip: "fst (snd (nd_iface_set_promisc get_ok set_ok i on k)) = ip"
      by (simp_all add: a p)
    show "0 \<le> old_allmulti i \<longrightarrow>
            old_allmulti (fst (snd (nd_iface_set_allmulti get_ok set_ok i on k))) = old_allmulti i"
      "old_allmulti i < 0 \<and> get_ok \<longrightarrow>
            old_allmulti (fst (snd (nd_iface_set_allmulti get_ok set_ok i on k)))
              = (if k AND IFF_ALLMULTI \<noteq> 0 then 1 else 0)"
      unfolding ia nd_iface_set_allmulti_effect(4) [OF a] and_IFF_ALLMULTI by simp_all
    show "0 \<le> old_promisc i \<longrightarrow>
            old_promisc (fst (snd (nd_iface_set_promisc get_ok set_ok i on k))) = old_promisc i"
      "old_promisc i < 0 \<and> get_ok \<longrightarrow>
            old_promisc (fst (snd (nd_iface_set_promisc get_ok set_ok i on k)))
              = (if k AND IFF_PROMISC \<noteq> 0 then 1 else 0)"
      unfolding ip nd_iface_set_promisc_effect(4) [OF p] and_IFF_PROMISC by simp_all
  qed
  have "saved_flags_inv kflags (iface, kflags)"
    using fresh by (simp add: saved_flags_inv_def)
  from saved_flags_inv_run [OF this, of calls] run
  have inv: "saved_flags_inv kflags (iface', kflags')"
    by simp
  note d = saved_flags_invD [OF inv]
  have saved_allmulti: "old_allmulti iface' < 0
            \<or> old_allmulti iface' = (if kflags AND IFF_ALLMULTI \<noteq> 0 then 1 else 0)"
  proof (cases "old_allmulti iface' < 0")
    case True
    then show ?thesis
      by simp
  next
    case False
    then have "0 \<le> old_allmulti iface'"
      by simp
    from d(5) [OF this] show ?thesis
      by (simp add: and_IFF_ALLMULTI)
  qed
  have saved_promisc: "old_promisc iface' < 0
            \<or> old_promisc iface' = (if kflags AND IFF_PROMISC \<noteq> 0 then 1 else 0)"
  proof (cases "old_promisc iface' < 0")
    case True
    then show ?thesis
      by simp
  next
    case False
    then have "0 \<le> old_promisc iface'"
      by simp
    from d(3) [OF this] show ?thesis
      by (simp add: and_IFF_PROMISC)
  qed
  from once saved_allmulti saved_promisc nd_iface_close_restores [OF inv last] show ?thesis
    by (intro conjI)
qed

theorem saved_flags_restored_on_last_close_witness:
  "old_allmulti \<lparr>index = 2, lladdr = [0x02, 0x11, 0x22, 0x33, 0x44, 0x55], refcount = 1,
         old_allmulti = - 1, old_promisc = - 1, proxy = (None :: nat option), sessions = []\<rparr> = - 1
   \<and> old_promisc \<lparr>index = 2, lladdr = [0x02, 0x11, 0x22, 0x33, 0x44, 0x55], refcount = 1,
         old_allmulti = - 1, old_promisc = - 1, proxy = (None :: nat option), sessions = []\<rparr> = - 1
   \<and> run_set_calls [Set_allmulti True True True, Set_promisc False True True, Set_allmulti True False False]
        (\<lparr>index = 2, lladdr = [0x02, 0x11, 0x22, 0x33, 0x44, 0x55], refcount = 1,
         old_allmulti = - 1, old_promisc = - 1, proxy = (None :: nat option), sessions = []\<rparr>, 0x1143)
      = (\<lparr>index = 2, lladdr = [0x02, 0x11, 0x22, 0x33, 0x44, 0x55], refcount = 1,
         old_allmulti = 0, old_promisc = 1, proxy = (None :: nat option), sessions = []\<rparr>, 0x1243)
   \<and> (\<exists>iface''. nd_iface_close False (True, True) (True, True)
                    \<lparr>index = 2, lladdr = [0x02, 0x11, 0x22, 0x33, 0x44, 0x55], refcount = 1,
         old_allmulti = 0, old_promisc = 1, proxy = (None :: nat option), sessions = []\<rparr> 0x1243
                  = (iface'', 0x1143, True))"
proof -
  have run: "run_set_calls [Set_allmulti True True True, Set_promisc False True True, Set_allmulti True False False]
        (\<lparr>index = 2, lladdr = [0x02, 0x11, 0x22, 0x33, 0x44, 0x55], refcount = 1,
         old_allmulti = - 1, old_promisc = - 1, proxy = (None :: nat option), sessions = []\<rparr>, 0x1143)
      = (\<lparr>index = 2, lladdr = [0x02, 0x11, 0x22, 0x33, 0x44, 0x55], refcount = 1,
         old_allmulti = 0, old_promisc = 1, proxy = (None :: nat option), sessions = []\<rparr>, 0x1243)"
    by code_simp
  have fresh: "old_allmulti \<lparr>index = 2, lladdr = [0x02, 0x11, 0x22, 0x33, 0x44, 0x55], refcount = 1,
         old_allmulti = - 1, old_promisc = - 1, proxy = (None :: nat option), sessions = []\<rparr> = - 1"
    "old_promisc \<lparr>index = 2, lladdr = [0x02, 0x11, 0x22, 0x33, 0x44, 0x55], refcount = 1,
         old_allmulti = - 1, old_promisc = - 1, proxy = (None :: nat option), sessions = []\<rparr> = - 1"
    and last: "refcount \<lparr>index = 2, lladdr = [0x02, 0x11, 0x22, 0x33, 0x44, 0x55], refcount = 1,
         old_allmulti = 0, old_promisc = 1, proxy = (None :: nat option), sessions = []\<rparr> = 1"
    by simp_all
  note restored = saved_flags_restored_on_last_close [OF fresh run last,
      where i = "\<lparr>index = 2, lladdr = [0x02, 0x11, 0x22, 0x33, 0x44, 0x55], refcount = 1,
         old_allmulti = - 1, old_promisc = - 1, proxy = (None :: nat option), sessions = []\<rparr>" and k = 0 and get_ok = True and set_ok = True and on = True]
  from restored have "\<exists>iface''. nd_iface_close False (True, True) (True, True)
                    \<lparr>index = 2, lladdr = [0x02, 0x11, 0x22, 0x33, 0x44, 0x55], refcount = 1,
         old_allmulti = 0, old_promisc = 1, proxy = (None :: nat option), sessions = []\<rparr> 0x1243
                  = (iface'', 0x1143, True)"
    by (elim conjE)
  with run show ?thesis
    by simp
qed

section \<open>Further properties\<close>

text \<open>
  X1. The loop over the Hop-by-Hop headers stays inside the payload: started at an offset
  \<open>i \<le> plen\<close>, it leaves with an offset \<open>j\<close> that is at least 8 bytes further, a multiple
  of 8 bytes away and at most \<open>plen\<close>, so the unsigned \<open>plen - i\<close> of the C code never wraps,
  and the header it read was inside the buffer.
\<close>

theorem ndL_handle_msg_hopopts_within_payload:
  assumes "ndL_handle_msg_hopopts mem plen i = Hop_break j" and "i \<le> plen"
  shows "i + 8 \<le> j \<and> j \<le> plen \<and> 8 dvd (j - i) \<and> sizeof_ndL_ip6_msg_t + i + 2 \<le> length mem"
  using assms
proof (induction mem plen i rule: ndL_handle_msg_hopopts.induct)
  case (1 mem plen i)
  define len where "len = unat (mem ! (sizeof_ndL_ip6_msg_t + i + 1))"
  note step = ndL_handle_msg_hopopts.simps [of mem plen i, folded len_def]
  from "1.prems"(1) step have fit: "\<not> plen - i < 8" "\<not> length mem < sizeof_ndL_ip6_msg_t + i + 2"
    "\<not> plen - i < 8 + len * 8"
    by (simp_all split: if_splits)
  show ?case
  proof (cases "mem ! (sizeof_ndL_ip6_msg_t + i) = IPPROTO_ICMPV6")
    case True
    with "1.prems"(1) step fit have "j = i + (8 + 8 * len)"
      by simp
    with fit "1.prems"(2) show ?thesis
      by simp
  next
    case False
    with "1.prems"(1) step fit have hop: "\<not> mem ! (sizeof_ndL_ip6_msg_t + i) \<noteq> IPPROTO_HOPOPTS"
      and rec: "ndL_handle_msg_hopopts mem plen (i + (8 + 8 * len)) = Hop_break j"
      by (simp_all split: if_splits)
    from fit "1.prems"(2) have "i + (8 + 8 * len) \<le> plen"
      by simp
    with "1.IH" [OF fit [unfolded len_def] False hop rec [unfolded len_def]]
    have ih: "i + (8 + 8 * len) + 8 \<le> j" "j \<le> plen" "8 dvd (j - (i + (8 + 8 * len)))"
      by (simp_all add: len_def)
    from ih(1) have "j - i = (j - (i + (8 + 8 * len))) + 8 * (1 + len)"
      by simp
    with ih(3) have "8 dvd (j - i)"
      by (simp only: dvd_add dvd_triv_left)
    with ih fit show ?thesis
      by simp
  qed
qed


theorem ndL_handle_msg_hopopts_within_payload_witness:
  "ndL_handle_msg_hopopts ([0x33, 0x33, 0xff, 0x00, 0x00, 0x01, 0xaa, 0xbb, 0xcc, 0xdd, 0xee, 0x01, 0x86, 0xdd, 0x60, 0x00,
      0x00, 0x00, 0x00, 0x28, 0x00, 0xff, 0x20, 0x01, 0x0d, 0xb8, 0x00, 0x00, 0x00, 0x00, 0x00, 0x00,
      0x00, 0x00, 0x00, 0x00, 0x00, 0x02, 0xff, 0x02, 0x00, 0x00, 0x00, 0x00, 0x00, 0x00, 0x00, 0x00,
      0x00, 0x01, 0xff, 0x00, 0x00, 0x01, 0x3a, 0x00, 0x01, 0x04, 0x00, 0x00, 0x00, 0x00, 0x87, 0x00,
      0xb8, 0x8d, 0x00, 0x00, 0x00, 0x00, 0x20, 0x01, 0x0d, 0xb8, 0x00, 0x00, 0x00, 0x00, 0x00, 0x00,
      0x00, 0x00, 0x00, 0x00, 0x00, 0x01, 0x01, 0x01, 0xaa, 0xbb, 0xcc, 0xdd, 0xee, 0x01] @ replicate 930 0) 40 0 = Hop_break 8
   \<and> (0 :: nat) + 8 \<le> 8 \<and> (8 :: nat) \<le> 40 \<and> (8 :: nat) dvd (8 - 0)
   \<and> sizeof_ndL_ip6_msg_t + 0 + 2 \<le> length ([0x33, 0x33, 0xff, 0x00, 0x00, 0x01, 0xaa, 0xbb, 0xcc, 0xdd, 0xee, 0x01, 0x86, 0xdd, 0x60, 0x00,
      0x00, 0x00, 0x00, 0x28, 0x00, 0xff, 0x20, 0x01, 0x0d, 0xb8, 0x00, 0x00, 0x00, 0x00, 0x00, 0x00,
      0x00, 0x00, 0x00, 0x00, 0x00, 0x02, 0xff, 0x02, 0x00, 0x00, 0x00, 0x00, 0x00, 0x00, 0x00, 0x00,
      0x00, 0x01, 0xff, 0x00, 0x00, 0x01, 0x3a, 0x00, 0x01, 0x04, 0x00, 0x00, 0x00, 0x00, 0x87, 0x00,
      0xb8, 0x8d, 0x00, 0x00, 0x00, 0x00, 0x20, 0x01, 0x0d, 0xb8, 0x00, 0x00, 0x00, 0x00, 0x00, 0x00,
      0x00, 0x00, 0x00, 0x00, 0x00, 0x01, 0x01, 0x01, 0xaa, 0xbb, 0xcc, 0xdd, 0xee, 0x01] @ replicate 930 (0 :: byte))"
proof -
  have run: "ndL_handle_msg_hopopts ([0x33, 0x33, 0xff, 0x00, 0x00, 0x01, 0xaa, 0xbb, 0xcc, 0xdd, 0xee, 0x01, 0x86, 0xdd, 0x60, 0x00,
      0x00, 0x00, 0x00, 0x28, 0x00, 0xff, 0x20, 0x01, 0x0d, 0xb8, 0x00, 0x00, 0x00, 0x00, 0x00, 0x00,
      0x00, 0x00, 0x00, 0x00, 0x00, 0x02, 0xff, 0x02, 0x00, 0x00, 0x00, 0x00, 0x00, 0x00, 0x00, 0x00,
      0x00, 0x01, 0xff, 0x00, 0x00, 0x01, 0x3a, 0x00, 0x01, 0x04, 0x00, 0x00, 0x00, 0x00, 0x87, 0x00,
      0xb8, 0x8d, 0x00, 0x00, 0x00, 0x00, 0x20, 0x01, 0x0d, 0xb8, 0x00, 0x00, 0x00, 0x00, 0x00, 0x00,
      0x00, 0x00, 0x00, 0x00, 0x00, 0x01, 0x01, 0x01, 0xaa, 0xbb, 0xcc, 0xdd, 0xee, 0x01] @ replicate 930 0) 40 0 = Hop_break 8"
    by code_simp
  from ndL_handle_msg_hopopts_within_payload [OF run] run show ?thesis
    by simp
qed

text \<open>
  X2. The Neighbor Solicitation emitted by \<^verbatim>\<open>nd_iface_send_ns\<close> for a target \<open>T\<close> has the
  IPv6 destination \<^verbatim>\<open>ff02::1:ffXX:XXXX\<close> with the low 24 bits of \<open>T\<close>, the target field
  \<open>T\<close>, and one Source Link-Layer Address option (type 1, length 1) with the MAC of the
  interface.
\<close>

theorem nd_iface_send_ns_ip6_dst_is_solicited_node:
  assumes "length tgt = 16" and "length (lladdr iface) = 6"
  shows "\<exists>frame. nd_iface_send_ns iface tgt = Some frame
           \<and> peek frame 38 16 =
               Some [0xff, 0x02, 0, 0, 0, 0, 0, 0, 0, 0, 0, 0x01, 0xff, tgt ! 13, tgt ! 14, tgt ! 15]
           \<and> peek frame 62 16 = Some tgt
           \<and> peek frame 78 8 = Some ([ND_OPT_SOURCE_LINKADDR, 1] @ lladdr iface)"
proof -
  obtain m0 m1 m2 m3 m4 m5 where m: "lladdr iface = [m0, m1, m2, m3, m4, m5]"
    using list6 [OF assms(2)] by blast
  obtain t0 t1 t2 t3 t4 t5 t6 t7 t8 t9 t10 t11 t12 t13 t14 t15
    where t: "tgt = [t0, t1, t2, t3, t4, t5, t6, t7, t8, t9, t10, t11, t12, t13, t14, t15]"
    using list16 [OF assms(1)] by blast
  from nd_iface_send_ns_frame [OF assms] show ?thesis
    by (auto simp: peek_def m t)
qed

theorem nd_iface_send_ns_ip6_dst_is_solicited_node_witness:
  "\<exists>frame. nd_iface_send_ns \<lparr>index = 2, lladdr = [0x02, 0x11, 0x22, 0x33, 0x44, 0x55], refcount = 1,
         old_allmulti = - 1, old_promisc = - 1, proxy = (None :: nat option), sessions = []\<rparr> [0x20, 0x01, 0x0d, 0xb8, 0, 0, 0, 0, 0, 0, 0, 0, 0, 0, 0, 0x01] = Some frame
     \<and> peek frame 38 16 = Some [0xff, 0x02, 0, 0, 0, 0, 0, 0, 0, 0, 0, 0x01, 0xff, 0, 0, 0x01]
     \<and> peek frame 62 16 = Some [0x20, 0x01, 0x0d, 0xb8, 0, 0, 0, 0, 0, 0, 0, 0, 0, 0, 0, 0x01]
     \<and> peek frame 78 8 = Some [0x01, 0x01, 0x02, 0x11, 0x22, 0x33, 0x44, 0x55]"
  using nd_iface_send_ns_ip6_dst_is_solicited_node [of "[0x20, 0x01, 0x0d, 0xb8, 0, 0, 0, 0, 0, 0, 0, 0, 0, 0, 0, 0x01]" "\<lparr>index = 2, lladdr = [0x02, 0x11, 0x22, 0x33, 0x44, 0x55], refcount = 1,
         old_allmulti = - 1, old_promisc = - 1, proxy = (None :: nat option), sessions = []\<rparr>"]
  by simp

text \<open>
  X3. The Neighbor Advertisement emitted by \<^verbatim>\<open>nd_iface_send_na\<close> is a frame of 86 bytes
  to the link-layer address given, from the MAC of the interface, with the target as IPv6
  source, the destination given, ICMPv6 type 136 and code 0, the target in the target
  field, and one Target Link-Layer Address option (type 2, length 1) with the MAC of the
  interface.
\<close>

theorem nd_iface_send_na_fields:
  assumes "length tgt = 16" and "length dst = 16"
    and "length (lladdr iface) = 6" and "length dst_ll = 6"
  shows "\<exists>frame. nd_iface_send_na iface dst dst_ll tgt router = Some frame
           \<and> length frame = 86
           \<and> peek frame 0 6 = Some dst_ll
           \<and> peek frame 6 6 = Some (lladdr iface)
           \<and> peek frame 22 16 = Some tgt
           \<and> peek frame 38 16 = Some dst
           \<and> peek frame 54 2 = Some [ND_NEIGHBOR_ADVERT, 0]
           \<and> peek frame 62 16 = Some tgt
           \<and> peek frame 78 8 = Some ([ND_OPT_TARGET_LINKADDR, 1] @ lladdr iface)"
proof -
  obtain m0 m1 m2 m3 m4 m5 where m: "lladdr iface = [m0, m1, m2, m3, m4, m5]"
    using list6 [OF assms(3)] by blast
  obtain h0 h1 h2 h3 h4 h5 where h: "dst_ll = [h0, h1, h2, h3, h4, h5]"
    using list6 [OF assms(4)] by blast
  obtain t0 t1 t2 t3 t4 t5 t6 t7 t8 t9 t10 t11 t12 t13 t14 t15
    where t: "tgt = [t0, t1, t2, t3, t4, t5, t6, t7, t8, t9, t10, t11, t12, t13, t14, t15]"
    using list16 [OF assms(1)] by blast
  obtain d0 d1 d2 d3 d4 d5 d6 d7 d8 d9 d10 d11 d12 d13 d14 d15
    where d: "dst = [d0, d1, d2, d3, d4, d5, d6, d7, d8, d9, d10, d11, d12, d13, d14, d15]"
    using list16 [OF assms(2)] by blast
  from nd_iface_send_na_frame [OF assms, of router] show ?thesis
    by (auto simp: peek_def m h t d)
qed

theorem nd_iface_send_na_fields_witness:
  "\<exists>frame. nd_iface_send_na \<lparr>index = 2, lladdr = [0x02, 0x11, 0x22, 0x33, 0x44, 0x55], refcount = 1,
         old_allmulti = - 1, old_promisc = - 1, proxy = (None :: nat option), sessions = []\<rparr> [0x20, 0x01, 0x0d, 0xb8, 0, 0, 0, 0, 0, 0, 0, 0, 0, 0, 0, 0x02] [0xaa, 0xbb, 0xcc, 0xdd, 0xee, 0x01] [0x20, 0x01, 0x0d, 0xb8, 0, 0, 0, 0, 0, 0, 0, 0, 0, 0, 0, 0x01] False = Some frame
     \<and> length frame = 86
     \<and> peek frame 0 6 = Some [0xaa, 0xbb, 0xcc, 0xdd, 0xee, 0x01]
     \<and> peek frame 6 6 = Some [0x02, 0x11, 0x22, 0x33, 0x44, 0x55]
     \<and> peek frame 22 16 = Some [0x20, 0x01, 0x0d, 0xb8, 0, 0, 0, 0, 0, 0, 0, 0, 0, 0, 0, 0x01]
     \<and> peek frame 38 16 = Some [0x20, 0x01, 0x0d, 0xb8, 0, 0, 0, 0, 0, 0, 0, 0, 0, 0, 0, 0x02]
     \<and> peek frame 54 2 = Some [ND_NEIGHBOR_ADVERT, 0]
     \<and> peek frame 62 16 = Some [0x20, 0x01, 0x0d, 0xb8, 0, 0, 0, 0, 0, 0, 0, 0, 0, 0, 0, 0x01]
     \<and> peek frame 78 8 = Some [0x02, 0x01, 0x02, 0x11, 0x22, 0x33, 0x44, 0x55]"
  using nd_iface_send_na_fields [of "[0x20, 0x01, 0x0d, 0xb8, 0, 0, 0, 0, 0, 0, 0, 0, 0, 0, 0, 0x01]" "[0x20, 0x01, 0x0d, 0xb8, 0, 0, 0, 0, 0, 0, 0, 0, 0, 0, 0, 0x02]" "\<lparr>index = 2, lladdr = [0x02, 0x11, 0x22, 0x33, 0x44, 0x55], refcount = 1,
         old_allmulti = - 1, old_promisc = - 1, proxy = (None :: nat option), sessions = []\<rparr>" "[0xaa, 0xbb, 0xcc, 0xdd, 0xee, 0x01]" False]
  by simp

section \<open>The Internet checksum\<close>

lemma unat_ucast_8_16: "unat (ucast (a :: 8 word) :: 16 word) = unat a"
  using unsigned_less [of a, where ?'a = nat]
  by (simp add: unsigned_ucast_eq take_bit_nat_eq_self)

lemma unat_ucast_16_32: "unat (ucast (a :: 16 word) :: 32 word) = unat a"
  using unsigned_less [of a, where ?'a = nat]
  by (simp add: unsigned_ucast_eq take_bit_nat_eq_self)

lemma unat_ucast_32_16:
  "unat c \<le> 65535 \<Longrightarrow> unat (ucast (c :: 32 word) :: 16 word) = unat c"
  by (simp add: unsigned_ucast_eq take_bit_nat_eq_self)

lemma unat_ntohs: "unat (ntohs a b) = 256 * unat a + unat b"
proof -
  have "unat (ntohs a b) = unat (push_bit 8 (ucast a :: 16 word) + ucast b)"
    unfolding ntohs_def
    by (rule arg_cong [where f = unat], rule disjunctive_add [symmetric])
      (auto simp: bit_simps dest: bit_imp_le_length)
  also have "\<dots> = 256 * unat a + unat b"
    using unsigned_less [of a, where ?'a = nat] unsigned_less [of b, where ?'a = nat]
    by (simp add: unat_word_ariths push_bit_eq_mult unat_ucast_8_16)
  finally show ?thesis .
qed

lemma unat_NOT_16: "unat (NOT (x :: 16 word)) = 65535 - unat x"
proof -
  have "NOT x = - 1 - x"
    by (simp add: not_eq_complement)
  moreover have "unat (- 1 - x) = unat (- 1 :: 16 word) - unat x"
    by (rule unat_sub) simp
  moreover have "unat (- 1 :: 16 word) = 65535"
    by (simp add: unsigned_minus_1_eq_mask mask_eq_exp_minus_1)
  ultimately show ?thesis
    by (simp only:)
qed

text \<open>
  One turn of the loop: the sum stays in \<open>1 .. 0xffff\<close> and is, modulo \<^verbatim>\<open>0xffff\<close>, the old
  sum plus the word added.
\<close>

lemma checksum_step:
  fixes c :: "32 word" and w :: "16 word"
  assumes c: "1 \<le> unat c" "unat c \<le> 65535"
  defines "t \<equiv> c + ucast w"
  defines "r \<equiv> (if t > 0xffff then t - 0xffff else t)"
  shows "1 \<le> unat r \<and> unat r \<le> 65535 \<and> unat r mod 65535 = (unat c + unat w) mod 65535"
proof -
  have w: "unat w < 65536"
    using unsigned_less [of w, where ?'a = nat] by simp
  have t: "unat t = unat c + unat w"
    unfolding t_def using c w by (simp add: unat_word_ariths unat_ucast_16_32)
  show ?thesis
  proof (cases "t > 0xffff")
    case True
    then have gt: "65535 < unat t"
      by (simp add: word_less_nat_alt)
    then have "unat r = unat t - 65535"
      unfolding r_def using True by (simp add: unat_sub_if')
    moreover have "(unat t - 65535) mod 65535 = unat t mod 65535"
      using gt by (simp add: le_mod_geq)
    moreover have "1 \<le> unat t - 65535" "unat t - 65535 \<le> 65535"
      using gt t c w by arith+
    ultimately show ?thesis
      using t by simp
  next
    case False
    then have "unat t \<le> 65535"
      by (simp add: word_less_nat_alt)
    then show ?thesis
      unfolding r_def using False t c by simp
  qed
qed

lemma checksum_loop_sum:
  "even (length data) \<Longrightarrow> 1 \<le> unat c \<Longrightarrow> unat c \<le> 65535 \<Longrightarrow>
   1 \<le> unat (ndL_calculate_checksum_loop c data) \<and>
   unat (ndL_calculate_checksum_loop c data) \<le> 65535 \<and>
   unat (ndL_calculate_checksum_loop c data) mod 65535 = (unat c + rfc1071_sum data) mod 65535"
proof (induction c data rule: ndL_calculate_checksum_loop.induct)
  case (1 csum)
  then show ?case by simp
next
  case (2 csum a)
  then show ?case by simp
next
  case (3 csum a b p)
  define r where "r = (if csum + ucast (ntohs a b) > 0xffff
    then csum + ucast (ntohs a b) - 0xffff else csum + ucast (ntohs a b))"
  have r: "1 \<le> unat r" "unat r \<le> 65535"
    "unat r mod 65535 = (unat csum + unat (ntohs a b)) mod 65535"
    using checksum_step [OF "3.prems"(2,3), of "ntohs a b"] unfolding r_def by simp_all
  have loop: "ndL_calculate_checksum_loop csum (a # b # p) = ndL_calculate_checksum_loop r p"
    unfolding r_def by (simp add: Let_def)
  have ev: "even (length p)"
    using "3.prems"(1) by simp
  have ih: "1 \<le> unat (ndL_calculate_checksum_loop r p)"
    "unat (ndL_calculate_checksum_loop r p) \<le> 65535"
    "unat (ndL_calculate_checksum_loop r p) mod 65535 = (unat r + rfc1071_sum p) mod 65535"
    using "3.IH" [OF refl ev, folded r_def] r(1,2) by simp_all
  have "(unat r + rfc1071_sum p) mod 65535
      = (unat csum + unat (ntohs a b) + rfc1071_sum p) mod 65535"
    using r(3) by (rule mod_add_cong) (rule refl)
  also have "\<dots> = (unat csum + rfc1071_sum (a # b # p)) mod 65535"
    by (simp add: unat_ntohs add.assoc)
  finally show ?case
    unfolding loop using ih by simp
qed

lemma checksum_sum:
  assumes "even (length data)" "1 \<le> unat c" "unat c \<le> 65535"
  shows "1 \<le> unat (ndL_calculate_checksum c data)"
    and "unat (ndL_calculate_checksum c data) \<le> 65535"
    and "unat (ndL_calculate_checksum c data) mod 65535 = (unat c + rfc1071_sum data) mod 65535"
  using checksum_loop_sum [OF assms]
  by (simp_all add: ndL_calculate_checksum_def unat_ucast_32_16)

lemma rfc1071_sum_append:
  "even (length xs) \<Longrightarrow> rfc1071_sum (xs @ ys) = rfc1071_sum xs + rfc1071_sum ys"
  by (induction xs rule: rfc1071_sum.induct) simp_all

lemma rfc1071_sum_htons: "rfc1071_sum (htons x) = unat x"
proof -
  have "unat x = unat (ntohs (htons x ! 0) (htons x ! Suc 0))"
    by (simp only: ntohs_htons)
  then show ?thesis
    by (simp add: unat_ntohs htons_def)
qed

lemma memcpy_same:
  assumes "take (length src) (drop off mem) = src"
  shows "memcpy mem off src = mem"
proof -
  have "memcpy mem off src = take off mem @ src @ drop (length src) (drop off mem)"
    by (simp add: memcpy_def add.commute)
  also have "\<dots> = take off mem @ take (length src) (drop off mem)
                    @ drop (length src) (drop off mem)"
    by (simp only: assms)
  also have "\<dots> = mem"
    by (simp only: append_take_drop_id)
  finally show ?thesis .
qed

lemma icmp6_checksum_rfc1071:
  assumes ck: "ndL_calculate_icmp6_checksum mem ip6_hdr icmp6_hdr sz = Some ck"
    and ev: "even sz"
  shows "rfc1071_sum (take 16 (drop (ip6_hdr + 8) mem) @ take 16 (drop (ip6_hdr + 24) mem)
           @ htonl (of_nat sz) @ [0, 0, 0, IPPROTO_ICMPV6]
           @ memcpy (take sz (drop icmp6_hdr mem)) 2 ck) mod 65535 = 0"
proof -
  define src where "src = take 16 (drop (ip6_hdr + 8) mem)"
  define dst where "dst = take 16 (drop (ip6_hdr + 24) mem)"
  define ih where "ih = take 8 (drop icmp6_hdr mem)"
  define body where "body = take (sz - 8) (drop (icmp6_hdr + 8) mem)"
  define pre where "pre = src @ dst @ htonl (of_nat sz) @ [0, 0, 0, IPPROTO_ICMPV6]"
  define hdr where "hdr = pre @ memcpy ih 2 [0, 0]"
  define c1 where "c1 = ndL_calculate_checksum 0xffff hdr"
  define c2 where "c2 = ndL_calculate_checksum (ucast c1) body"
  from ck have b1: "ip6_hdr + 8 + 16 \<le> length mem" and b2: "ip6_hdr + 24 + 16 \<le> length mem"
    and b3: "icmp6_hdr + 8 \<le> length mem" and sz: "8 \<le> sz"
    and b4: "icmp6_hdr + 8 + (sz - 8) \<le> length mem"
    by (auto simp: ndL_calculate_icmp6_checksum_def peek_def split: if_splits)
  from ck have ck_eq: "ck = htons (NOT c2)"
    unfolding c2_def c1_def hdr_def pre_def src_def dst_def ih_def body_def
    using b1 b2 b3 b4 sz
    by (simp add: ndL_calculate_icmp6_checksum_def peek_def Let_def)
  have len_src: "length src = 16" and len_dst: "length dst = 16" and len_ih: "length ih = 8"
    and len_body: "length body = sz - 8"
    unfolding src_def dst_def ih_def body_def using b1 b2 b3 b4 by simp_all
  have len_pre: "length pre = 40"
    unfolding pre_def by (simp add: len_src len_dst)
  have ev_body: "even (length body)"
    using ev sz by (simp add: len_body)
  have msg: "take sz (drop icmp6_hdr mem) = ih @ body"
  proof -
    have "take sz (drop icmp6_hdr mem) = take (8 + (sz - 8)) (drop icmp6_hdr mem)"
      using sz by simp
    also have "\<dots> = ih @ body"
      unfolding ih_def body_def by (simp only: take_add drop_drop add.commute)
    finally show ?thesis .
  qed
  have zeroed: "memcpy ih 2 [0, 0] = take 2 ih @ [0, 0] @ drop 4 ih"
    by (simp add: memcpy_def)
  have stored: "memcpy (ih @ body) 2 ck = take 2 ih @ ck @ drop 4 ih @ body"
    by (simp add: memcpy_def ck_eq len_ih)
  define A where "A = rfc1071_sum pre + rfc1071_sum (take 2 ih) + rfc1071_sum (drop 4 ih)"
  have sum_hdr: "rfc1071_sum hdr = A"
    unfolding hdr_def zeroed A_def
    by (simp add: rfc1071_sum_append len_pre len_ih)
  have sum_frame: "rfc1071_sum (pre @ memcpy (ih @ body) 2 ck)
                   = A + rfc1071_sum body + (65535 - unat c2)"
    unfolding stored A_def
    by (simp add: rfc1071_sum_append len_pre len_ih ck_eq rfc1071_sum_htons unat_NOT_16)
  have ev_hdr: "even (length hdr)"
    unfolding hdr_def zeroed by (simp add: len_pre len_ih)
  have c1: "1 \<le> unat c1" "unat c1 \<le> 65535" "unat c1 mod 65535 = A mod 65535"
    using checksum_sum [OF ev_hdr, of "0xffff"] unfolding c1_def [symmetric] sum_hdr
    by simp_all
  have uc1: "unat (ucast c1 :: 32 word) = unat c1"
    by (rule unat_ucast_16_32)
  have c2: "1 \<le> unat c2" "unat c2 \<le> 65535"
    "unat c2 mod 65535 = (unat c1 + rfc1071_sum body) mod 65535"
    using checksum_sum [OF ev_body, of "ucast c1"] c1(1,2) unfolding c2_def [symmetric] uc1
    by simp_all
  have "(A + rfc1071_sum body) mod 65535 = (unat c1 + rfc1071_sum body) mod 65535"
    using c1(3) [symmetric] by (rule mod_add_cong) (rule refl)
  then have "(A + rfc1071_sum body) mod 65535 = unat c2 mod 65535"
    using c2(3) by simp
  then have "(A + rfc1071_sum body + (65535 - unat c2)) mod 65535
           = (unat c2 + (65535 - unat c2)) mod 65535"
    by (rule mod_add_cong) (rule refl)
  also have "\<dots> = 0"
    using c2(2) by simp
  finally have "rfc1071_sum (pre @ memcpy (ih @ body) 2 ck) mod 65535 = 0"
    unfolding sum_frame .
  then show ?thesis
    unfolding pre_def src_def dst_def msg by simp
qed

lemma frame_checksum_rfc1071:
  assumes ck: "ndL_calculate_icmp6_checksum frame 14 54 n = peek frame 56 2"
    and some: "peek frame 56 2 \<noteq> None" and ev: "even n" and len: "length frame = 54 + n"
  shows "rfc1071_sum (take 16 (drop 22 frame) @ take 16 (drop 38 frame)
           @ htonl (of_nat n) @ [0, 0, 0, IPPROTO_ICMPV6] @ drop 54 frame) mod 65535 = 0"
proof -
  from some have stored: "peek frame 56 2 = Some (take 2 (drop 56 frame))"
    and fit: "58 \<le> length frame"
    by (simp_all add: peek_def split: if_splits)
  have all: "take n (drop 54 frame) = drop 54 frame"
    using len by simp
  have "take (length (take 2 (drop 56 frame))) (drop 2 (drop 54 frame)) = take 2 (drop 56 frame)"
    using fit by simp
  then have same: "memcpy (drop 54 frame) 2 (take 2 (drop 56 frame)) = drop 54 frame"
    by (rule memcpy_same)
  from icmp6_checksum_rfc1071 [OF ck [unfolded stored] ev] show ?thesis
    by (simp add: all same)
qed

lemma checksum_loop_append:
  "even (length xs) \<Longrightarrow>
   ndL_calculate_checksum_loop c (xs @ ys)
     = ndL_calculate_checksum_loop (ndL_calculate_checksum_loop c xs) ys"
  by (induction c xs rule: ndL_calculate_checksum_loop.induct) (simp_all add: Let_def)

text \<open>
  X4. \<^verbatim>\<open>ndL_calculate_checksum\<close> is the ones-complement sum of RFC 1071 on data of even
  length: started from a sum in \<open>1 .. 0xffff\<close>, it returns a value in \<open>1 .. 0xffff\<close> that is,
  modulo \<^verbatim>\<open>0xffff\<close>, the start value plus the sum of the 16-bit words of the data in
  network order. The 32-bit accumulator never wraps and the cast to 16 bits loses nothing.
\<close>

theorem ndL_calculate_checksum_is_ones_complement_sum:
  assumes "even (length data)" and "1 \<le> unat c" and "unat c \<le> 65535"
  shows "1 \<le> unat (ndL_calculate_checksum c data)
       \<and> unat (ndL_calculate_checksum c data) \<le> 65535
       \<and> unat (ndL_calculate_checksum c data) mod 65535 = (unat c + rfc1071_sum data) mod 65535"
  using checksum_sum [OF assms] by simp

theorem ndL_calculate_checksum_is_ones_complement_sum_witness:
  "even (length [0x12, 0x34, 0xff, 0xff :: byte])
   \<and> 1 \<le> unat (0xffff :: 32 word) \<and> unat (0xffff :: 32 word) \<le> 65535
   \<and> 1 \<le> unat (ndL_calculate_checksum 0xffff [0x12, 0x34, 0xff, 0xff])
   \<and> unat (ndL_calculate_checksum 0xffff [0x12, 0x34, 0xff, 0xff]) \<le> 65535
   \<and> unat (ndL_calculate_checksum 0xffff [0x12, 0x34, 0xff, 0xff]) mod 65535
       = (unat (0xffff :: 32 word) + rfc1071_sum [0x12, 0x34, 0xff, 0xff]) mod 65535"
  using ndL_calculate_checksum_is_ones_complement_sum [of "[0x12, 0x34, 0xff, 0xff]" "0xffff"]
  by simp

text \<open>
  X5. The checksum that \<^verbatim>\<open>ndL_calculate_icmp6_checksum\<close> returns for an ICMPv6 message of
  even size is the checksum RFC 2460 asks for: written into the checksum field of the
  message, it makes the ones-complement sum of the pseudo-header (source, destination,
  32-bit length, three zero bytes, next header 58) and of the message a multiple of
  \<^verbatim>\<open>0xffff\<close>, whatever the checksum field held before.
\<close>

theorem ndL_calculate_icmp6_checksum_is_internet_checksum:
  assumes "ndL_calculate_icmp6_checksum mem ip6_hdr icmp6_hdr sz = Some ck" and "even sz"
  shows "rfc1071_sum (take 16 (drop (ip6_hdr + 8) mem) @ take 16 (drop (ip6_hdr + 24) mem)
           @ htonl (of_nat sz) @ [0, 0, 0, IPPROTO_ICMPV6]
           @ memcpy (take sz (drop icmp6_hdr mem)) 2 ck) mod 65535 = 0"
  using assms by (rule icmp6_checksum_rfc1071)

theorem ndL_calculate_icmp6_checksum_is_internet_checksum_witness:
  "ndL_calculate_icmp6_checksum (replicate 54 0 @ [135, 0, 0x12, 0x34, 0, 0, 0, 0]) 14 54 8
     = Some [0x78, 0xbd]
   \<and> even (8 :: nat)
   \<and> rfc1071_sum (take 16 (drop (14 + 8) (replicate 54 0 @ [135, 0, 0x12, 0x34, 0, 0, 0, 0]))
         @ take 16 (drop (14 + 24) (replicate 54 0 @ [135, 0, 0x12, 0x34, 0, 0, 0, 0]))
         @ htonl (of_nat 8) @ [0, 0, 0, IPPROTO_ICMPV6]
         @ memcpy (take 8 (drop 54 (replicate 54 0 @ [135, 0, 0x12, 0x34, 0, 0, 0, 0]))) 2
             [0x78, 0xbd]) mod 65535 = 0"
proof -
  have ck: "ndL_calculate_icmp6_checksum (replicate 54 0 @ [135, 0, 0x12, 0x34, 0, 0, 0, 0]) 14 54 8
     = Some [0x78, 0xbd]"
    by code_simp
  have ev: "even (8 :: nat)"
    by simp
  from ndL_calculate_icmp6_checksum_is_internet_checksum [OF ck ev] ck ev show ?thesis
    by (intro conjI)
qed

text \<open>
  X6. Every frame of even length emitted via \<^verbatim>\<open>ndL_send_icmp6\<close>, hence every Neighbor
  Solicitation from \<^verbatim>\<open>nd_iface_send_ns\<close> and every Neighbor Advertisement from
  \<^verbatim>\<open>nd_iface_send_na\<close> (86 bytes each), bears a correct ICMPv6 checksum in the sense of
  RFC 2460: the ones-complement sum of the pseudo-header built from the frame's source,
  destination and ICMPv6 length, and of the ICMPv6 message with its checksum, is a
  multiple of \<^verbatim>\<open>0xffff\<close>.
\<close>

theorem emitted_frames_bear_internet_checksum:
  "(length msg = sz \<and> 62 \<le> sz \<and> sz < 65590 \<and> even sz
      \<and> length (lladdr iface) = 6 \<and> length hwaddr = 6
      \<longrightarrow> (\<exists>frame. ndL_send_icmp6 iface msg sz hwaddr = Some frame
             \<and> rfc1071_sum (take 16 (drop 22 frame) @ take 16 (drop 38 frame)
                   @ htonl (of_nat (sz - 54)) @ [0, 0, 0, IPPROTO_ICMPV6]
                   @ drop 54 frame) mod 65535 = 0))
   \<and> (length tgt = 16 \<and> length (lladdr iface) = 6
      \<longrightarrow> (\<exists>frame. nd_iface_send_ns iface tgt = Some frame
             \<and> rfc1071_sum (take 16 (drop 22 frame) @ take 16 (drop 38 frame)
                   @ htonl 32 @ [0, 0, 0, IPPROTO_ICMPV6] @ drop 54 frame) mod 65535 = 0))
   \<and> (length tgt = 16 \<and> length dst = 16 \<and> length (lladdr iface) = 6 \<and> length dst_ll = 6
      \<longrightarrow> (\<exists>frame. nd_iface_send_na iface dst dst_ll tgt router = Some frame
             \<and> rfc1071_sum (take 16 (drop 22 frame) @ take 16 (drop 38 frame)
                   @ htonl 32 @ [0, 0, 0, IPPROTO_ICMPV6] @ drop 54 frame) mod 65535 = 0))"
proof (intro conjI impI)
  assume a: "length msg = sz \<and> 62 \<le> sz \<and> sz < 65590 \<and> even sz
      \<and> length (lladdr iface) = 6 \<and> length hwaddr = 6"
  then have len: "length msg = sz" and lo: "62 \<le> sz" and hi: "sz < 65590" and ev: "even sz"
    and ll: "length (lladdr iface) = 6" and hw: "length hwaddr = 6"
    by simp_all
  obtain frame c0 c1 where f: "ndL_send_icmp6 iface msg sz hwaddr = Some frame"
    and flen: "length frame = sz"
    and stored: "peek frame 56 2 = Some [c0, c1]"
    and ck: "ndL_calculate_icmp6_checksum frame 14 54 (sz - 54) = Some [c0, c1]"
    using ndL_send_icmp6_fields [OF len lo hi ll hw] by blast
  have ck': "ndL_calculate_icmp6_checksum frame 14 54 (sz - 54) = peek frame 56 2"
    by (simp only: ck stored)
  have some: "peek frame 56 2 \<noteq> None"
    by (simp only: stored) simp
  have ev': "even (sz - 54)"
    using ev lo by simp
  have flen': "length frame = 54 + (sz - 54)"
    using flen lo by simp
  from frame_checksum_rfc1071 [OF ck' some ev' flen'] f
  show "\<exists>frame. ndL_send_icmp6 iface msg sz hwaddr = Some frame
             \<and> rfc1071_sum (take 16 (drop 22 frame) @ take 16 (drop 38 frame)
                   @ htonl (of_nat (sz - 54)) @ [0, 0, 0, IPPROTO_ICMPV6]
                   @ drop 54 frame) mod 65535 = 0"
    by simp
next
  assume a: "length tgt = 16 \<and> length (lladdr iface) = 6"
  then have tgt: "length tgt = 16" and ll: "length (lladdr iface) = 6"
    by simp_all
  obtain frame where f: "nd_iface_send_ns iface tgt = Some frame"
    and some: "peek frame 56 2 \<noteq> None"
    and ck: "ndL_calculate_icmp6_checksum frame 14 54 32 = peek frame 56 2"
    using nd_iface_send_ns_loopback [OF tgt ll, of iface] by auto
  have flen: "length frame = 54 + 32"
    using nd_iface_send_ns_frame [OF tgt ll] f tgt ll by auto
  have ev: "even (32 :: nat)"
    by simp
  from frame_checksum_rfc1071 [OF ck some ev flen] f
  show "\<exists>frame. nd_iface_send_ns iface tgt = Some frame
             \<and> rfc1071_sum (take 16 (drop 22 frame) @ take 16 (drop 38 frame)
                   @ htonl 32 @ [0, 0, 0, IPPROTO_ICMPV6] @ drop 54 frame) mod 65535 = 0"
    by simp
next
  assume a: "length tgt = 16 \<and> length dst = 16 \<and> length (lladdr iface) = 6 \<and> length dst_ll = 6"
  then have tgt: "length tgt = 16" and dst: "length dst = 16"
    and ll: "length (lladdr iface) = 6" and dl: "length dst_ll = 6"
    by simp_all
  obtain frame where f: "nd_iface_send_na iface dst dst_ll tgt router = Some frame"
    and some: "peek frame 56 2 \<noteq> None"
    and ck: "ndL_calculate_icmp6_checksum frame 14 54 32 = peek frame 56 2"
    using nd_iface_send_na_loopback [OF tgt dst ll dl, of router iface] by auto
  have flen: "length frame = 54 + 32"
    using nd_iface_send_na_frame [OF tgt dst ll dl, of router] f tgt dst ll dl by auto
  have ev: "even (32 :: nat)"
    by simp
  from frame_checksum_rfc1071 [OF ck some ev flen] f
  show "\<exists>frame. nd_iface_send_na iface dst dst_ll tgt router = Some frame
             \<and> rfc1071_sum (take 16 (drop 22 frame) @ take 16 (drop 38 frame)
                   @ htonl 32 @ [0, 0, 0, IPPROTO_ICMPV6] @ drop 54 frame) mod 65535 = 0"
    by simp
qed

theorem emitted_frames_bear_internet_checksum_witness:
  "(\<exists>frame. ndL_send_icmp6 \<lparr>index = 2, lladdr = [0x02, 0x11, 0x22, 0x33, 0x44, 0x55], refcount = 1,
         old_allmulti = - 1, old_promisc = - 1, proxy = (None :: nat option), sessions = []\<rparr> (replicate 54 0 @ [136] @ replicate 23 0) 78 [0xaa, 0xbb, 0xcc, 0xdd, 0xee, 0x01] = Some frame
      \<and> rfc1071_sum (take 16 (drop 22 frame) @ take 16 (drop 38 frame)
            @ htonl 24 @ [0, 0, 0, IPPROTO_ICMPV6] @ drop 54 frame) mod 65535 = 0)
   \<and> (\<exists>frame. nd_iface_send_ns \<lparr>index = 2, lladdr = [0x02, 0x11, 0x22, 0x33, 0x44, 0x55], refcount = 1,
         old_allmulti = - 1, old_promisc = - 1, proxy = (None :: nat option), sessions = []\<rparr> [0x20, 0x01, 0x0d, 0xb8, 0, 0, 0, 0, 0, 0, 0, 0, 0, 0, 0, 0x01] = Some frame
      \<and> rfc1071_sum (take 16 (drop 22 frame) @ take 16 (drop 38 frame)
            @ htonl 32 @ [0, 0, 0, IPPROTO_ICMPV6] @ drop 54 frame) mod 65535 = 0)
   \<and> (\<exists>frame. nd_iface_send_na \<lparr>index = 2, lladdr = [0x02, 0x11, 0x22, 0x33, 0x44, 0x55], refcount = 1,
         old_allmulti = - 1, old_promisc = - 1, proxy = (None :: nat option), sessions = []\<rparr> [0x20, 0x01, 0x0d, 0xb8, 0, 0, 0, 0, 0, 0, 0, 0, 0, 0, 0, 0x02] [0xaa, 0xbb, 0xcc, 0xdd, 0xee, 0x01] [0x20, 0x01, 0x0d, 0xb8, 0, 0, 0, 0, 0, 0, 0, 0, 0, 0, 0, 0x01] False = Some frame
      \<and> rfc1071_sum (take 16 (drop 22 frame) @ take 16 (drop 38 frame)
            @ htonl 32 @ [0, 0, 0, IPPROTO_ICMPV6] @ drop 54 frame) mod 65535 = 0)"
proof -
  note inst = emitted_frames_bear_internet_checksum
    [of "replicate 54 0 @ [136] @ replicate 23 0" 78 "\<lparr>index = 2, lladdr = [0x02, 0x11, 0x22, 0x33, 0x44, 0x55], refcount = 1,
         old_allmulti = - 1, old_promisc = - 1, proxy = (None :: nat option), sessions = []\<rparr>" "[0xaa, 0xbb, 0xcc, 0xdd, 0xee, 0x01]" "[0x20, 0x01, 0x0d, 0xb8, 0, 0, 0, 0, 0, 0, 0, 0, 0, 0, 0, 0x01]" "[0x20, 0x01, 0x0d, 0xb8, 0, 0, 0, 0, 0, 0, 0, 0, 0, 0, 0, 0x02]" "[0xaa, 0xbb, 0xcc, 0xdd, 0xee, 0x01]" False]
  have general: "\<exists>frame. ndL_send_icmp6 \<lparr>index = 2, lladdr = [0x02, 0x11, 0x22, 0x33, 0x44, 0x55], refcount = 1,
         old_allmulti = - 1, old_promisc = - 1, proxy = (None :: nat option), sessions = []\<rparr> (replicate 54 0 @ [136] @ replicate 23 0) 78 [0xaa, 0xbb, 0xcc, 0xdd, 0xee, 0x01] = Some frame
      \<and> rfc1071_sum (take 16 (drop 22 frame) @ take 16 (drop 38 frame)
            @ htonl 24 @ [0, 0, 0, IPPROTO_ICMPV6] @ drop 54 frame) mod 65535 = 0"
    using inst [THEN conjunct1] by simp
  have ns: "\<exists>frame. nd_iface_send_ns \<lparr>index = 2, lladdr = [0x02, 0x11, 0x22, 0x33, 0x44, 0x55], refcount = 1,
         old_allmulti = - 1, old_promisc = - 1, proxy = (None :: nat option), sessions = []\<rparr> [0x20, 0x01, 0x0d, 0xb8, 0, 0, 0, 0, 0, 0, 0, 0, 0, 0, 0, 0x01] = Some frame
      \<and> rfc1071_sum (take 16 (drop 22 frame) @ take 16 (drop 38 frame)
            @ htonl 32 @ [0, 0, 0, IPPROTO_ICMPV6] @ drop 54 frame) mod 65535 = 0"
    using inst [THEN conjunct2, THEN conjunct1] by simp
  have na: "\<exists>frame. nd_iface_send_na \<lparr>index = 2, lladdr = [0x02, 0x11, 0x22, 0x33, 0x44, 0x55], refcount = 1,
         old_allmulti = - 1, old_promisc = - 1, proxy = (None :: nat option), sessions = []\<rparr> [0x20, 0x01, 0x0d, 0xb8, 0, 0, 0, 0, 0, 0, 0, 0, 0, 0, 0, 0x02] [0xaa, 0xbb, 0xcc, 0xdd, 0xee, 0x01] [0x20, 0x01, 0x0d, 0xb8, 0, 0, 0, 0, 0, 0, 0, 0, 0, 0, 0, 0x01] False = Some frame
      \<and> rfc1071_sum (take 16 (drop 22 frame) @ take 16 (drop 38 frame)
            @ htonl 32 @ [0, 0, 0, IPPROTO_ICMPV6] @ drop 54 frame) mod 65535 = 0"
    using inst [THEN conjunct2, THEN conjunct2] by simp
  from general ns na show ?thesis
    by (intro conjI)
qed

text \<open>
  X7. On data of odd length \<^verbatim>\<open>ndL_calculate_checksum\<close> adds the last byte as it is, that
  is, as the low-order byte of a word (\<^verbatim>\<open>sum += *p++\<close>), where RFC 1071 pads it with a zero
  byte on its right and so counts it 256 times. The two senders build messages of 86 bytes, an ICMPv6 length of 32.
\<close>

theorem ndL_calculate_checksum_adds_odd_last_byte_as_low_byte:
  assumes "even (length data)" and "1 \<le> unat c" and "unat c \<le> 65535"
  shows "unat (ndL_calculate_checksum c (data @ [a])) mod 65535
           = (unat c + rfc1071_sum data + unat a) mod 65535
       \<and> rfc1071_sum (data @ [a]) = rfc1071_sum data + 256 * unat a"
proof -
  define r where "r = ndL_calculate_checksum_loop c data"
  have r: "1 \<le> unat r" "unat r \<le> 65535" "unat r mod 65535 = (unat c + rfc1071_sum data) mod 65535"
    using checksum_loop_sum [OF assms] unfolding r_def by simp_all
  have w: "(ucast (ucast a :: 16 word) :: 32 word) = ucast a"
    by (rule bit_word_eqI) (auto simp: bit_simps dest: bit_imp_le_length)
  define s where "s = (if r + ucast a > 0xffff then r + ucast a - 0xffff else r + ucast a)"
  have s: "1 \<le> unat s" "unat s \<le> 65535" "unat s mod 65535 = (unat r + unat a) mod 65535"
    using checksum_step [OF r(1,2), of "ucast a"] unfolding s_def w
    by (simp_all add: unat_ucast_8_16)
  have "ndL_calculate_checksum_loop c (data @ [a]) = ndL_calculate_checksum_loop r [a]"
    unfolding r_def using assms(1) by (rule checksum_loop_append)
  also have "\<dots> = s"
    unfolding s_def by (simp add: Let_def)
  finally have "unat (ndL_calculate_checksum c (data @ [a])) = unat s"
    using s(2) by (simp add: ndL_calculate_checksum_def unat_ucast_32_16)
  moreover have "(unat r + unat a) mod 65535 = (unat c + rfc1071_sum data + unat a) mod 65535"
    using r(3) by (rule mod_add_cong) (rule refl)
  ultimately show ?thesis
    using s(3) assms(1) by (simp add: rfc1071_sum_append)
qed

theorem ndL_calculate_checksum_adds_odd_last_byte_as_low_byte_witness:
  "even (length [0x12, 0x34 :: byte])
   \<and> 1 \<le> unat (0xffff :: 32 word) \<and> unat (0xffff :: 32 word) \<le> 65535
   \<and> unat (ndL_calculate_checksum 0xffff ([0x12, 0x34] @ [0x56])) mod 65535
       = (unat (0xffff :: 32 word) + rfc1071_sum [0x12, 0x34] + unat (0x56 :: byte)) mod 65535
   \<and> rfc1071_sum ([0x12, 0x34] @ [0x56]) = rfc1071_sum [0x12, 0x34] + 256 * unat (0x56 :: byte)"
  using ndL_calculate_checksum_adds_odd_last_byte_as_low_byte [of "[0x12, 0x34]" "0xffff" "0x56"]
  by simp

section \<open>Frames without an extension header\<close>

text \<open>
  A mismatch between the checksum computed over the header that \<^verbatim>\<open>ndL_handle_msg\<close> reads
  and the checksum stored in that header ends the function without a call.
\<close>

lemma ndL_handle_msg_mismatch_at_header_read:
  assumes located:
      "mem ! 20 = IPPROTO_ICMPV6 \<and> i = 0
       \<or> mem ! 20 = IPPROTO_HOPOPTS
         \<and> ndL_handle_msg_hopopts mem (unat (ntohs (mem ! 18) (mem ! 19))) 0 = Hop_break i"
    and bad:
      "ndL_calculate_icmp6_checksum mem sizeof_ether_header
         (sizeof_ndL_ip6_msg_t + sizeof_icmp6_hdr * i) (unat (ntohs (mem ! 18) (mem ! 19)) - i)
       \<noteq> peek mem (sizeof_ndL_ip6_msg_t + sizeof_icmp6_hdr * i + 2) 2"
  shows "(ndL_handle_msg iface mem = Some Return \<or> ndL_handle_msg iface mem = None)
         \<and> (mem ! 20 = IPPROTO_ICMPV6
              \<and> sizeof_ndL_ip6_msg_t + unat (ntohs (mem ! 18) (mem ! 19)) \<le> length mem
              \<longrightarrow> ndL_handle_msg iface mem = Some Return)"
proof -
  define plen where "plen = unat (ntohs (mem ! 18) (mem ! 19))"
  have no_call: "act = Return" if run: "ndL_handle_msg iface mem = Some act" for act
  proof (rule ccontr)
    assume "act \<noteq> Return"
    with run obtain j where
      j: "mem ! 20 = IPPROTO_ICMPV6 \<and> j = 0
          \<or> mem ! 20 = IPPROTO_HOPOPTS \<and> ndL_handle_msg_hopopts mem plen 0 = Hop_break j"
      and ok: "ndL_calculate_icmp6_checksum mem sizeof_ether_header
                 (sizeof_ndL_ip6_msg_t + sizeof_icmp6_hdr * j) (plen - j)
               = peek mem (sizeof_ndL_ip6_msg_t + sizeof_icmp6_hdr * j + 2) 2"
      unfolding plen_def by (rule ndL_handle_msg_dispatch)
    from j located have "j = i"
      unfolding plen_def by auto
    with ok bad show False
      unfolding plen_def by simp
  qed
  then have first: "ndL_handle_msg iface mem = Some Return \<or> ndL_handle_msg iface mem = None"
    by (cases "ndL_handle_msg iface mem") auto
  have "ndL_handle_msg iface mem = Some Return"
    if nxt: "mem ! 20 = IPPROTO_ICMPV6" and fits: "sizeof_ndL_ip6_msg_t + plen \<le> length mem"
  proof -
    from nxt located have i: "i = 0"
      by auto
    from fits obtain ip6_plen where pl: "peek mem 18 2 = Some ip6_plen"
      by (simp add: peek_def)
    from fits nxt have nx: "peek8 mem 20 = Some 58"
      by (simp add: peek8_def)
    have pl': "unat (ntohs (ip6_plen ! 0) (ip6_plen ! Suc 0)) = plen"
      using peek_nth [OF pl, of 0] peek_nth [OF pl, of 1] by (simp add: plen_def)
    show ?thesis
    proof (cases "plen < 8")
      case True
      then show ?thesis
        by (simp add: ndL_handle_msg_def Let_def pl nx pl')
    next
      case False
      with fits have "\<exists>c0 c1. ndL_calculate_icmp6_checksum mem 14 54 plen = Some [c0, c1]"
        by (intro icmp6_checksum_Some) simp_all
      then obtain c0 c1 where ck: "ndL_calculate_icmp6_checksum mem 14 54 plen = Some [c0, c1]"
        by blast
      from fits False obtain icmp6_cksum where st: "peek mem 56 2 = Some icmp6_cksum"
        by (simp add: peek_def)
      from bad have "[c0, c1] \<noteq> icmp6_cksum"
        by (simp add: i ck st flip: plen_def)
      with False show ?thesis
        by (simp add: ndL_handle_msg_def Let_def pl nx pl' ck st)
    qed
  qed
  with first show ?thesis
    unfolding plen_def by auto
qed

text \<open>
  X8. A frame without an extension header (\<^verbatim>\<open>ip6_nxt\<close> is ICMPv6) whose ICMPv6 checksum, as
  recomputed by \<^verbatim>\<open>ndL_calculate_icmp6_checksum\<close> over the header at byte 54, differs from
  the stored one is dropped: \<^verbatim>\<open>ndL_handle_msg\<close> calls neither handler, and with the frame
  inside the buffer it returns.
\<close>

theorem ndL_handle_msg_drops_mismatch_without_extension_header:
  assumes "mem ! 20 = IPPROTO_ICMPV6"
    and "ndL_calculate_icmp6_checksum mem sizeof_ether_header sizeof_ndL_ip6_msg_t
           (unat (ntohs (mem ! 18) (mem ! 19)))
         \<noteq> peek mem (sizeof_ndL_ip6_msg_t + 2) 2"
  shows "(ndL_handle_msg iface mem = Some Return \<or> ndL_handle_msg iface mem = None)
         \<and> (sizeof_ndL_ip6_msg_t + unat (ntohs (mem ! 18) (mem ! 19)) \<le> length mem
              \<longrightarrow> ndL_handle_msg iface mem = Some Return)"
  using ndL_handle_msg_mismatch_at_header_read [of mem 0 iface] assms by simp

theorem ndL_handle_msg_drops_mismatch_without_extension_header_witness:
  "[0x33, 0x33, 0xff, 0x00, 0x00, 0x01, 0xaa, 0xbb, 0xcc, 0xdd, 0xee, 0x01, 0x86, 0xdd, 0x60, 0x00,
      0x00, 0x00, 0x00, 0x20, 0x3a, 0xff, 0x20, 0x01, 0x0d, 0xb8, 0x00, 0x00, 0x00, 0x00, 0x00, 0x00,
      0x00, 0x00, 0x00, 0x00, 0x00, 0x02, 0xff, 0x02, 0x00, 0x00, 0x00, 0x00, 0x00, 0x00, 0x00, 0x00,
      0x00, 0x01, 0xff, 0x00, 0x00, 0x01, 0x87, 0x00, 0xb8, 0x8c, 0x00, 0x00, 0x00, 0x00, 0x20, 0x01,
      0x0d, 0xb8, 0x00, 0x00, 0x00, 0x00, 0x00, 0x00, 0x00, 0x00, 0x00, 0x00, 0x00, 0x01, 0x01, 0x01,
      0xaa, 0xbb, 0xcc, 0xdd, 0xee, 0x01] ! 20 = IPPROTO_ICMPV6
   \<and> ndL_calculate_icmp6_checksum
         [0x33, 0x33, 0xff, 0x00, 0x00, 0x01, 0xaa, 0xbb, 0xcc, 0xdd, 0xee, 0x01, 0x86, 0xdd, 0x60, 0x00,
      0x00, 0x00, 0x00, 0x20, 0x3a, 0xff, 0x20, 0x01, 0x0d, 0xb8, 0x00, 0x00, 0x00, 0x00, 0x00, 0x00,
      0x00, 0x00, 0x00, 0x00, 0x00, 0x02, 0xff, 0x02, 0x00, 0x00, 0x00, 0x00, 0x00, 0x00, 0x00, 0x00,
      0x00, 0x01, 0xff, 0x00, 0x00, 0x01, 0x87, 0x00, 0xb8, 0x8c, 0x00, 0x00, 0x00, 0x00, 0x20, 0x01,
      0x0d, 0xb8, 0x00, 0x00, 0x00, 0x00, 0x00, 0x00, 0x00, 0x00, 0x00, 0x00, 0x00, 0x01, 0x01, 0x01,
      0xaa, 0xbb, 0xcc, 0xdd, 0xee, 0x01] 14 54 32
       \<noteq> peek [0x33, 0x33, 0xff, 0x00, 0x00, 0x01, 0xaa, 0xbb, 0xcc, 0xdd, 0xee, 0x01, 0x86, 0xdd, 0x60, 0x00,
      0x00, 0x00, 0x00, 0x20, 0x3a, 0xff, 0x20, 0x01, 0x0d, 0xb8, 0x00, 0x00, 0x00, 0x00, 0x00, 0x00,
      0x00, 0x00, 0x00, 0x00, 0x00, 0x02, 0xff, 0x02, 0x00, 0x00, 0x00, 0x00, 0x00, 0x00, 0x00, 0x00,
      0x00, 0x01, 0xff, 0x00, 0x00, 0x01, 0x87, 0x00, 0xb8, 0x8c, 0x00, 0x00, 0x00, 0x00, 0x20, 0x01,
      0x0d, 0xb8, 0x00, 0x00, 0x00, 0x00, 0x00, 0x00, 0x00, 0x00, 0x00, 0x00, 0x00, 0x01, 0x01, 0x01,
      0xaa, 0xbb, 0xcc, 0xdd, 0xee, 0x01] 56 2
   \<and> ndL_handle_msg \<lparr>index = 2, lladdr = [0x02, 0x11, 0x22, 0x33, 0x44, 0x55], refcount = 1,
         old_allmulti = - 1, old_promisc = - 1, proxy = Some (7 :: nat), sessions = []\<rparr>
         [0x33, 0x33, 0xff, 0x00, 0x00, 0x01, 0xaa, 0xbb, 0xcc, 0xdd, 0xee, 0x01, 0x86, 0xdd, 0x60, 0x00,
      0x00, 0x00, 0x00, 0x20, 0x3a, 0xff, 0x20, 0x01, 0x0d, 0xb8, 0x00, 0x00, 0x00, 0x00, 0x00, 0x00,
      0x00, 0x00, 0x00, 0x00, 0x00, 0x02, 0xff, 0x02, 0x00, 0x00, 0x00, 0x00, 0x00, 0x00, 0x00, 0x00,
      0x00, 0x01, 0xff, 0x00, 0x00, 0x01, 0x87, 0x00, 0xb8, 0x8c, 0x00, 0x00, 0x00, 0x00, 0x20, 0x01,
      0x0d, 0xb8, 0x00, 0x00, 0x00, 0x00, 0x00, 0x00, 0x00, 0x00, 0x00, 0x00, 0x00, 0x01, 0x01, 0x01,
      0xaa, 0xbb, 0xcc, 0xdd, 0xee, 0x01] = Some Return"
proof -
  have nxt: "[0x33, 0x33, 0xff, 0x00, 0x00, 0x01, 0xaa, 0xbb, 0xcc, 0xdd, 0xee, 0x01, 0x86, 0xdd, 0x60, 0x00,
      0x00, 0x00, 0x00, 0x20, 0x3a, 0xff, 0x20, 0x01, 0x0d, 0xb8, 0x00, 0x00, 0x00, 0x00, 0x00, 0x00,
      0x00, 0x00, 0x00, 0x00, 0x00, 0x02, 0xff, 0x02, 0x00, 0x00, 0x00, 0x00, 0x00, 0x00, 0x00, 0x00,
      0x00, 0x01, 0xff, 0x00, 0x00, 0x01, 0x87, 0x00, 0xb8, 0x8c, 0x00, 0x00, 0x00, 0x00, 0x20, 0x01,
      0x0d, 0xb8, 0x00, 0x00, 0x00, 0x00, 0x00, 0x00, 0x00, 0x00, 0x00, 0x00, 0x00, 0x01, 0x01, 0x01,
      0xaa, 0xbb, 0xcc, 0xdd, 0xee, 0x01] ! 20 = IPPROTO_ICMPV6"
    by simp
  have bad: "ndL_calculate_icmp6_checksum
         [0x33, 0x33, 0xff, 0x00, 0x00, 0x01, 0xaa, 0xbb, 0xcc, 0xdd, 0xee, 0x01, 0x86, 0xdd, 0x60, 0x00,
      0x00, 0x00, 0x00, 0x20, 0x3a, 0xff, 0x20, 0x01, 0x0d, 0xb8, 0x00, 0x00, 0x00, 0x00, 0x00, 0x00,
      0x00, 0x00, 0x00, 0x00, 0x00, 0x02, 0xff, 0x02, 0x00, 0x00, 0x00, 0x00, 0x00, 0x00, 0x00, 0x00,
      0x00, 0x01, 0xff, 0x00, 0x00, 0x01, 0x87, 0x00, 0xb8, 0x8c, 0x00, 0x00, 0x00, 0x00, 0x20, 0x01,
      0x0d, 0xb8, 0x00, 0x00, 0x00, 0x00, 0x00, 0x00, 0x00, 0x00, 0x00, 0x00, 0x00, 0x01, 0x01, 0x01,
      0xaa, 0xbb, 0xcc, 0xdd, 0xee, 0x01] sizeof_ether_header sizeof_ndL_ip6_msg_t
         (unat (ntohs ([0x33, 0x33, 0xff, 0x00, 0x00, 0x01, 0xaa, 0xbb, 0xcc, 0xdd, 0xee, 0x01, 0x86, 0xdd, 0x60, 0x00,
      0x00, 0x00, 0x00, 0x20, 0x3a, 0xff, 0x20, 0x01, 0x0d, 0xb8, 0x00, 0x00, 0x00, 0x00, 0x00, 0x00,
      0x00, 0x00, 0x00, 0x00, 0x00, 0x02, 0xff, 0x02, 0x00, 0x00, 0x00, 0x00, 0x00, 0x00, 0x00, 0x00,
      0x00, 0x01, 0xff, 0x00, 0x00, 0x01, 0x87, 0x00, 0xb8, 0x8c, 0x00, 0x00, 0x00, 0x00, 0x20, 0x01,
      0x0d, 0xb8, 0x00, 0x00, 0x00, 0x00, 0x00, 0x00, 0x00, 0x00, 0x00, 0x00, 0x00, 0x01, 0x01, 0x01,
      0xaa, 0xbb, 0xcc, 0xdd, 0xee, 0x01] ! 18) ([0x33, 0x33, 0xff, 0x00, 0x00, 0x01, 0xaa, 0xbb, 0xcc, 0xdd, 0xee, 0x01, 0x86, 0xdd, 0x60, 0x00,
      0x00, 0x00, 0x00, 0x20, 0x3a, 0xff, 0x20, 0x01, 0x0d, 0xb8, 0x00, 0x00, 0x00, 0x00, 0x00, 0x00,
      0x00, 0x00, 0x00, 0x00, 0x00, 0x02, 0xff, 0x02, 0x00, 0x00, 0x00, 0x00, 0x00, 0x00, 0x00, 0x00,
      0x00, 0x01, 0xff, 0x00, 0x00, 0x01, 0x87, 0x00, 0xb8, 0x8c, 0x00, 0x00, 0x00, 0x00, 0x20, 0x01,
      0x0d, 0xb8, 0x00, 0x00, 0x00, 0x00, 0x00, 0x00, 0x00, 0x00, 0x00, 0x00, 0x00, 0x01, 0x01, 0x01,
      0xaa, 0xbb, 0xcc, 0xdd, 0xee, 0x01] ! 19)))
       \<noteq> peek [0x33, 0x33, 0xff, 0x00, 0x00, 0x01, 0xaa, 0xbb, 0xcc, 0xdd, 0xee, 0x01, 0x86, 0xdd, 0x60, 0x00,
      0x00, 0x00, 0x00, 0x20, 0x3a, 0xff, 0x20, 0x01, 0x0d, 0xb8, 0x00, 0x00, 0x00, 0x00, 0x00, 0x00,
      0x00, 0x00, 0x00, 0x00, 0x00, 0x02, 0xff, 0x02, 0x00, 0x00, 0x00, 0x00, 0x00, 0x00, 0x00, 0x00,
      0x00, 0x01, 0xff, 0x00, 0x00, 0x01, 0x87, 0x00, 0xb8, 0x8c, 0x00, 0x00, 0x00, 0x00, 0x20, 0x01,
      0x0d, 0xb8, 0x00, 0x00, 0x00, 0x00, 0x00, 0x00, 0x00, 0x00, 0x00, 0x00, 0x00, 0x01, 0x01, 0x01,
      0xaa, 0xbb, 0xcc, 0xdd, 0xee, 0x01] (sizeof_ndL_ip6_msg_t + 2) 2"
    by code_simp
  have bad': "ndL_calculate_icmp6_checksum
         [0x33, 0x33, 0xff, 0x00, 0x00, 0x01, 0xaa, 0xbb, 0xcc, 0xdd, 0xee, 0x01, 0x86, 0xdd, 0x60, 0x00,
      0x00, 0x00, 0x00, 0x20, 0x3a, 0xff, 0x20, 0x01, 0x0d, 0xb8, 0x00, 0x00, 0x00, 0x00, 0x00, 0x00,
      0x00, 0x00, 0x00, 0x00, 0x00, 0x02, 0xff, 0x02, 0x00, 0x00, 0x00, 0x00, 0x00, 0x00, 0x00, 0x00,
      0x00, 0x01, 0xff, 0x00, 0x00, 0x01, 0x87, 0x00, 0xb8, 0x8c, 0x00, 0x00, 0x00, 0x00, 0x20, 0x01,
      0x0d, 0xb8, 0x00, 0x00, 0x00, 0x00, 0x00, 0x00, 0x00, 0x00, 0x00, 0x00, 0x00, 0x01, 0x01, 0x01,
      0xaa, 0xbb, 0xcc, 0xdd, 0xee, 0x01] 14 54 32
       \<noteq> peek [0x33, 0x33, 0xff, 0x00, 0x00, 0x01, 0xaa, 0xbb, 0xcc, 0xdd, 0xee, 0x01, 0x86, 0xdd, 0x60, 0x00,
      0x00, 0x00, 0x00, 0x20, 0x3a, 0xff, 0x20, 0x01, 0x0d, 0xb8, 0x00, 0x00, 0x00, 0x00, 0x00, 0x00,
      0x00, 0x00, 0x00, 0x00, 0x00, 0x02, 0xff, 0x02, 0x00, 0x00, 0x00, 0x00, 0x00, 0x00, 0x00, 0x00,
      0x00, 0x01, 0xff, 0x00, 0x00, 0x01, 0x87, 0x00, 0xb8, 0x8c, 0x00, 0x00, 0x00, 0x00, 0x20, 0x01,
      0x0d, 0xb8, 0x00, 0x00, 0x00, 0x00, 0x00, 0x00, 0x00, 0x00, 0x00, 0x00, 0x00, 0x01, 0x01, 0x01,
      0xaa, 0xbb, 0xcc, 0xdd, 0xee, 0x01] 56 2"
    by code_simp
  from ndL_handle_msg_drops_mismatch_without_extension_header [OF nxt bad, of "\<lparr>index = 2, lladdr = [0x02, 0x11, 0x22, 0x33, 0x44, 0x55], refcount = 1,
         old_allmulti = - 1, old_promisc = - 1, proxy = Some (7 :: nat), sessions = []\<rparr>"] bad'
  show ?thesis
    by (simp add: ntohs_def)
qed

end
